(* ===== verification/Prelude.thy ===== *)
theory Prelude
  imports Complex_Main "HOL-Library.AList" "HOL-Library.Sublist"
begin

text \<open>
  Shared vocabulary of the askjson development: the Python built-ins the two
  source files call (\<open>str.strip\<close>, \<open>str.startswith\<close>, \<open>in\<close> on strings,
  \<open>str.replace\<close>, \<open>str.split\<close>, \<open>str.lower\<close>, indexing with negative
  indices, the regular-expression classes \<open>\s\<close> and \<open>\w\<close>) and Python's
  insertion-ordered \<open>dict\<close>, written once so that every component theory uses
  the same definitions, together with the lemmas the component proofs share.

  Python strings are sequences of code points; a HOL \<open>string\<close> is a list of
  8-bit characters, read here as the Latin-1 code points 0--255. The character
  classes below are Python's classes restricted to that range.
\<close>

named_theorems py_defs "unfolding rules of the modelled Python built-ins"
named_theorems wf_preserve "operations that keep the JSON well-formedness invariant"

type_synonym ('k, 'v) pydict = "('k \<times> 'v) list"

subsection \<open>Characters\<close>

text \<open>\<open>str.isspace\<close> and the regular-expression class \<open>\s\<close> on Latin-1.\<close>

definition py_isspace :: "char \<Rightarrow> bool" where
  "py_isspace c = (let n = (of_char c :: nat) in
     (9 \<le> n \<and> n \<le> 13) \<or> (28 \<le> n \<and> n \<le> 32) \<or> n = 133 \<or> n = 160)"

text \<open>The regular-expression class \<open>\w\<close> (alphanumerics and underscore) on Latin-1.\<close>

definition py_isword :: "char \<Rightarrow> bool" where
  "py_isword c = (let n = (of_char c :: nat) in
     (48 \<le> n \<and> n \<le> 57) \<or> (65 \<le> n \<and> n \<le> 90) \<or> n = 95 \<or> (97 \<le> n \<and> n \<le> 122) \<or>
     n = 170 \<or> n = 178 \<or> n = 179 \<or> n = 181 \<or> n = 185 \<or> n = 186 \<or>
     (188 \<le> n \<and> n \<le> 190) \<or> (192 \<le> n \<and> n \<le> 214) \<or> (216 \<le> n \<and> n \<le> 246) \<or>
     (248 \<le> n \<and> n \<le> 255))"

text \<open>\<open>str.lower\<close> on Latin-1: the upper-case letters move up by 32.\<close>

definition py_lower_char :: "char \<Rightarrow> char" where
  "py_lower_char c = (let n = (of_char c :: nat) in
     if (65 \<le> n \<and> n \<le> 90) \<or> (192 \<le> n \<and> n \<le> 222 \<and> n \<noteq> 215) then char_of (n + 32) else c)"

definition py_lower :: "string \<Rightarrow> string" where
  "py_lower s = map py_lower_char s"

subsection \<open>String operations\<close>

text \<open>\<open>s.startswith(p)\<close>.\<close>

fun startswith :: "string \<Rightarrow> string \<Rightarrow> bool" where
  "startswith s [] = True"
| "startswith [] (c # cs) = False"
| "startswith (d # ds) (c # cs) = (d = c \<and> startswith ds cs)"

text \<open>\<open>s.startswith(tuple)\<close>: true when one of the prefixes matches.\<close>

definition startswith_any :: "string \<Rightarrow> string list \<Rightarrow> bool" where
  "startswith_any s ps = list_ex (startswith s) ps"

text \<open>\<open>needle in s\<close> for strings: \<open>needle\<close> occurs at some position.\<close>

fun str_contains :: "string \<Rightarrow> string \<Rightarrow> bool" where
  "str_contains [] needle = (needle = [])"
| "str_contains (c # cs) needle = (startswith (c # cs) needle \<or> str_contains cs needle)"

text \<open>\<open>s.strip()\<close>, \<open>s.lstrip()\<close> and \<open>s.strip(chars)\<close>.\<close>

definition py_strip_by :: "(char \<Rightarrow> bool) \<Rightarrow> string \<Rightarrow> string" where
  "py_strip_by P s = rev (dropWhile P (rev (dropWhile P s)))"

definition py_strip :: "string \<Rightarrow> string" where
  "py_strip s = py_strip_by py_isspace s"

definition py_strip_chars :: "string \<Rightarrow> string \<Rightarrow> string" where
  "py_strip_chars cs s = py_strip_by (\<lambda>c. c \<in> set cs) s"

text \<open>
  \<open>s.replace(old, new)\<close>: every non-overlapping occurrence of \<open>old\<close>, scanning
  from the left, is replaced. For an empty \<open>old\<close> Python inserts \<open>new\<close> before
  every character and at the end.
\<close>

function replace_nonempty :: "string \<Rightarrow> string \<Rightarrow> string \<Rightarrow> string" where
  "replace_nonempty old new [] = []"
| "replace_nonempty old new (c # cs) =
     (if old \<noteq> [] \<and> startswith (c # cs) old
      then new @ replace_nonempty old new (drop (length old) (c # cs))
      else c # replace_nonempty old new cs)"
  by pat_completeness auto
termination
  by (relation "measure (\<lambda>(old, new, s). length s)") auto

definition py_replace :: "string \<Rightarrow> string \<Rightarrow> string \<Rightarrow> string" where
  "py_replace s old new =
     (if old = [] then new @ concat (map (\<lambda>c. c # new) s) else replace_nonempty old new s)"

text \<open>\<open>s.split(sep)\<close> for a one-character separator, and \<open>sep.join(ws)\<close>.\<close>

fun split_on :: "char \<Rightarrow> string \<Rightarrow> string list" where
  "split_on sep [] = [[]]"
| "split_on sep (c # cs) =
     (if c = sep then [] # split_on sep cs
      else (case split_on sep cs of w # ws \<Rightarrow> (c # w) # ws | [] \<Rightarrow> [[c]]))"

fun join :: "string \<Rightarrow> string list \<Rightarrow> string" where
  "join sep [] = []"
| "join sep [w] = w"
| "join sep (w # ws) = w @ sep @ join sep ws"

subsection \<open>Python lists and dicts\<close>

text \<open>\<open>xs[i]\<close> with Python's negative indices; out of range it raises \<open>IndexError\<close>.\<close>

definition py_index :: "'a list \<Rightarrow> int \<Rightarrow> 'a option" where
  "py_index xs i =
     (let n = int (length xs); j = (if i < 0 then n + i else i)
      in if 0 \<le> j \<and> j < n then Some (xs ! nat j) else None)"

text \<open>
  A Python \<open>dict\<close> keeps its keys in insertion order; \<open>d[k] = v\<close> overwrites an
  existing key in place and appends a new one, which is \<open>AList.update\<close>.
\<close>

definition dict_set :: "('k, 'v) pydict \<Rightarrow> 'k \<Rightarrow> 'v \<Rightarrow> ('k, 'v) pydict" where
  "dict_set d k v = AList.update k v d"

text \<open>The distinct elements of a list in order of first occurrence (the key order of a
  dict filled from the list).\<close>

definition first_occ :: "'a list \<Rightarrow> 'a list" where
  "first_occ xs = rev (remdups (rev xs))"

declare py_isspace_def [py_defs] py_isword_def [py_defs] py_lower_char_def [py_defs]
  py_strip_def [py_defs] py_strip_chars_def [py_defs] py_strip_by_def [py_defs]
  startswith_any_def [py_defs] py_replace_def [py_defs] py_index_def [py_defs]
  dict_set_def [py_defs] py_lower_def [py_defs]

subsection \<open>Shared lemmas\<close>

lemma startswith_prefix [simp]: "startswith s p \<longleftrightarrow> prefix p s"
  by (induction s p rule: startswith.induct) auto

lemma str_contains_sublist: "str_contains s n \<longleftrightarrow> sublist n s"
  by (induction s) (auto simp: sublist_Cons_right)

lemma dict_set_keys [simp]: "map fst (dict_set d k v) = (if k \<in> set (map fst d) then map fst d else map fst d @ [k])"
  by (induction d) (auto simp: dict_set_def)

lemma distinct_dict_set [wf_preserve]: "distinct (map fst d) \<Longrightarrow> distinct (map fst (dict_set d k v))"
  by (simp add: dict_set_def distinct_update)

lemma dict_set_fresh: "k \<notin> set (map fst d) \<Longrightarrow> dict_set d k v = d @ [(k, v)]"
  by (induction d) (auto simp: dict_set_def)

lemma set_dict_set_subset: "set (dict_set d k v) \<subseteq> insert (k, v) (set d)"
  by (induction d) (auto simp: dict_set_def)

lemma map_of_dict_set [simp]: "map_of (dict_set d k v) = (map_of d)(k \<mapsto> v)"
  by (simp add: dict_set_def update_conv')

lemma replace_nonempty_absent: "\<not> sublist old s \<Longrightarrow> replace_nonempty old new s = s"
proof (induction old new s rule: replace_nonempty.induct)
  case (2 old new c cs)
  then show ?case
    by (auto simp: sublist_Cons_right)
qed simp

lemma py_replace_absent: "old \<noteq> [] \<Longrightarrow> \<not> sublist old s \<Longrightarrow> py_replace s old new = s"
  by (simp add: py_replace_def replace_nonempty_absent)

lemma replace_char_filter: "replace_nonempty [c] [] s = filter (\<lambda>x. x \<noteq> c) s"
  by (induction s) auto

lemma replace_nonempty_prefix: "old \<noteq> [] \<Longrightarrow> replace_nonempty old new (old @ s) = new @ replace_nonempty old new s"
  by (cases old) auto

lemma no_char_no_sublist: "c \<notin> set s \<Longrightarrow> c \<in> set p \<Longrightarrow> \<not> sublist p s"
  by (auto dest: set_mono_sublist)

lemma sublist_absent: "sublist a p \<Longrightarrow> \<not> sublist a q \<Longrightarrow> \<not> sublist p q"
  by (meson sublist_order.order.trans)

lemma replace_absent_pattern:
  "sublist a p \<Longrightarrow> a \<noteq> [] \<Longrightarrow> \<not> sublist a q \<Longrightarrow> py_replace q p r = q"
  by (rule py_replace_absent) (auto dest: sublist_absent)

lemma split_on_append: "sep \<notin> set xs \<Longrightarrow> split_on sep (xs @ sep # ys) = xs # split_on sep ys"
  by (induction xs) auto

lemma str_contains_char: "str_contains s [c] \<longleftrightarrow> c \<in> set s"
  by (induction s) auto

lemma first_occ_snoc: "first_occ (xs @ [x]) = (if x \<in> set xs then first_occ xs else first_occ xs @ [x])"
  by (simp add: first_occ_def)

lemma set_first_occ [simp]: "set (first_occ xs) = set xs"
  by (simp add: first_occ_def)

lemma distinct_first_occ [simp]: "distinct (first_occ xs)"
  by (simp add: first_occ_def)

lemma remdups_snoc_filter: "remdups (ys @ [x]) = remdups (filter (\<lambda>y. y \<noteq> x) ys) @ [x]"
  by (induction ys) auto

lemma first_occ_Cons: "first_occ (x # xs) = x # filter (\<lambda>y. y \<noteq> x) (first_occ xs)"
proof -
  have "remdups (rev xs @ [x]) = remdups (filter (\<lambda>y. y \<noteq> x) (rev xs)) @ [x]"
    by (rule remdups_snoc_filter)
  then show ?thesis
    by (simp add: first_occ_def rev_filter remdups_filter)
qed

lemma first_occ_append:
  "first_occ (xs @ ys) = first_occ xs @ filter (\<lambda>y. y \<notin> set xs) (first_occ ys)"
proof (induction xs)
  case Nil
  then show ?case by (simp add: first_occ_def)
next
  case (Cons x xs)
  then show ?case by (simp add: first_occ_Cons conj_commute)
qed

lemma first_occ_distinct: "distinct xs \<Longrightarrow> first_occ xs = xs"
  by (simp add: first_occ_def distinct_remdups_id)

lemma first_occ_step:
  "distinct xs \<Longrightarrow> first_occ (xs @ y # ys) = first_occ ((if y \<in> set xs then xs else xs @ [y]) @ ys)"
  by (auto simp: first_occ_append first_occ_Cons first_occ_distinct intro!: filter_cong)

lemma first_occ_first_occ_left: "first_occ (first_occ xs @ ys) = first_occ (xs @ ys)"
  by (simp add: first_occ_append first_occ_distinct)

lemma first_occ_first_occ_right: "first_occ (xs @ first_occ ys) = first_occ (xs @ ys)"
  by (simp add: first_occ_append first_occ_distinct)

lemma update_map_pairs:
  "k \<in> set ks \<Longrightarrow> distinct ks \<Longrightarrow>
   AList.update k v (map (\<lambda>u. (u, f u)) ks) = map (\<lambda>u. (u, if u = k then v else f u)) ks"
  by (induction ks) auto

lemma map_of_map_pairs: "map_of (map (\<lambda>u. (u, f u)) ks) k = (if k \<in> set ks then Some (f k) else None)"
  by (induction ks) auto

text \<open>A left fold that replaces the current element by a strictly better one finds a first
  best element: the shape of Python's \<open>min\<close> and \<open>max\<close>.\<close>

lemma fold_argmin_mem: "fold (\<lambda>x m. if f x < f m then x else m) ys m0 \<in> insert m0 (set ys)"
  by (induction ys arbitrary: m0) auto

lemma fold_argmin_le:
  fixes f :: "'a \<Rightarrow> 'b::linorder"
  shows "y \<in> insert m0 (set ys) \<Longrightarrow> f (fold (\<lambda>x m. if f x < f m then x else m) ys m0) \<le> f y"
proof (induction ys arbitrary: m0 y)
  case Nil
  then show ?case by simp
next
  case (Cons x ys)
  let ?F = "\<lambda>x m. if f x < f m then x else m"
  let ?m = "?F x m0"
  have r: "fold ?F (x # ys) m0 = fold ?F ys ?m" by simp
  have top: "f (fold ?F ys ?m) \<le> f ?m" by (rule Cons.IH) simp
  show ?case
  proof (cases "y \<in> set ys")
    case True
    then show ?thesis unfolding r by (intro Cons.IH) simp
  next
    case False
    with Cons.prems have "y = m0 \<or> y = x" by simp
    moreover have "f ?m \<le> f x" "f ?m \<le> f m0" by auto
    ultimately have "f ?m \<le> f y" by blast
    with top show ?thesis unfolding r by (rule order_trans)
  qed
qed

lemma fold_argmax_mem: "fold (\<lambda>x m. if f m < f x then x else m) ys m0 \<in> insert m0 (set ys)"
  by (induction ys arbitrary: m0) auto

lemma fold_argmax_ge:
  fixes f :: "'a \<Rightarrow> 'b::linorder"
  shows "y \<in> insert m0 (set ys) \<Longrightarrow> f y \<le> f (fold (\<lambda>x m. if f m < f x then x else m) ys m0)"
proof (induction ys arbitrary: m0 y)
  case Nil
  then show ?case by simp
next
  case (Cons x ys)
  let ?F = "\<lambda>x m. if f m < f x then x else m"
  let ?m = "?F x m0"
  have r: "fold ?F (x # ys) m0 = fold ?F ys ?m" by simp
  have top: "f ?m \<le> f (fold ?F ys ?m)" by (rule Cons.IH) simp
  show ?case
  proof (cases "y \<in> set ys")
    case True
    then show ?thesis unfolding r by (intro Cons.IH) simp
  next
    case False
    with Cons.prems have "y = m0 \<or> y = x" by simp
    moreover have "f x \<le> f ?m" "f m0 \<le> f ?m" by auto
    ultimately have "f y \<le> f ?m" by blast
    then show ?thesis unfolding r using top by (rule order_trans)
  qed
qed

lemma length_mul_le_sum:
  fixes f :: "'a \<Rightarrow> real"
  shows "(\<forall>x \<in> set xs. m \<le> f x) \<Longrightarrow> real (length xs) * m \<le> sum_list (map f xs)"
  by (induction xs) (auto simp: algebra_simps)

lemma sum_le_length_mul:
  fixes f :: "'a \<Rightarrow> real"
  shows "(\<forall>x \<in> set xs. f x \<le> m) \<Longrightarrow> sum_list (map f xs) \<le> real (length xs) * m"
  by (induction xs) (auto simp: algebra_simps)

end
