(* ===== verification/Json.thy ===== *)
theory Json
  imports Prelude
begin

text \<open>
  The value model. \<open>json.loads\<close> turns a document into Python values: \<open>dict\<close>
  (insertion-ordered, string keys), \<open>list\<close>, \<open>str\<close>, \<open>int\<close>, \<open>float\<close>,
  \<open>bool\<close> and \<open>None\<close>. Every function of src/gui.py that walks a document
  (\<open>JsonSchemaAnalyzer\<close>, \<open>filter_json_by_visibility\<close>) inspects these
  Python types with \<open>isinstance\<close> and \<open>type(v).__name__\<close>, so the datatype
  keeps \<open>int\<close> and \<open>float\<close> apart, and \<open>isinstance\<close> follows Python's
  subclassing of \<open>int\<close> by \<open>bool\<close>. A float is represented by its exact real
  value (a finite double is a dyadic rational); NaN and the infinities, which
  \<open>json.loads\<close> also accepts, are not modelled.

  \<open>json.loads\<close> keeps one entry per key, so the objects it returns have distinct
  keys: that is the invariant \<open>wf_json\<close>.
\<close>

datatype json =
    JNull
  | JBool bool
  | JInt int
  | JFloat real
  | JStr string
  | JArr "json list"
  | JObj "(string \<times> json) list"

text \<open>The Python classes of the values, as \<open>type(v)\<close> returns them.\<close>

datatype pytype = PyDict | PyList | PyStr | PyInt | PyFloat | PyBool | PyNone

fun py_type_of :: "json \<Rightarrow> pytype" where
  "py_type_of JNull = PyNone"
| "py_type_of (JBool _) = PyBool"
| "py_type_of (JInt _) = PyInt"
| "py_type_of (JFloat _) = PyFloat"
| "py_type_of (JStr _) = PyStr"
| "py_type_of (JArr _) = PyList"
| "py_type_of (JObj _) = PyDict"

text \<open>\<open>type(v).__name__\<close>.\<close>

fun type_name :: "pytype \<Rightarrow> string" where
  "type_name PyDict = ''dict''"
| "type_name PyList = ''list''"
| "type_name PyStr = ''str''"
| "type_name PyInt = ''int''"
| "type_name PyFloat = ''float''"
| "type_name PyBool = ''bool''"
| "type_name PyNone = ''NoneType''"

text \<open>\<open>isinstance(v, t)\<close>: \<open>bool\<close> is a subclass of \<open>int\<close>.\<close>

fun isinstance :: "json \<Rightarrow> pytype \<Rightarrow> bool" where
  "isinstance (JBool _) PyInt = True"
| "isinstance v t = (py_type_of v = t)"

text \<open>\<open>isinstance(v, (int, float))\<close>: the numbers, booleans included.\<close>

definition is_number :: "json \<Rightarrow> bool" where
  "is_number v = (isinstance v PyInt \<or> isinstance v PyFloat)"

text \<open>The numeric value Python computes with (\<open>True\<close> is 1).\<close>

fun num_val :: "json \<Rightarrow> real" where
  "num_val (JInt i) = of_int i"
| "num_val (JFloat r) = r"
| "num_val (JBool b) = (if b then 1 else 0)"
| "num_val _ = 0"

text \<open>Python truthiness (\<open>if v:\<close>): empty containers, zero, \<open>False\<close> and \<open>None\<close> are false.\<close>

fun truthy :: "json \<Rightarrow> bool" where
  "truthy JNull = False"
| "truthy (JBool b) = b"
| "truthy (JInt i) = (i \<noteq> 0)"
| "truthy (JFloat r) = (r \<noteq> 0)"
| "truthy (JStr s) = (s \<noteq> [])"
| "truthy (JArr vs) = (vs \<noteq> [])"
| "truthy (JObj kvs) = (kvs \<noteq> [])"

text \<open>The invariant of parsed documents: every object has distinct keys.\<close>

fun wf_json :: "json \<Rightarrow> bool" where
  "wf_json (JObj kvs) = (distinct (map fst kvs) \<and> list_all (\<lambda>kv. wf_json (snd kv)) kvs)"
| "wf_json (JArr vs) = list_all wf_json vs"
| "wf_json _ = True"

text \<open>
  The key paths of a value below the path \<open>p\<close>, in the sense the visibility
  filter uses them: an object key extends the path, an array does not (its
  elements share the array's path).
\<close>

fun key_paths :: "string list \<Rightarrow> json \<Rightarrow> string list list" where
  "key_paths p (JObj kvs) = concat (map (\<lambda>(k, v). (p @ [k]) # key_paths (p @ [k]) v) kvs)"
| "key_paths p (JArr vs) = concat (map (key_paths p) vs)"
| "key_paths p _ = []"

text \<open>
  The schema of src/gui.py is built from Python dictionaries whose values are
  strings, numbers, booleans, lists, tuples and the document's own values: the
  datatype \<open>pyval\<close> holds them, and \<open>py_of_json\<close> embeds a document value.
\<close>

datatype pyval =
    PNone
  | PBool bool
  | PInt int
  | PFloat real
  | PStr string
  | PList "pyval list"
  | PTuple "pyval list"
  | PDict "(string \<times> pyval) list"

fun py_of_json :: "json \<Rightarrow> pyval" where
  "py_of_json JNull = PNone"
| "py_of_json (JBool b) = PBool b"
| "py_of_json (JInt i) = PInt i"
| "py_of_json (JFloat r) = PFloat r"
| "py_of_json (JStr s) = PStr s"
| "py_of_json (JArr vs) = PList (map py_of_json vs)"
| "py_of_json (JObj kvs) = PDict (map (\<lambda>(k, v). (k, py_of_json v)) kvs)"

subsection \<open>Lemmas\<close>

lemma isinstance_int_iff: "isinstance v PyInt \<longleftrightarrow> (\<exists>i. v = JInt i) \<or> (\<exists>b. v = JBool b)"
  by (cases v) auto

lemma isinstance_self [simp]: "isinstance v (py_type_of v)"
  by (cases v) auto

lemma is_number_iff: "is_number v \<longleftrightarrow> (\<exists>i. v = JInt i) \<or> (\<exists>b. v = JBool b) \<or> (\<exists>r. v = JFloat r)"
  by (cases v) (auto simp: is_number_def)

lemma key_paths_prefix: "q \<in> set (key_paths p v) \<Longrightarrow> \<exists>r. r \<noteq> [] \<and> q = p @ r"
proof (induction p v rule: key_paths.induct)
  case (1 p kvs)
  then show ?case by fastforce
qed auto

lemma key_paths_JObj_set:
  "set (key_paths p (JObj kvs)) = (\<Union>kv \<in> set kvs. insert (p @ [fst kv]) (set (key_paths (p @ [fst kv]) (snd kv))))"
  by (auto split: prod.splits)

lemma key_paths_JObj_mono:
  "set kvs \<subseteq> set kvs' \<Longrightarrow> set (key_paths p (JObj kvs)) \<subseteq> set (key_paths p (JObj kvs'))"
  unfolding key_paths_JObj_set by blast

declare key_paths.simps(1) [simp del] key_paths_JObj_set [simp]

lemma key_paths_JObj_entry:
  "(k, v) \<in> set kvs \<Longrightarrow> insert (p @ [k]) (set (key_paths (p @ [k]) v)) \<subseteq> set (key_paths p (JObj kvs))"
  unfolding key_paths_JObj_set
  by (drule UN_upper[where B = "\<lambda>kv. insert (p @ [fst kv]) (set (key_paths (p @ [fst kv]) (snd kv)))"]) simp

lemma wf_json_JObj_lookup:
  "wf_json (JObj kvs) \<Longrightarrow> (k, v) \<in> set kvs \<Longrightarrow> map_of kvs k = Some v"
  by simp

end
