(* ===== verification/Visibility.thy ===== *)
theory Visibility
  imports Json
begin

text \<open>
  The visibility filter of src/gui.py: \<open>JsonViewerWindow.filter_json_by_visibility\<close>
  and its inner \<open>_filter_recursive\<close> (lines 1124--1153). A hidden path is a tuple of
  object keys; an object entry whose accumulated path is hidden is dropped with its
  whole subtree, the other entries are rebuilt with \<open>result[key] = ...\<close>
  (\<open>dict_set\<close>), and the elements of an array are filtered with the array's own
  path. The lemmas characterise the key paths that survive (exactly those with no
  hidden prefix), show that the filter keeps documents well-formed, is a no-op when
  nothing hidden occurs, is idempotent, and that filtering twice is filtering with
  the union of the two hidden sets; \<open>prunes\<close> is the sub-tree relation
  ("obtained by deleting object entries") the result stands in to its input.
\<close>

subsection \<open>Definitions\<close>

text \<open>\<open>_filter_recursive(data, current_path)\<close>; \<open>filter_items\<close> is its loop over \<open>data.items()\<close>.\<close>

fun filter_recursive :: "string list set \<Rightarrow> string list \<Rightarrow> json \<Rightarrow> json"
and filter_items :: "string list set \<Rightarrow> string list \<Rightarrow> (string \<times> json) list \<Rightarrow>
    (string, json) pydict \<Rightarrow> (string, json) pydict" where
  "filter_recursive H p (JObj kvs) = JObj (filter_items H p kvs [])"
| "filter_recursive H p (JArr vs) = JArr (map (filter_recursive H p) vs)"
| "filter_recursive H p v = v"
| "filter_items H p [] acc = acc"
| "filter_items H p ((k, v) # kvs) acc =
     (if p @ [k] \<in> H then filter_items H p kvs acc
      else filter_items H p kvs (dict_set acc k (filter_recursive H (p @ [k]) v)))"

text \<open>\<open>filter_json_by_visibility\<close>: no filtering at all when nothing is hidden.\<close>

definition filter_json_by_visibility :: "string list set \<Rightarrow> json \<Rightarrow> json" where
  "filter_json_by_visibility H v = (if H = {} then v else filter_recursive H [] v)"

text \<open>Some strict extension of \<open>p\<close> that is a prefix of \<open>q\<close> is hidden.\<close>

definition hidden_below :: "string list set \<Rightarrow> string list \<Rightarrow> string list \<Rightarrow> bool" where
  "hidden_below H p q = (\<exists>r \<in> H. prefix p r \<and> r \<noteq> p \<and> prefix r q)"

text \<open>The test of the loop: the entry's path is not hidden.\<close>

definition keep_entry :: "string list set \<Rightarrow> string list \<Rightarrow> string \<times> json \<Rightarrow> bool" where
  "keep_entry H p kv = (p @ [fst kv] \<notin> H)"

text \<open>
  \<open>prunes w v\<close>: \<open>w\<close> is \<open>v\<close> with some object entries deleted, at any depth;
  arrays keep their length.
\<close>

inductive prunes :: "json \<Rightarrow> json \<Rightarrow> bool"
  and prunes_items :: "(string \<times> json) list \<Rightarrow> (string \<times> json) list \<Rightarrow> bool" where
  prunes_null: "prunes JNull JNull"
| prunes_bool: "prunes (JBool b) (JBool b)"
| prunes_int: "prunes (JInt i) (JInt i)"
| prunes_float: "prunes (JFloat r) (JFloat r)"
| prunes_str: "prunes (JStr s) (JStr s)"
| prunes_arr: "list_all2 prunes ws vs \<Longrightarrow> prunes (JArr ws) (JArr vs)"
| prunes_obj: "prunes_items ws vs \<Longrightarrow> prunes (JObj ws) (JObj vs)"
| items_nil: "prunes_items [] []"
| items_drop: "prunes_items ws vs \<Longrightarrow> prunes_items ws (kv # vs)"
| items_keep: "prunes w v \<Longrightarrow> prunes_items ws vs \<Longrightarrow> prunes_items ((k, w) # ws) ((k, v) # vs)"

code_pred prunes .

subsection \<open>Lemmas\<close>

lemma filter_items_closed:
  "distinct (map fst kvs) \<Longrightarrow> set (map fst kvs) \<inter> set (map fst acc) = {} \<Longrightarrow>
   filter_items H p kvs acc =
     acc @ map (\<lambda>(k, v). (k, filter_recursive H (p @ [k]) v)) (filter (keep_entry H p) kvs)"
proof (induction kvs arbitrary: acc)
  case Nil
  then show ?case by simp
next
  case (Cons kv kvs)
  obtain k v where kv: "kv = (k, v)" by fastforce
  with Cons.prems have fresh: "k \<notin> set (map fst acc)" by auto
  show ?case
    using Cons.prems Cons.IH fresh
    by (auto simp: kv keep_entry_def dict_set_fresh)
qed

lemma filter_recursive_JObj:
  "distinct (map fst kvs) \<Longrightarrow> filter_recursive H p (JObj kvs) =
     JObj (map (\<lambda>(k, v). (k, filter_recursive H (p @ [k]) v)) (filter (keep_entry H p) kvs))"
  by (simp add: filter_items_closed)

lemma list_all_dict_set:
  "list_all (\<lambda>kv. P (snd kv)) d \<Longrightarrow> P v \<Longrightarrow> list_all (\<lambda>kv. P (snd kv)) (dict_set d k v)"
  using set_dict_set_subset[of d k v] by (auto simp: list_all_iff)

lemma wf_filter_recursive [wf_preserve]:
  "wf_json (filter_recursive H p v)"
  "distinct (map fst acc) \<Longrightarrow> list_all (\<lambda>kv. wf_json (snd kv)) acc \<Longrightarrow>
     distinct (map fst (filter_items H p kvs acc)) \<and>
     list_all (\<lambda>kv. wf_json (snd kv)) (filter_items H p kvs acc)"
proof (induction H p v and H p kvs acc rule: filter_recursive_filter_items.induct)
  case (5 H p k v kvs acc)
  show ?case
  proof (cases "p @ [k] \<in> H")
    case True
    with "5.IH"(1) "5.prems" show ?thesis by simp
  next
    case False
    let ?acc = "dict_set acc k (filter_recursive H (p @ [k]) v)"
    have "distinct (map fst ?acc)" using "5.prems"(1) by (rule distinct_dict_set)
    moreover have "list_all (\<lambda>kv. wf_json (snd kv)) ?acc"
      using "5.prems"(2) "5.IH"(2)[OF False] by (rule list_all_dict_set)
    ultimately show ?thesis using "5.IH"(3)[OF False] False by simp
  qed
qed (simp_all add: list_all_iff)

lemma filter_recursive_hides:
  "set (key_paths p (filter_recursive H p v)) \<inter> H = {}"
  "set (key_paths p (JObj acc)) \<inter> H = {} \<Longrightarrow>
     set (key_paths p (JObj (filter_items H p kvs acc))) \<inter> H = {}"
proof (induction H p v and H p kvs acc rule: filter_recursive_filter_items.induct)
  case (5 H p k v kvs acc)
  show ?case
  proof (cases "p @ [k] \<in> H")
    case True
    with "5.IH"(1) "5.prems" show ?thesis by simp
  next
    case False
    let ?w = "filter_recursive H (p @ [k]) v"
    have "set (key_paths p (JObj (dict_set acc k ?w))) \<subseteq> set (key_paths p (JObj ((k, ?w) # acc)))"
      using set_dict_set_subset[of acc k ?w] by (intro key_paths_JObj_mono) auto
    moreover have "set (key_paths p (JObj ((k, ?w) # acc))) \<inter> H = {}"
      using "5.prems" "5.IH"(2)[OF False] False by auto
    ultimately have "set (key_paths p (JObj (dict_set acc k ?w))) \<inter> H = {}" by blast
    with "5.IH"(3)[OF False] False show ?thesis by simp
  qed
qed auto

lemma filter_recursive_noop:
  "wf_json v \<Longrightarrow> set (key_paths p v) \<inter> H = {} \<Longrightarrow> filter_recursive H p v = v"
proof (induction v arbitrary: p)
  case (JArr vs)
  have "filter_recursive H p w = w" if w: "w \<in> set vs" for w
  proof (rule JArr.IH[OF w])
    show "wf_json w" using JArr.prems(1) w by (simp add: list_all_iff)
    show "set (key_paths p w) \<inter> H = {}" using JArr.prems(2) w by auto
  qed
  then show ?case by (simp add: map_idI)
next
  case (JObj kvs)
  have keep: "filter (keep_entry H p) kvs = kvs"
    using JObj.prems(2) key_paths_JObj_entry[of _ _ kvs p] by (fastforce simp: keep_entry_def filter_id_conv)
  have "map (\<lambda>(k, v). (k, filter_recursive H (p @ [k]) v)) kvs = kvs"
  proof (rule map_idI)
    fix kv0 assume kv0: "kv0 \<in> set kvs"
    obtain k v where kv0_eq: "kv0 = (k, v)" by fastforce
    with kv0 have kv: "(k, v) \<in> set kvs" by simp
    have "wf_json v" using JObj.prems(1) kv by (auto simp: list_all_iff)
    moreover have "set (key_paths (p @ [k]) v) \<inter> H = {}"
      using JObj.prems(2) key_paths_JObj_entry[OF kv, of p] by blast
    ultimately have "filter_recursive H (p @ [k]) v = v"
      using JObj.IH[OF kv] by simp
    then show "(case kv0 of (k, v) \<Rightarrow> (k, filter_recursive H (p @ [k]) v)) = kv0"
      by (simp add: kv0_eq)
  qed
  moreover have "distinct (map fst kvs)" using JObj.prems(1) by simp
  ultimately show ?case using keep by (simp add: filter_recursive_JObj del: filter_recursive.simps)
qed auto

lemma hidden_below_step: "hidden_below H p (p @ [k]) \<longleftrightarrow> p @ [k] \<in> H"
proof
  assume "hidden_below H p (p @ [k])"
  then obtain r' where r': "r' \<in> H" "prefix p r'" "r' \<noteq> p" "prefix r' (p @ [k])"
    unfolding hidden_below_def by blast
  from r'(4) have "r' = p @ [k] \<or> prefix r' p" by simp
  with r'(1-3) show "p @ [k] \<in> H" by (auto dest: prefix_order.antisym)
next
  assume "p @ [k] \<in> H"
  then show "hidden_below H p (p @ [k])"
    unfolding hidden_below_def by (intro bexI[where x = "p @ [k]"]) auto
qed

lemma hidden_below_ext:
  "hidden_below H p (p @ k # r) \<longleftrightarrow> p @ [k] \<in> H \<or> hidden_below H (p @ [k]) (p @ k # r)"
proof
  assume "hidden_below H p (p @ k # r)"
  then obtain r' where r': "r' \<in> H" "prefix p r'" "r' \<noteq> p" "prefix r' (p @ k # r)"
    unfolding hidden_below_def by blast
  then obtain s where s: "r' = p @ s" "s \<noteq> []" by (auto simp: prefix_def)
  with r'(4) obtain s' where s': "s = k # s'" "prefix s' r"
    by (cases s) auto
  show "p @ [k] \<in> H \<or> hidden_below H (p @ [k]) (p @ k # r)"
  proof (cases "s' = []")
    case True
    with r'(1) s s' show ?thesis by simp
  next
    case False
    with r' s s' have "hidden_below H (p @ [k]) (p @ k # r)"
      unfolding hidden_below_def by (intro bexI[where x = r']) auto
    then show ?thesis ..
  qed
next
  have pk: "prefix p (p @ [k])" "prefix (p @ [k]) (p @ k # r)" by simp_all
  assume "p @ [k] \<in> H \<or> hidden_below H (p @ [k]) (p @ k # r)"
  then show "hidden_below H p (p @ k # r)"
  proof
    assume "p @ [k] \<in> H"
    with pk show ?thesis unfolding hidden_below_def by (intro bexI[where x = "p @ [k]"]) auto
  next
    assume "hidden_below H (p @ [k]) (p @ k # r)"
    then obtain r' where "r' \<in> H" "prefix (p @ [k]) r'" "prefix r' (p @ k # r)"
      unfolding hidden_below_def by blast
    moreover from this(2) have "prefix p r'" "r' \<noteq> p"
      using pk(1) prefix_order.trans by (auto simp: prefix_def)
    ultimately show ?thesis unfolding hidden_below_def by blast
  qed
qed

lemma key_paths_filter_recursive:
  "wf_json v \<Longrightarrow>
   set (key_paths p (filter_recursive H p v)) = {q \<in> set (key_paths p v). \<not> hidden_below H p q}"
proof (induction v arbitrary: p)
  case (JArr vs)
  have "set (key_paths p (filter_recursive H p w)) = {q \<in> set (key_paths p w). \<not> hidden_below H p q}"
    if w: "w \<in> set vs" for w
    using JArr.IH[OF w] JArr.prems w by (simp add: list_all_iff)
  then show ?case by auto
next
  case (JObj kvs)
  let ?E = "\<lambda>kv. insert (p @ [fst kv]) (set (key_paths (p @ [fst kv]) (snd kv)))"
  let ?g = "\<lambda>(k, v). (k, filter_recursive H (p @ [k]) v)"
  have kept: "?E (?g kv) = {q \<in> ?E kv. \<not> hidden_below H p q}"
    if kv: "kv \<in> set kvs" and keep: "keep_entry H p kv" for kv
  proof -
    obtain k v where kv_eq: "kv = (k, v)" by fastforce
    have wf: "wf_json v" using JObj.prems kv kv_eq by (auto simp: list_all_iff)
    have notin: "p @ [k] \<notin> H" using keep kv_eq by (simp add: keep_entry_def)
    have IH: "set (key_paths (p @ [k]) (filter_recursive H (p @ [k]) v)) =
        {q \<in> set (key_paths (p @ [k]) v). \<not> hidden_below H (p @ [k]) q}"
      using JObj.IH[of kv v "p @ [k]"] kv kv_eq wf by simp
    have same: "hidden_below H p q \<longleftrightarrow> hidden_below H (p @ [k]) q"
      if q: "q \<in> set (key_paths (p @ [k]) v)" for q
    proof -
      obtain r where "q = p @ k # r" using key_paths_prefix[OF q] by auto
      with notin show ?thesis using hidden_below_ext[of H p k r] by simp
    qed
    show ?thesis using IH same notin by (auto simp: kv_eq hidden_below_step)
  qed
  have dropped: "{q \<in> ?E kv. \<not> hidden_below H p q} = {}"
    if "\<not> keep_entry H p kv" for kv
  proof -
    obtain k v where kv_eq: "kv = (k, v)" by fastforce
    have inH: "p @ [k] \<in> H" using that kv_eq by (simp add: keep_entry_def)
    have "hidden_below H p q" if q: "q \<in> set (key_paths (p @ [k]) v)" for q
    proof -
      obtain r where "q = p @ k # r" using key_paths_prefix[OF q] by auto
      with inH show ?thesis using hidden_below_ext[of H p k r] by simp
    qed
    with inH show ?thesis by (auto simp: kv_eq hidden_below_step)
  qed
  have d: "distinct (map fst kvs)" using JObj.prems by simp
  have "set (key_paths p (filter_recursive H p (JObj kvs))) =
      (\<Union>kv \<in> set (filter (keep_entry H p) kvs). ?E (?g kv))"
    by (simp add: filter_recursive_JObj[OF d] image_image split_def del: filter_recursive.simps)
  also have "\<dots> = (\<Union>kv \<in> set (filter (keep_entry H p) kvs). {q \<in> ?E kv. \<not> hidden_below H p q})"
    using kept by (intro SUP_cong) auto
  also have "\<dots> = (\<Union>kv \<in> set kvs. {q \<in> ?E kv. \<not> hidden_below H p q})"
    using dropped by auto
  also have "\<dots> = {q \<in> set (key_paths p (JObj kvs)). \<not> hidden_below H p q}"
    by auto
  finally show ?case .
qed auto

lemma keep_entry_Un: "keep_entry (H1 \<union> H2) p = (\<lambda>kv. keep_entry H1 p kv \<and> keep_entry H2 p kv)"
  by (simp add: keep_entry_def fun_eq_iff)

lemma filter_recursive_compose:
  "wf_json v \<Longrightarrow> filter_recursive H2 p (filter_recursive H1 p v) = filter_recursive (H1 \<union> H2) p v"
proof (induction v arbitrary: p)
  case (JArr vs)
  then show ?case by (auto simp: list_all_iff)
next
  case (JObj kvs)
  let ?g = "\<lambda>H (k, v). (k, filter_recursive H (p @ [k]) v)"
  have d: "distinct (map fst kvs)" using JObj.prems by simp
  have fst_g: "fst \<circ> ?g H = fst" for H by (auto simp: split_def)
  have d1: "distinct (map fst (map (?g H1) (filter (keep_entry H1 p) kvs)))"
    using d by (simp add: fst_g distinct_map_filter)
  have keep_g: "keep_entry H2 p (?g H1 kv) = keep_entry H2 p kv" for kv
    by (simp add: keep_entry_def split_def)
  have elem: "?g H2 (?g H1 kv) = ?g (H1 \<union> H2) kv" if kv: "kv \<in> set kvs" for kv
  proof -
    obtain k v where kv_eq: "kv = (k, v)" by fastforce
    have "wf_json v" using JObj.prems kv kv_eq by (auto simp: list_all_iff)
    then show ?thesis using JObj.IH[of kv v "p @ [k]"] kv kv_eq by simp
  qed
  have "filter (keep_entry H2 p) (map (?g H1) (filter (keep_entry H1 p) kvs)) =
      map (?g H1) (filter (keep_entry (H1 \<union> H2) p) kvs)"
    by (simp add: filter_map comp_def keep_g keep_entry_Un)
  then have "filter_recursive H2 p (filter_recursive H1 p (JObj kvs)) =
      JObj (map (?g H2) (map (?g H1) (filter (keep_entry (H1 \<union> H2) p) kvs)))"
    by (simp add: filter_recursive_JObj[OF d] filter_recursive_JObj[OF d1] del: filter_recursive.simps)
  also have "\<dots> = JObj (map (?g (H1 \<union> H2)) (filter (keep_entry (H1 \<union> H2) p) kvs))"
    using elem by simp
  also have "\<dots> = filter_recursive (H1 \<union> H2) p (JObj kvs)"
    by (simp add: filter_recursive_JObj[OF d] del: filter_recursive.simps)
  finally show ?case .
qed auto

lemma prunes_items_filter_map:
  "(\<And>k v. (k, v) \<in> set kvs \<Longrightarrow> prunes (F k v) v) \<Longrightarrow>
   prunes_items (map (\<lambda>(k, v). (k, F k v)) (filter P kvs)) kvs"
proof (induction kvs)
  case Nil
  then show ?case by (simp add: items_nil)
next
  case (Cons kv kvs)
  obtain k v where kv: "kv = (k, v)" by fastforce
  have IH: "prunes_items (map (\<lambda>(k, v). (k, F k v)) (filter P kvs)) kvs"
    using Cons by simp
  show ?case
    using IH Cons.prems[of k v] by (auto simp: kv intro: items_drop items_keep)
qed

lemma prunes_filter_recursive: "wf_json v \<Longrightarrow> prunes (filter_recursive H p v) v"
proof (induction v arbitrary: p)
  case (JArr vs)
  then have "list_all2 prunes (map (filter_recursive H p) vs) vs"
    by (auto simp: list_all2_conv_all_nth list_all_iff)
  then show ?case by (simp add: prunes_arr)
next
  case (JObj kvs)
  have d: "distinct (map fst kvs)" using JObj.prems by simp
  have "prunes (filter_recursive H (p @ [k]) v) v" if kv: "(k, v) \<in> set kvs" for k v
    using JObj.IH[of "(k, v)" v "p @ [k]"] JObj.prems kv by (auto simp: list_all_iff)
  then have "prunes_items (map (\<lambda>(k, v). (k, filter_recursive H (p @ [k]) v)) (filter (keep_entry H p) kvs)) kvs"
    by (rule prunes_items_filter_map)
  then show ?case
    by (simp add: filter_recursive_JObj[OF d] prunes_obj del: filter_recursive.simps)
qed (auto intro: prunes_prunes_items.intros)

lemma prunes_items_refl: "(\<And>k v. (k, v) \<in> set kvs \<Longrightarrow> prunes v v) \<Longrightarrow> prunes_items kvs kvs"
proof (induction kvs)
  case Nil
  show ?case by (rule items_nil)
next
  case (Cons kv kvs)
  obtain k v where kv: "kv = (k, v)" by fastforce
  have "prunes v v" using Cons.prems[of k v] kv by simp
  moreover have "prunes_items kvs kvs"
  proof (rule Cons.IH)
    fix k' v' assume "(k', v') \<in> set kvs"
    then show "prunes v' v'" by (intro Cons.prems[of k' v']) simp
  qed
  ultimately show ?case by (simp add: kv items_keep)
qed

lemma prunes_refl: "prunes v v"
proof (induction v)
  case (JArr vs)
  then show ?case by (auto simp: list_all2_conv_all_nth intro!: prunes_arr)
next
  case (JObj kvs)
  have "prunes v v" if "(k, v) \<in> set kvs" for k v
    using JObj.IH[of "(k, v)" v] that by simp
  then have "prunes_items kvs kvs" by (rule prunes_items_refl)
  then show ?case by (rule prunes_obj)
qed (auto intro: prunes_prunes_items.intros)

subsection \<open>Properties of the filter\<close>

text \<open>
  Filtering is idempotent: filtering an already filtered document with the same
  hidden set changes nothing. No well-formedness is needed, because the filter's
  output always has distinct keys.
\<close>

theorem filter_json_by_visibility_idem:
  "filter_json_by_visibility H (filter_json_by_visibility H v) = filter_json_by_visibility H v"
proof (cases "H = {}")
  case True
  then show ?thesis by (simp add: filter_json_by_visibility_def)
next
  case False
  have "filter_recursive H [] (filter_recursive H [] v) = filter_recursive H [] v"
    by (rule filter_recursive_noop[OF wf_filter_recursive(1) filter_recursive_hides(1)])
  with False show ?thesis by (simp add: filter_json_by_visibility_def)
qed

text \<open>
  C1: The key paths that survive filtering are exactly the key paths of the document
  none of whose non-empty prefixes is hidden. In particular a hidden path is removed
  from every element of every array that shares it.
\<close>

theorem filter_json_by_visibility_paths:
  assumes "wf_json v"
  shows "set (key_paths [] (filter_json_by_visibility H v)) =
    {q \<in> set (key_paths [] v). \<not> hidden_below H [] q}"
proof (cases "H = {}")
  case True
  then show ?thesis by (simp add: filter_json_by_visibility_def hidden_below_def)
next
  case False
  with key_paths_filter_recursive[OF assms] show ?thesis
    by (simp add: filter_json_by_visibility_def)
qed

text \<open>
  C2: Filtering with \<open>H1\<close> and then with \<open>H2\<close> is filtering once with
  \<open>H1 \<union> H2\<close>.
\<close>

theorem filter_json_by_visibility_compose:
  assumes "wf_json v"
  shows "filter_json_by_visibility H2 (filter_json_by_visibility H1 v) =
    filter_json_by_visibility (H1 \<union> H2) v"
  using filter_recursive_compose[OF assms] wf_filter_recursive(1)
  by (auto simp: filter_json_by_visibility_def)

text \<open>
  C3: Monotonicity: with a larger hidden set the filtered document is a sub-tree of
  the one filtered with the smaller set (only object entries are deleted).
\<close>

theorem filter_json_by_visibility_mono:
  assumes "wf_json v" and "H1 \<subseteq> H2"
  shows "prunes (filter_json_by_visibility H2 v) (filter_json_by_visibility H1 v)"
proof -
  have wf1: "wf_json (filter_json_by_visibility H1 v)"
    using assms(1) wf_filter_recursive(1) by (simp add: filter_json_by_visibility_def)
  have "filter_json_by_visibility H2 v =
      filter_json_by_visibility H2 (filter_json_by_visibility H1 v)"
  proof (cases "H1 = {}")
    case True
    then show ?thesis by (simp add: filter_json_by_visibility_def)
  next
    case False
    with assms(2) have "H2 \<noteq> {}" by blast
    moreover have "H1 \<union> H2 = H2" using assms(2) by blast
    ultimately show ?thesis
      using filter_recursive_compose[OF assms(1), of H2 "[]" H1] False
      by (simp add: filter_json_by_visibility_def)
  qed
  moreover have "prunes (filter_json_by_visibility H2 w) w" if "wf_json w" for w
    using prunes_filter_recursive[OF that] prunes_refl
    by (simp add: filter_json_by_visibility_def)
  ultimately show ?thesis using wf1 by simp
qed

subsection \<open>Witnesses\<close>

theorem filter_json_by_visibility_paths_witness:
  "wf_json (JObj [(''u'', JObj [(''pw'', JStr ''x''), (''n'', JInt 1)]), (''t'', JArr [JObj [(''pw'', JNull)]])]) \<and>
   set (key_paths [] (filter_json_by_visibility {[''u'', ''pw'']}
      (JObj [(''u'', JObj [(''pw'', JStr ''x''), (''n'', JInt 1)]), (''t'', JArr [JObj [(''pw'', JNull)]])]))) =
   {q \<in> set (key_paths [] (JObj [(''u'', JObj [(''pw'', JStr ''x''), (''n'', JInt 1)]),
        (''t'', JArr [JObj [(''pw'', JNull)]])])). \<not> hidden_below {[''u'', ''pw'']} [] q}"
  using filter_json_by_visibility_paths[of "JObj [(''u'', JObj [(''pw'', JStr ''x''), (''n'', JInt 1)]),
      (''t'', JArr [JObj [(''pw'', JNull)]])]" "{[''u'', ''pw'']}"]
  by simp

theorem filter_json_by_visibility_compose_witness:
  "wf_json (JObj [(''a'', JArr [JObj [(''b'', JInt 1), (''c'', JInt 2)]])]) \<and>
   filter_json_by_visibility {[''a'', ''c'']}
     (filter_json_by_visibility {[''a'', ''b'']} (JObj [(''a'', JArr [JObj [(''b'', JInt 1), (''c'', JInt 2)]])])) =
   JObj [(''a'', JArr [JObj []])]"
proof -
  have wf: "wf_json (JObj [(''a'', JArr [JObj [(''b'', JInt 1), (''c'', JInt 2)]])])" by simp
  have "filter_json_by_visibility {[''a'', ''b''], [''a'', ''c'']}
      (JObj [(''a'', JArr [JObj [(''b'', JInt 1), (''c'', JInt 2)]])]) = JObj [(''a'', JArr [JObj []])]"
    by (simp add: filter_json_by_visibility_def dict_set_def)
  then show ?thesis
    using filter_json_by_visibility_compose[OF wf, of "{[''a'', ''c'']}" "{[''a'', ''b'']}"] wf
    by (simp add: insert_commute)
qed

theorem filter_json_by_visibility_mono_witness:
  "wf_json (JObj [(''a'', JInt 1), (''b'', JObj [(''c'', JNull)])]) \<and>
   {[''b'', ''c'']} \<subseteq> {[''b'', ''c''], [''a'']} \<and>
   prunes (filter_json_by_visibility {[''b'', ''c''], [''a'']} (JObj [(''a'', JInt 1), (''b'', JObj [(''c'', JNull)])]))
          (filter_json_by_visibility {[''b'', ''c'']} (JObj [(''a'', JInt 1), (''b'', JObj [(''c'', JNull)])]))"
  using filter_json_by_visibility_mono[of "JObj [(''a'', JInt 1), (''b'', JObj [(''c'', JNull)])]"
      "{[''b'', ''c'']}" "{[''b'', ''c''], [''a'']}"]
  by simp

end
