(* ===== verification/Stats.thy ===== *)
theory Stats
  imports Json "HOL-Library.Multiset"
begin

text \<open>
  The statistics of src/gui.py's \<open>JsonSchemaAnalyzer\<close>: \<open>_compute_value_stats\<close>
  (lines 240--266), \<open>_get_examples\<close> (269--293) and \<open>_compute_array_stats\<close>
  (296--369). The results are Python dictionaries, here association lists of
  \<open>pyval\<close> in insertion order. Python's \<open>min\<close>, \<open>max\<close>, \<open>sorted\<close>,
  \<open>statistics.mean\<close>, \<open>statistics.median\<close>, \<open>statistics.stdev\<close> and
  \<open>collections.Counter\<close> are written out as their documented semantics: \<open>min\<close>
  and \<open>max\<close> keep the first extreme element, \<open>sorted\<close> is stable, \<open>mean\<close>
  returns an \<open>int\<close> for an integral mean of integers, the even median and the
  standard deviation are floats (taken exactly, as reals), and
  \<open>most_common\<close> orders by descending count, ties in first-seen order.

  \<open>_compute_array_stats\<close> draws three interior indices with \<open>random.sample\<close>
  for string arrays longer than five. The draws are an input of the model: a
  function \<open>rnd\<close> from a draw counter to the indices it returned, and the
  counter is threaded through every call, advancing exactly when the code calls
  \<open>random.sample\<close>.
\<close>

type_synonym rng = "nat \<Rightarrow> nat list"

subsection \<open>Python's numeric built-ins\<close>

text \<open>\<open>min(xs)\<close> and \<open>max(xs)\<close> on a non-empty list of numbers: a later element replaces
  the current one only when strictly smaller (greater).\<close>

definition py_min :: "json list \<Rightarrow> json" where
  "py_min xs = fold (\<lambda>x m. if num_val x < num_val m then x else m) (tl xs) (hd xs)"

definition py_max :: "json list \<Rightarrow> json" where
  "py_max xs = fold (\<lambda>x m. if num_val m < num_val x then x else m) (tl xs) (hd xs)"

text \<open>The integer value of an \<open>int\<close> or \<open>bool\<close>.\<close>

fun int_val :: "json \<Rightarrow> int" where
  "int_val (JInt i) = i"
| "int_val (JBool b) = (if b then 1 else 0)"
| "int_val _ = 0"

definition num_sum :: "json list \<Rightarrow> real" where
  "num_sum xs = sum_list (map num_val xs)"

text \<open>
  \<open>statistics.mean\<close>: the exact mean, returned as an \<open>int\<close> when no element is a
  float and the mean is integral, as a float otherwise.
\<close>

definition py_mean :: "json list \<Rightarrow> pyval" where
  "py_mean xs =
     (if list_ex (\<lambda>x. py_type_of x = PyFloat) xs then PFloat (num_sum xs / real (length xs))
      else (let s = sum_list (map int_val xs); n = int (length xs) in
            if s mod n = 0 then PInt (s div n) else PFloat (of_int s / of_int n)))"

text \<open>\<open>sorted(xs)\<close> for numbers: stable, by value.\<close>

definition py_sorted :: "json list \<Rightarrow> json list" where
  "py_sorted xs = sort_key num_val xs"

text \<open>\<open>statistics.median\<close>: the middle element, or the float mean of the two middle ones.\<close>

definition py_median :: "json list \<Rightarrow> pyval" where
  "py_median xs =
     (let d = py_sorted xs; n = length xs in
      if n mod 2 = 1 then py_of_json (d ! (n div 2))
      else PFloat ((num_val (d ! (n div 2 - 1)) + num_val (d ! (n div 2))) / 2))"

text \<open>\<open>statistics.stdev\<close> for at least two values: the sample standard deviation.\<close>

definition sample_variance :: "json list \<Rightarrow> real" where
  "sample_variance xs =
     (let m = num_sum xs / real (length xs) in
      sum_list (map (\<lambda>x. (num_val x - m)\<^sup>2) xs) / real (length xs - 1))"

definition py_stdev :: "json list \<Rightarrow> pyval" where
  "py_stdev xs = PFloat (sqrt (sample_variance xs))"

subsection \<open>collections.Counter\<close>

text \<open>\<open>Counter(xs)\<close>: \<open>mapping[elem] = mapping.get(elem, 0) + 1\<close> for each element.\<close>

definition counter :: "string list \<Rightarrow> (string, nat) pydict" where
  "counter xs = fold (\<lambda>x d. dict_set d x (case map_of d x of None \<Rightarrow> 1 | Some c \<Rightarrow> Suc c)) xs []"

text \<open>
  \<open>Counter.most_common()\<close>: \<open>sorted(items, key=count, reverse=True)\<close>, which keeps
  equal counts in their first-seen order; \<open>most_common(n)\<close> is its first \<open>n\<close>.
\<close>

definition most_common_all :: "(string, nat) pydict \<Rightarrow> (string \<times> nat) list" where
  "most_common_all c = sort_key (\<lambda>(v, n). - int n) c"

definition count_entry :: "string \<times> nat \<Rightarrow> pyval" where
  "count_entry vc = PDict [(''value'', PStr (fst vc)), (''count'', PInt (int (snd vc)))]"

subsection \<open>The three statistics functions\<close>

text \<open>\<open>_compute_value_stats(key, value, parent_obj)\<close>; \<open>parent\<close> is \<open>None\<close> or the dict.\<close>

definition compute_value_stats :: "string \<Rightarrow> json \<Rightarrow> (string \<times> json) list option \<Rightarrow> (string, pyval) pydict" where
  "compute_value_stats key value parent =
     (let stats = [(''type'', PStr (type_name (py_type_of value)))] in
      if is_number value then
        (let stats = dict_set stats ''value'' (py_of_json value) in
         case parent of
           Some d \<Rightarrow>
             (if d \<noteq> [] \<and> map_of d key \<noteq> None then
                (let values = [the (map_of d key)] in
                 dict_set (dict_set stats ''min'' (py_of_json (py_min values))) ''max''
                   (py_of_json (py_max values)))
              else stats)
         | None \<Rightarrow> stats)
      else (case value of
        JStr s \<Rightarrow>
          dict_set (dict_set stats ''length'' (PInt (int (length s)))) ''preview''
            (PStr (if length s > 50 then take 50 s @ ''...'' else s))
      | JBool b \<Rightarrow> dict_set stats ''value'' (PBool b)
      | JNull \<Rightarrow> dict_set stats ''value'' (PStr ''null'')
      | _ \<Rightarrow> stats))"

text \<open>\<open>_get_examples(value)\<close>.\<close>

fun get_examples :: "json \<Rightarrow> pyval" where
  "get_examples (JArr vs) =
     (if length vs \<le> 3 then PList (map py_of_json vs)
      else PList (map py_of_json [vs ! 0, vs ! (length vs div 2), last vs]))"
| "get_examples (JObj kvs) =
     PList (map (\<lambda>(k, v). PTuple [PStr k, py_of_json v]) (if length kvs \<le> 3 then kvs else take 3 kvs))"
| "get_examples v = PList [py_of_json v]"

text \<open>The statistics of a uniform numeric array (lines 313--330).\<close>

definition numeric_stats :: "json list \<Rightarrow> (string, pyval) pydict \<Rightarrow> (string, pyval) pydict" where
  "numeric_stats arr stats =
     (let n = length arr;
          s1 = dict_set (dict_set (dict_set stats ''min'' (py_of_json (py_min arr)))
                 ''max'' (py_of_json (py_max arr))) ''mean'' (py_mean arr);
          s2 = (if n > 1 then dict_set (dict_set s1 ''median'' (py_median arr)) ''stdev'' (py_stdev arr)
                else s1);
          mid = n div 2
      in if n > 5 then
           dict_set s2 ''examples''
             (PList (map py_of_json ([arr ! 0, last arr] @ (if 0 < mid \<and> mid < n then [arr ! mid] else []))))
         else s2)"

text \<open>The statistics of a uniform string array (lines 337--367); \<open>smp\<close> is what
  \<open>random.sample\<close> returned, used only for arrays longer than five.\<close>

definition string_stats :: "string list \<Rightarrow> json list \<Rightarrow> nat list \<Rightarrow> (string, pyval) pydict \<Rightarrow> (string, pyval) pydict" where
  "string_stats strs arr smp stats =
     (let n = length strs;
          lengths = map length strs;
          s1 = dict_set (dict_set (dict_set stats ''min_length'' (PInt (int (Min (set lengths)))))
                 ''max_length'' (PInt (int (Max (set lengths)))))
                 ''avg_length'' (PFloat (real (sum_list lengths) / real n));
          s2 = (if n < 1000 then
                  (let c = counter strs;
                       mc = take 5 (most_common_all c);
                       s = (if mc \<noteq> [] then dict_set s1 ''most_common'' (PList (map count_entry mc)) else s1)
                   in if length c > 5 then
                        dict_set s ''least_common'' (PList (map count_entry (take 5 (rev (most_common_all c)))))
                      else s)
                else s1)
      in if n > 5 then
           dict_set s2 ''examples''
             (PList (map (\<lambda>i. py_of_json (arr ! i)) ([0, n - 1] @ (if n > 3 then smp else []))))
         else s2)"

definition str_of :: "json \<Rightarrow> string" where
  "str_of v = (case v of JStr s \<Rightarrow> s | _ \<Rightarrow> [])"

text \<open>
  \<open>_compute_array_stats(arr)\<close>, with the draw counter \<open>k\<close>: it returns the
  statistics and the counter after the call.
\<close>

definition compute_array_stats :: "rng \<Rightarrow> nat \<Rightarrow> json list \<Rightarrow> pyval \<times> nat" where
  "compute_array_stats rnd k arr =
     (let stats = [(''count'', PInt (int (length arr)))] in
      if arr = [] then (PDict stats, k)
      else
        (let uniform = list_all (\<lambda>x. isinstance x (py_type_of (hd arr))) arr;
             stats = dict_set stats ''uniform_type'' (PBool uniform) in
         if uniform \<and> list_all is_number arr then (PDict (numeric_stats arr stats), k)
         else if uniform \<and> list_all (\<lambda>x. isinstance x PyStr) arr then
           (if length arr > 5 then (PDict (string_stats (map str_of arr) arr (rnd k) stats), Suc k)
            else (PDict (string_stats (map str_of arr) arr [] stats), k))
         else (PDict stats, k)))"

text \<open>The numeric value of a number in the schema.\<close>

fun py_num :: "pyval \<Rightarrow> real" where
  "py_num (PInt i) = of_int i"
| "py_num (PFloat r) = r"
| "py_num (PBool b) = (if b then 1 else 0)"
| "py_num _ = 0"

text \<open>Looking a statistic up in a statistics dictionary.\<close>

definition stat :: "pyval \<Rightarrow> string \<Rightarrow> pyval option" where
  "stat p key = (case p of PDict d \<Rightarrow> map_of d key | _ \<Rightarrow> None)"

text \<open>What \<open>random.sample(range(1, n - 1), min(3, n - 2))\<close> can return.\<close>

definition valid_sample :: "nat \<Rightarrow> nat list \<Rightarrow> bool" where
  "valid_sample n smp = (distinct smp \<and> length smp = min 3 (n - 2) \<and> list_all (\<lambda>j. 1 \<le> j \<and> j < n - 1) smp)"


subsection \<open>Lemmas\<close>

lemma counter_eq_counts: "counter xs = map (\<lambda>v. (v, count_list xs v)) (first_occ xs)"
proof (induction xs rule: rev_induct)
  case Nil
  then show ?case by (simp add: counter_def first_occ_def)
next
  case (snoc x xs)
  have step: "counter (xs @ [x]) =
      dict_set (counter xs) x (case map_of (counter xs) x of None \<Rightarrow> 1 | Some c \<Rightarrow> Suc c)"
    by (simp add: counter_def)
  show ?case
  proof (cases "x \<in> set xs")
    case True
    then show ?thesis
      by (simp add: step snoc.IH map_of_map_pairs dict_set_def update_map_pairs first_occ_snoc)
  next
    case False
    then have "count_list xs x = 0" by (simp add: count_list_0_iff)
    moreover have "map (\<lambda>v. (v, count_list (xs @ [x]) v)) (first_occ xs) =
        map (\<lambda>v. (v, count_list xs v)) (first_occ xs)"
      using False by auto
    ultimately show ?thesis
      using False by (simp add: step snoc.IH dict_set_fresh first_occ_snoc map_of_map_pairs)
  qed
qed

lemma most_common_all_perm: "mset (most_common_all c) = mset c"
  by (simp add: most_common_all_def)

lemma most_common_all_sorted: "sorted (map (\<lambda>e. - int (snd e)) (most_common_all c))"
proof -
  have "(\<lambda>e. - int (snd e)) = (\<lambda>(v :: string, n). - int n)" by auto
  then show ?thesis by (simp add: most_common_all_def)
qed

lemma most_common_all_stable:
  "filter (\<lambda>e. snd e = n) (most_common_all c) = filter (\<lambda>e. snd e = n) c"
proof -
  have eq: "(\<lambda>e. snd e = n) = (\<lambda>e. (\<lambda>(v :: string, m). - int m) e = - int n)" by auto
  show ?thesis unfolding eq most_common_all_def by (rule sort_key_stable)
qed

lemma py_min_props:
  assumes "xs \<noteq> []"
  shows "py_min xs \<in> set xs \<and> (\<forall>y \<in> set xs. num_val (py_min xs) \<le> num_val y)"
proof -
  obtain x ys where xs: "xs = x # ys" using assms by (cases xs) auto
  have m: "py_min xs = fold (\<lambda>x m. if num_val x < num_val m then x else m) ys x"
    by (simp add: py_min_def xs)
  have "fold (\<lambda>x m. if num_val x < num_val m then x else m) ys x \<in> insert x (set ys)"
    by (rule fold_argmin_mem)
  moreover have "\<forall>y \<in> insert x (set ys).
      num_val (fold (\<lambda>x m. if num_val x < num_val m then x else m) ys x) \<le> num_val y"
    using fold_argmin_le[of _ x ys num_val] by blast
  ultimately show ?thesis unfolding m by (simp add: xs)
qed

lemma py_max_props:
  assumes "xs \<noteq> []"
  shows "py_max xs \<in> set xs \<and> (\<forall>y \<in> set xs. num_val y \<le> num_val (py_max xs))"
proof -
  obtain x ys where xs: "xs = x # ys" using assms by (cases xs) auto
  have m: "py_max xs = fold (\<lambda>x m. if num_val m < num_val x then x else m) ys x"
    by (simp add: py_max_def xs)
  have "fold (\<lambda>x m. if num_val m < num_val x then x else m) ys x \<in> insert x (set ys)"
    by (rule fold_argmax_mem)
  moreover have "\<forall>y \<in> insert x (set ys).
      num_val y \<le> num_val (fold (\<lambda>x m. if num_val m < num_val x then x else m) ys x)"
    using fold_argmax_ge[of _ x ys num_val] by blast
  ultimately show ?thesis unfolding m by (simp add: xs)
qed

lemma num_val_int_val: "is_number x \<Longrightarrow> py_type_of x \<noteq> PyFloat \<Longrightarrow> num_val x = of_int (int_val x)"
  by (cases x) (auto simp: is_number_def)

lemma py_mean_value:
  assumes "xs \<noteq> []" "list_all is_number xs"
  shows "py_num (py_mean xs) = num_sum xs / real (length xs)"
proof (cases "list_ex (\<lambda>x. py_type_of x = PyFloat) xs")
  case True
  then show ?thesis by (simp add: py_mean_def)
next
  case False
  have "num_sum xs = of_int (sum_list (map int_val xs))"
    using assms(2) False unfolding num_sum_def
    by (induction xs) (auto simp: num_val_int_val)
  moreover have "int (length xs) > 0" using assms(1) by simp
  ultimately show ?thesis using False
    by (auto simp: py_mean_def Let_def real_of_int_div mod_eq_0_iff_dvd)
qed

lemma py_mean_bounds:
  assumes "xs \<noteq> []" "list_all is_number xs"
  shows "num_val (py_min xs) \<le> py_num (py_mean xs) \<and> py_num (py_mean xs) \<le> num_val (py_max xs)"
proof -
  have n: "real (length xs) > 0" using assms(1) by simp
  have "real (length xs) * num_val (py_min xs) \<le> num_sum xs"
    using py_min_props[OF assms(1)] unfolding num_sum_def by (intro length_mul_le_sum) blast
  moreover have "num_sum xs \<le> real (length xs) * num_val (py_max xs)"
    using py_max_props[OF assms(1)] unfolding num_sum_def by (intro sum_le_length_mul) blast
  ultimately show ?thesis
    using n by (simp add: py_mean_value[OF assms] pos_le_divide_eq pos_divide_le_eq mult.commute)
qed

lemma compute_array_stats_numeric:
  assumes "arr \<noteq> []" "list_all (\<lambda>x. isinstance x (py_type_of (hd arr))) arr" "list_all is_number arr"
  shows "compute_array_stats rnd k arr =
    (PDict (numeric_stats arr [(''count'', PInt (int (length arr))), (''uniform_type'', PBool True)]), k)"
  using assms by (simp add: compute_array_stats_def dict_set_def)

lemma compute_array_stats_string:
  assumes "arr \<noteq> []" "list_all (\<lambda>x. isinstance x PyStr) arr"
  shows "compute_array_stats rnd k arr =
    (if length arr > 5
     then (PDict (string_stats (map str_of arr) arr (rnd k)
             [(''count'', PInt (int (length arr))), (''uniform_type'', PBool True)]), Suc k)
     else (PDict (string_stats (map str_of arr) arr []
             [(''count'', PInt (int (length arr))), (''uniform_type'', PBool True)]), k))"
proof -
  obtain x xs where arr: "arr = x # xs" using assms(1) by (cases arr) auto
  then obtain s where x: "x = JStr s" using assms(2) by (cases x) auto
  have u: "list_all (\<lambda>y. isinstance y (py_type_of (hd arr))) arr" using assms(2) by (simp add: arr x)
  have nn: "\<not> list_all is_number arr" by (simp add: arr x is_number_def)
  show ?thesis using assms u nn by (simp add: compute_array_stats_def dict_set_def Let_def)
qed

lemma string_stats_examples:
  assumes "length strs > 5"
  shows "map_of (string_stats strs arr smp st) ''examples'' =
     Some (PList (map (\<lambda>i. py_of_json (arr ! i)) ([0, length strs - 1] @ smp)))"
proof -
  have "length strs > 3" using assms by simp
  then show ?thesis
    unfolding string_stats_def Let_def using assms
    by (simp only: if_True map_of_dict_set fun_upd_same)
qed

lemma sample_variance_const:
  assumes "arr \<noteq> []" "list_all (\<lambda>x. x = hd arr) arr"
  shows "sample_variance arr = 0"
proof -
  have arr: "arr = replicate (length arr) (hd arr)"
    using assms(2) by (simp add: list_all_iff replicate_length_same)
  have "num_sum arr / real (length arr) = num_val (hd arr)"
    using assms(1) by (subst arr) (simp add: num_sum_def sum_list_replicate)
  then show ?thesis
    unfolding sample_variance_def Let_def by (subst (2) arr) (simp add: sum_list_replicate)
qed

lemma numeric_stats_uniform: "map_of (numeric_stats arr st) ''uniform_type'' = map_of st ''uniform_type''"
  by (simp add: numeric_stats_def Let_def)

lemma string_stats_uniform: "map_of (string_stats strs arr smp st) ''uniform_type'' = map_of st ''uniform_type''"
  by (simp add: string_stats_def Let_def)

lemma compute_array_stats_uniform:
  "arr \<noteq> [] \<Longrightarrow> stat (fst (compute_array_stats rnd k arr)) ''uniform_type'' =
     Some (PBool (list_all (\<lambda>x. isinstance x (py_type_of (hd arr))) arr))"
  by (simp add: compute_array_stats_def stat_def Let_def numeric_stats_uniform string_stats_uniform)

lemma isinstance_int_bool:
  "py_type_of x \<in> {PyInt, PyBool} \<Longrightarrow> isinstance x t \<longleftrightarrow> py_type_of x = t \<or> py_type_of x = PyBool \<and> t = PyInt"
  by (cases x; cases t) auto

subsection \<open>Properties of the statistics\<close>

text \<open>
  \<open>Counter(xs)\<close> maps each distinct string of \<open>xs\<close>, in order of first
  occurrence, to its number of occurrences.
\<close>

theorem counter_first_seen: "counter xs = map (\<lambda>v. (v, count_list xs v)) (first_occ xs)"
  by (rule counter_eq_counts)

text \<open>
  The frequency ranking behind \<open>most_common\<close> and \<open>least_common\<close> is a
  permutation of the (value, count) pairs, ordered by descending count, and values with
  equal counts stay in first-seen order.
\<close>

theorem most_common_ranking:
  "mset (most_common_all (counter xs)) = mset (map (\<lambda>v. (v, count_list xs v)) (first_occ xs)) \<and>
   sorted (map (\<lambda>e. - int (snd e)) (most_common_all (counter xs))) \<and>
   (\<forall>n. filter (\<lambda>e. snd e = n) (most_common_all (counter xs)) =
         filter (\<lambda>e. snd e = n) (map (\<lambda>v. (v, count_list xs v)) (first_occ xs)))"
  using most_common_all_perm[of "counter xs"] most_common_all_sorted[of "counter xs"]
    most_common_all_stable[of _ "counter xs"]
  by (simp add: counter_eq_counts)

text \<open>
  C31: For a uniform numeric array, the statistics hold Python's \<open>min\<close> and \<open>max\<close>
  (elements of the array) and the exact mean, with min \<open>\<le>\<close> mean \<open>\<le>\<close> max, and no
  random draw is consumed.
\<close>

theorem numeric_stats_bounds:
  assumes "arr \<noteq> []" "list_all (\<lambda>x. isinstance x (py_type_of (hd arr))) arr" "list_all is_number arr"
  shows "snd (compute_array_stats rnd k arr) = k \<and>
    stat (fst (compute_array_stats rnd k arr)) ''min'' = Some (py_of_json (py_min arr)) \<and>
    stat (fst (compute_array_stats rnd k arr)) ''max'' = Some (py_of_json (py_max arr)) \<and>
    stat (fst (compute_array_stats rnd k arr)) ''mean'' = Some (py_mean arr) \<and>
    py_num (py_mean arr) = num_sum arr / real (length arr) \<and>
    py_min arr \<in> set arr \<and> py_max arr \<in> set arr \<and>
    num_val (py_min arr) \<le> py_num (py_mean arr) \<and> py_num (py_mean arr) \<le> num_val (py_max arr)"
  using py_min_props[OF assms(1)] py_max_props[OF assms(1)] py_mean_value[OF assms(1,3)]
    py_mean_bounds[OF assms(1,3)]
  by (simp add: compute_array_stats_numeric[OF assms] stat_def numeric_stats_def Let_def dict_set_def)

text \<open>
  For a uniform numeric array, \<open>median\<close> and \<open>stdev\<close> are present exactly when
  the array has more than one element, and \<open>stdev\<close> is the sample standard deviation.
\<close>

theorem numeric_stats_spread:
  assumes "arr \<noteq> []" "list_all (\<lambda>x. isinstance x (py_type_of (hd arr))) arr" "list_all is_number arr"
  shows "(stat (fst (compute_array_stats rnd k arr)) ''median'' \<noteq> None \<longleftrightarrow> length arr > 1) \<and>
    (stat (fst (compute_array_stats rnd k arr)) ''stdev'' =
       (if length arr > 1 then Some (PFloat (sqrt (sample_variance arr))) else None))"
  by (simp add: compute_array_stats_numeric[OF assms] stat_def numeric_stats_def Let_def
      py_stdev_def dict_set_def)

text \<open>
  For a string array longer than five, given a sample that \<open>random.sample\<close> can
  return, the examples are five elements of the array, the first and the last element
  first, and exactly one draw is consumed.
\<close>

theorem string_examples_drawn:
  assumes "arr \<noteq> []" "list_all (\<lambda>x. isinstance x PyStr) arr" "length arr > 5"
    and "valid_sample (length arr) (rnd k)"
  shows "snd (compute_array_stats rnd k arr) = Suc k \<and>
    (\<exists>es. stat (fst (compute_array_stats rnd k arr)) ''examples'' = Some (PList (map py_of_json es)) \<and>
       length es = 5 \<and> es ! 0 = hd arr \<and> es ! 1 = last arr \<and> set es \<subseteq> set arr)"
proof -
  let ?n = "length arr"
  let ?idx = "[0, ?n - 1] @ rnd k"
  have len: "length (rnd k) = 3" using assms(3,4) by (simp add: valid_sample_def)
  have inr: "\<forall>j \<in> set ?idx. j < ?n" using assms(3,4) by (auto simp: valid_sample_def list_all_iff)
  let ?es = "map (\<lambda>i. arr ! i) ?idx"
  have cas: "compute_array_stats rnd k arr =
      (PDict (string_stats (map str_of arr) arr (rnd k)
         [(''count'', PInt (int ?n)), (''uniform_type'', PBool True)]), Suc k)"
    using assms(3) compute_array_stats_string[OF assms(1,2), of rnd k] by simp
  have "stat (fst (compute_array_stats rnd k arr)) ''examples'' = Some (PList (map py_of_json ?es))"
    unfolding cas using assms(3) by (simp add: stat_def string_stats_examples)
  moreover have "length ?es = 5" using len by simp
  moreover have "?es ! 0 = hd arr" using assms(1) by (simp add: hd_conv_nth)
  moreover have "?es ! 1 = last arr" using assms(1) by (simp add: last_conv_nth)
  moreover have "set ?es \<subseteq> set arr" using inr by auto
  moreover have "snd (compute_array_stats rnd k arr) = Suc k" unfolding cas by simp
  ultimately show ?thesis by blast
qed

text \<open>
  C32: A constant numeric array of two or more elements gets \<open>stdev = 0.0\<close>: the field
  is omitted only for a single element, not for zero variance.
\<close>

theorem stdev_of_constant_array:
  assumes "length arr > 1" "list_all (\<lambda>x. x = hd arr) arr" "is_number (hd arr)"
  shows "stat (fst (compute_array_stats rnd k arr)) ''stdev'' = Some (PFloat 0)"
proof -
  have ne: "arr \<noteq> []" using assms(1) by auto
  have u: "list_all (\<lambda>x. isinstance x (py_type_of (hd arr))) arr"
    using assms(2) by (auto simp: list_all_iff)
  have n: "list_all is_number arr" using assms(2,3) by (auto simp: list_all_iff)
  show ?thesis
    using assms(1) sample_variance_const[OF ne assms(2)]
    by (simp add: compute_array_stats_numeric[OF ne u n] stat_def numeric_stats_def Let_def
        py_stdev_def dict_set_def)
qed

text \<open>
  The statistics of \<open>[1, 2, 3, 4, 5]\<close>: min 1, max 5, mean 3 (an \<open>int\<close>),
  median 3 and stdev \<open>sqrt 2.5\<close>, which lies between 1.5811 and 1.5812.
\<close>

theorem stats_of_one_to_five:
  "fst (compute_array_stats rnd k [JInt 1, JInt 2, JInt 3, JInt 4, JInt 5]) =
     PDict [(''count'', PInt 5), (''uniform_type'', PBool True), (''min'', PInt 1), (''max'', PInt 5),
       (''mean'', PInt 3), (''median'', PInt 3), (''stdev'', PFloat (sqrt (5 / 2)))] \<and>
   1.5811 < sqrt (5 / 2 :: real) \<and> sqrt (5 / 2 :: real) < 1.5812"
proof -
  have lo: "1.5811 < sqrt (5 / 2 :: real)" by (rule real_less_rsqrt) (simp add: power2_eq_square)
  have "sqrt (5 / 2 :: real) < sqrt (1.5812\<^sup>2)"
    by (simp only: real_sqrt_less_iff) (simp add: power2_eq_square)
  then have hi: "sqrt (5 / 2 :: real) < 1.5812" by simp
  have "fst (compute_array_stats rnd k [JInt 1, JInt 2, JInt 3, JInt 4, JInt 5]) =
     PDict [(''count'', PInt 5), (''uniform_type'', PBool True), (''min'', PInt 1), (''max'', PInt 5),
       (''mean'', PInt 3), (''median'', PInt 3), (''stdev'', PFloat (sqrt (5 / 2)))]"
    by (simp add: compute_array_stats_def numeric_stats_def py_min_def py_max_def py_mean_def
        py_median_def py_sorted_def py_stdev_def sample_variance_def num_sum_def dict_set_def is_number_def)
  with lo hi show ?thesis by simp
qed

text \<open>The statistics of \<open>[7]\<close>: mean 7 and no median or stdev.\<close>

theorem stats_of_singleton:
  "fst (compute_array_stats rnd k [JInt 7]) =
     PDict [(''count'', PInt 1), (''uniform_type'', PBool True), (''min'', PInt 7), (''max'', PInt 7),
       (''mean'', PInt 7)]"
  by (simp add: compute_array_stats_def numeric_stats_def py_min_def py_max_def py_mean_def
      dict_set_def is_number_def)

text \<open>
  For \<open>["a", "a", "b", "c", "a", "b"]\<close>, \<open>most_common\<close> is a:3, b:2, c:1 and there
  is no \<open>least_common\<close> (only three distinct values).
\<close>

theorem stats_of_strings:
  "stat (fst (compute_array_stats rnd k (map JStr [''a'', ''a'', ''b'', ''c'', ''a'', ''b'']))) ''most_common'' =
     Some (PList [count_entry (''a'', 3), count_entry (''b'', 2), count_entry (''c'', 1)]) \<and>
   stat (fst (compute_array_stats rnd k (map JStr [''a'', ''a'', ''b'', ''c'', ''a'', ''b'']))) ''least_common'' = None"
  by (simp add: compute_array_stats_def string_stats_def stat_def counter_def most_common_all_def
      dict_set_def str_of_def Let_def is_number_def count_entry_def)

text \<open>
  C33: \<open>uniform_type\<close> tests \<open>isinstance\<close> against the first element's class, and
  \<open>bool\<close> is a subclass of \<open>int\<close>: an array of ints and booleans is reported
  uniform exactly when its first element is an int or all its elements are booleans,
  so \<open>[1, True]\<close> counts as uniform and \<open>[True, 1]\<close> does not.
\<close>

theorem uniform_type_follows_first:
  assumes "arr \<noteq> []" "list_all (\<lambda>x. py_type_of x \<in> {PyInt, PyBool}) arr"
  shows "stat (fst (compute_array_stats rnd k arr)) ''uniform_type'' =
         Some (PBool (py_type_of (hd arr) = PyInt \<or> list_all (\<lambda>x. py_type_of x = PyBool) arr))"
proof -
  have h: "py_type_of (hd arr) \<in> {PyInt, PyBool}" using assms by (cases arr) simp_all
  have "list_all (\<lambda>x. isinstance x (py_type_of (hd arr))) arr \<longleftrightarrow>
        py_type_of (hd arr) = PyInt \<or> list_all (\<lambda>x. py_type_of x = PyBool) arr"
    using assms(2) h by (auto simp: list_all_iff isinstance_int_bool)
  then show ?thesis using compute_array_stats_uniform[OF assms(1)] by simp
qed

text \<open>
  C34: A numeric leaf (booleans included) of an object gets \<open>min\<close> and \<open>max\<close> equal
  to its own value: the lookup meant to scan sibling objects reads only the value
  itself, and the \<open>bool\<close> branch of \<open>_compute_value_stats\<close> is never reached.
\<close>

theorem value_stats_numeric_leaf:
  assumes "map_of d key = Some v" "is_number v"
  shows "compute_value_stats key v (Some d) =
    [(''type'', PStr (type_name (py_type_of v))), (''value'', py_of_json v),
     (''min'', py_of_json v), (''max'', py_of_json v)]"
proof -
  have "d \<noteq> []" using assms(1) by auto
  then show ?thesis using assms by (simp add: compute_value_stats_def py_min_def py_max_def dict_set_def)
qed

subsection \<open>Witnesses\<close>

theorem numeric_stats_bounds_witness:
  "[JInt 3, JInt 1, JBool True] \<noteq> [] \<and>
   list_all is_number [JInt 3, JInt 1, JBool True] \<and>
   stat (fst (compute_array_stats (\<lambda>_. []) 0 [JInt 3, JInt 1, JBool True])) ''min'' =
     Some (py_of_json (py_min [JInt 3, JInt 1, JBool True]))"
  using numeric_stats_bounds[of "[JInt 3, JInt 1, JBool True]" "\<lambda>_. []" 0]
  by (simp add: is_number_def)

theorem numeric_stats_spread_witness:
  "list_all is_number [JFloat 2.5, JFloat 4] \<and>
   stat (fst (compute_array_stats (\<lambda>_. []) 0 [JFloat 2.5, JFloat 4])) ''stdev'' =
     Some (PFloat (sqrt (sample_variance [JFloat 2.5, JFloat 4])))"
  using numeric_stats_spread[of "[JFloat 2.5, JFloat 4]" "\<lambda>_. []" 0]
  by (simp add: is_number_def)

theorem string_examples_drawn_witness:
  "valid_sample 6 [4, 1, 2] \<and>
   snd (compute_array_stats (\<lambda>_. [4, 1, 2]) 0 (map JStr [''a'', ''b'', ''c'', ''d'', ''e'', ''f''])) = 1"
  using string_examples_drawn[of "map JStr [''a'', ''b'', ''c'', ''d'', ''e'', ''f'']" "\<lambda>_. [4, 1, 2]" 0]
  by (simp add: valid_sample_def)

theorem stdev_of_constant_array_witness:
  "is_number (JInt 5) \<and>
   stat (fst (compute_array_stats (\<lambda>_. []) 0 [JInt 5, JInt 5])) ''stdev'' = Some (PFloat 0)"
  using stdev_of_constant_array[of "[JInt 5, JInt 5]" "\<lambda>_. []" 0]
  by (simp add: is_number_def)

theorem value_stats_numeric_leaf_witness:
  "compute_value_stats ''flag'' (JBool True) (Some [(''flag'', JBool True)]) =
     [(''type'', PStr ''bool''), (''value'', PBool True), (''min'', PBool True), (''max'', PBool True)]"
  using value_stats_numeric_leaf[of "[(''flag'', JBool True)]" "''flag''" "JBool True"]
  by (simp add: is_number_def)

lemma uniform_type_follows_first_witness:
  "[JInt 1, JBool True] \<noteq> [] \<and> list_all (\<lambda>x. py_type_of x \<in> {PyInt, PyBool}) [JInt 1, JBool True] \<and>
   [JBool True, JInt 1] \<noteq> [] \<and> list_all (\<lambda>x. py_type_of x \<in> {PyInt, PyBool}) [JBool True, JInt 1] \<and>
   stat (fst (compute_array_stats (\<lambda>_. []) 0 [JInt 1, JBool True])) ''uniform_type'' = Some (PBool True) \<and>
   stat (fst (compute_array_stats (\<lambda>_. []) 0 [JBool True, JInt 1])) ''uniform_type'' = Some (PBool False)"
  using uniform_type_follows_first[of "[JInt 1, JBool True]" "\<lambda>_. []" 0]
    uniform_type_follows_first[of "[JBool True, JInt 1]" "\<lambda>_. []" 0]
  by simp

end
