(* ===== verification/Analyzer.thy ===== *)
theory Analyzer
  imports Stats
begin

text \<open>
  The schema inference engine, \<open>JsonSchemaAnalyzer\<close> of src/gui.py (lines
  165-293). \<open>analyze_json\<close> dispatches on the document's root: an object is
  analysed by \<open>_analyze_object\<close>, a non-empty array by analysing its first ten
  elements that are objects and keeping, for every key, the schema of the first
  object that has it, plus \<open>__array_stats\<close> over the whole array; anything else
  gives the empty schema. \<open>_analyze_object\<close> maps every key to a node: an object
  to \<open>{type: object, properties}\<close>, an array to \<open>{type: array, element_type,
  stats}\<close> with the \<open>properties\<close> of its first element when that is an object,
  and a scalar to \<open>{type, value, stats, examples}\<close>.

  The only effect is \<open>random.sample\<close> inside \<open>_compute_array_stats\<close>; the
  draw source \<open>rnd\<close> and the counter \<open>k\<close> of draws made so far are threaded
  through every call in the order Python makes them, and every function returns
  the counter after it. The mutual recursion \<open>analyze_value\<close> /
  \<open>analyze_entries\<close> is the body of \<open>_analyze_object\<close> (one branch per value,
  the loop over \<open>obj.items()\<close>), \<open>merge_new\<close> the \<open>if key not in
  combined_schema\<close> loop, \<open>combine_items\<close> the loop over \<open>json_data[:10]\<close>.

  The lemmas show that a schema has exactly the keys of its object, how the
  root array merges its elements' keys (first object wins), that a nested array
  only describes its first element, and that the analysis is deterministic up
  to the \<open>examples\<close> entries, but not deterministic with them.
\<close>

text \<open>
  \<open>_analyze_object(obj)\<close>: \<open>analyze_value rnd parent key v k\<close> is the node
  the loop body stores under \<open>key\<close> for the value \<open>v\<close> of \<open>parent\<close>;
  \<open>analyze_entries\<close> the loop itself, with the schema built so far.
\<close>

fun analyze_value :: "rng \<Rightarrow> (string \<times> json) list \<Rightarrow> string \<Rightarrow> json \<Rightarrow> nat \<Rightarrow> pyval \<times> nat"
and analyze_entries :: "rng \<Rightarrow> (string \<times> json) list \<Rightarrow> (string \<times> json) list \<Rightarrow>
    (string, pyval) pydict \<Rightarrow> nat \<Rightarrow> (string, pyval) pydict \<times> nat" where
  "analyze_value rnd parent key (JObj ob) k =
     (let (props, k') = analyze_entries rnd ob ob [] k in
      (PDict [(''type'', PStr ''object''), (''properties'', PDict props)], k'))"
| "analyze_value rnd parent key (JArr vs) k =
     (let element_type =
            (if vs \<noteq> [] \<and> list_all (\<lambda>x. isinstance x (py_type_of (hd vs))) vs
             then type_name (py_type_of (hd vs)) else ''mixed'');
          (st, k1) = compute_array_stats rnd k vs;
          node = [(''type'', PStr ''array''), (''element_type'', PStr element_type), (''stats'', st)]
      in case vs of
           JObj ob # _ \<Rightarrow>
             (let (ps, k2) = analyze_entries rnd ob ob [] k1 in (PDict (dict_set node ''properties'' (PDict ps)), k2))
         | _ \<Rightarrow> (PDict node, k1))"
| "analyze_value rnd parent key v k =
     (PDict [(''type'', PStr (type_name (py_type_of v))), (''value'', py_of_json v),
             (''stats'', PDict (compute_value_stats key v (Some parent))), (''examples'', get_examples v)], k)"
| "analyze_entries rnd parent [] schema k = (schema, k)"
| "analyze_entries rnd parent ((key, v) # rest) schema k =
     (let (node, k') = analyze_value rnd parent key v k in
      analyze_entries rnd parent rest (dict_set schema key node) k')"

text \<open>\<open>_analyze_object(obj)\<close>: the loop from the empty schema.\<close>

definition analyze_object :: "rng \<Rightarrow> (string \<times> json) list \<Rightarrow> nat \<Rightarrow> (string, pyval) pydict \<times> nat" where
  "analyze_object rnd obj k = analyze_entries rnd obj obj [] k"

text \<open>The merge of an element's schema into \<open>combined_schema\<close>: keys already present are kept.\<close>

fun merge_new :: "(string, pyval) pydict \<Rightarrow> (string, pyval) pydict \<Rightarrow> (string, pyval) pydict" where
  "merge_new comb [] = comb"
| "merge_new comb ((key, v) # rest) =
     merge_new (if key \<in> set (map fst comb) then comb else dict_set comb key v) rest"

text \<open>The loop over the first ten elements of a root array: objects only.\<close>

fun combine_items :: "rng \<Rightarrow> json list \<Rightarrow> (string, pyval) pydict \<Rightarrow> nat \<Rightarrow> (string, pyval) pydict \<times> nat" where
  "combine_items rnd [] comb k = (comb, k)"
| "combine_items rnd (JObj ob # rest) comb k =
     (let (s, k') = analyze_object rnd ob k in combine_items rnd rest (merge_new comb s) k')"
| "combine_items rnd (_ # rest) comb k = combine_items rnd rest comb k"

text \<open>\<open>analyze_json(json_data)\<close>.\<close>

fun analyze_json :: "rng \<Rightarrow> json \<Rightarrow> nat \<Rightarrow> (string, pyval) pydict \<times> nat" where
  "analyze_json rnd (JObj ob) k = analyze_object rnd ob k"
| "analyze_json rnd (JArr vs) k =
     (if vs = [] then ([], k)
      else (let (comb, k1) = combine_items rnd (take 10 vs) [] k;
                (st, k2) = compute_array_stats rnd k1 vs
            in (dict_set comb ''__array_stats'' st, k2)))"
| "analyze_json rnd v k = ([], k)"

text \<open>Objects' keys, as the top-level merge iterates them.\<close>

fun obj_keys :: "json \<Rightarrow> string list" where
  "obj_keys (JObj ob) = map fst ob"
| "obj_keys _ = []"

text \<open>A schema with every \<open>examples\<close> entry removed, at every depth.\<close>

fun strip_examples :: "pyval \<Rightarrow> pyval" where
  "strip_examples (PDict d) =
     PDict (filter (\<lambda>kv. fst kv \<noteq> ''examples'') (map (\<lambda>(k, v). (k, strip_examples v)) d))"
| "strip_examples (PList vs) = PList (map strip_examples vs)"
| "strip_examples (PTuple vs) = PTuple (map strip_examples vs)"
| "strip_examples v = v"

definition strip_dict :: "(string, pyval) pydict \<Rightarrow> (string, pyval) pydict" where
  "strip_dict d = filter (\<lambda>kv. fst kv \<noteq> ''examples'') (map (\<lambda>(k, v). (k, strip_examples v)) d)"

subsection \<open>Lemmas\<close>

lemma analyze_entries_keys:
  "distinct (map fst schema) \<Longrightarrow>
   map fst (fst (analyze_entries rnd p items schema k)) = first_occ (map fst schema @ map fst items)"
proof (induction items arbitrary: schema k)
  case Nil
  then show ?case by (simp add: first_occ_distinct)
next
  case (Cons kv rest)
  obtain key v where kv: "kv = (key, v)" by fastforce
  obtain node k' where nk: "analyze_value rnd p key v k = (node, k')" by fastforce
  have "map fst (fst (analyze_entries rnd p (kv # rest) schema k))
      = map fst (fst (analyze_entries rnd p rest (dict_set schema key node) k'))"
    by (simp add: kv nk)
  also have "\<dots> = first_occ (map fst (dict_set schema key node) @ map fst rest)"
    using Cons by (simp add: distinct_dict_set)
  also have "\<dots> = first_occ (map fst schema @ map fst (kv # rest))"
    using Cons.prems by (simp add: kv first_occ_step)
  finally show ?case .
qed

lemma analyze_object_keys: "map fst (fst (analyze_object rnd ob k)) = first_occ (map fst ob)"
  by (simp add: analyze_object_def analyze_entries_keys)

lemma merge_new_keys:
  "distinct (map fst comb) \<Longrightarrow> map fst (merge_new comb s) = first_occ (map fst comb @ map fst s)"
proof (induction comb s rule: merge_new.induct)
  case (1 comb)
  then show ?case by (simp add: first_occ_distinct)
next
  case (2 comb key v rest)
  let ?c = "if key \<in> set (map fst comb) then comb else dict_set comb key v"
  have d: "distinct (map fst ?c)" using "2.prems" by (simp add: distinct_dict_set)
  have ks: "map fst ?c = (if key \<in> set (map fst comb) then map fst comb else map fst comb @ [key])"
    by simp
  have "map fst (merge_new comb ((key, v) # rest)) = first_occ (map fst ?c @ map fst rest)"
    using "2.IH"[OF d] by simp
  also have "\<dots> = first_occ (map fst comb @ map fst ((key, v) # rest))"
    unfolding ks using first_occ_step[OF "2.prems", of key "map fst rest"] by simp
  finally show ?case .
qed

lemma map_of_merge_new:
  "map_of (merge_new comb s) key = (case map_of comb key of Some v \<Rightarrow> Some v | None \<Rightarrow> map_of s key)"
proof (induction comb s rule: merge_new.induct)
  case (1 comb)
  then show ?case by (simp split: option.split)
next
  case (2 comb key' v rest)
  let ?c = "if key' \<in> set (map fst comb) then comb else dict_set comb key' v"
  have IH: "map_of (merge_new comb ((key', v) # rest)) key
      = (case map_of ?c key of Some v \<Rightarrow> Some v | None \<Rightarrow> map_of rest key)"
    using "2.IH" by simp
  show ?case
  proof (cases "key' \<in> set (map fst comb)")
    case True
    then have "map_of comb key' \<noteq> None" by (simp add: map_of_eq_None_iff)
    then show ?thesis unfolding IH using True by (cases "key = key'") (auto split: option.split)
  next
    case False
    then have "map_of comb key' = None" by (simp add: map_of_eq_None_iff)
    then show ?thesis unfolding IH using False by (cases "key = key'") (auto split: option.split)
  qed
qed


lemma combine_items_keys:
  "distinct (map fst comb) \<Longrightarrow>
   map fst (fst (combine_items rnd items comb k)) = first_occ (map fst comb @ concat (map obj_keys items))"
proof (induction rnd items comb k rule: combine_items.induct)
  case (1 rnd comb k)
  then show ?case by (simp add: first_occ_distinct)
next
  case (2 rnd ob rest comb k)
  obtain s k' where sk: "analyze_object rnd ob k = (s, k')" by fastforce
  have d: "distinct (map fst (merge_new comb s))"
    using "2.prems" by (simp add: merge_new_keys analyze_object_keys[of rnd ob k, unfolded sk])
  have "map fst (fst (combine_items rnd (JObj ob # rest) comb k))
      = first_occ (map fst (merge_new comb s) @ concat (map obj_keys rest))"
    using "2.IH"[OF sk[symmetric] refl d] sk by simp
  also have "\<dots> = first_occ (map fst comb @ concat (map obj_keys (JObj ob # rest)))"
    using "2.prems" analyze_object_keys[of rnd ob k, unfolded sk]
    by (simp add: merge_new_keys first_occ_first_occ_left first_occ_first_occ_right)
  finally show ?case .
qed simp_all

lemma strip_dict_update:
  "strip_dict (dict_set d key v) =
   (if key = ''examples'' then strip_dict d else dict_set (strip_dict d) key (strip_examples v))"
  by (induction d) (auto simp: strip_dict_def dict_set_def)

lemma strip_examples_PDict: "strip_examples (PDict d) = PDict (strip_dict d)"
  by (simp add: strip_dict_def)

lemma string_stats_strip:
  "strip_dict (string_stats strs arr smp stats) = strip_dict (string_stats strs arr smp' stats)"
  by (simp add: string_stats_def Let_def strip_dict_update)

lemma compute_array_stats_strip:
  "strip_examples (fst (compute_array_stats rnd k arr)) = strip_examples (fst (compute_array_stats rnd' k' arr))"
  unfolding compute_array_stats_def Let_def
  using string_stats_strip by (simp add: strip_examples_PDict del: strip_examples.simps(1))

lemma strip_dict_Nil [simp]: "strip_dict [] = []"
  by (simp add: strip_dict_def)

lemma strip_dict_Cons [simp]:
  "strip_dict ((k, v) # d) = (if k = ''examples'' then strip_dict d else (k, strip_examples v) # strip_dict d)"
  by (simp add: strip_dict_def)

lemma analyze_strip:
  "strip_examples (fst (analyze_value rnd p key v k)) = strip_examples (fst (analyze_value rnd' p key v k'))"
  "strip_dict s1 = strip_dict s2 \<Longrightarrow>
   strip_dict (fst (analyze_entries rnd p items s1 k)) = strip_dict (fst (analyze_entries rnd' p items s2 k'))"
proof (induction rnd p key v k and rnd p items s1 k arbitrary: rnd' k' and rnd' k' s2
       rule: analyze_value_analyze_entries.induct)
  case (1 rnd parent key ob k)
  obtain ps1 j1 where e1: "analyze_entries rnd ob ob [] k = (ps1, j1)" by fastforce
  obtain ps2 j2 where e2: "analyze_entries rnd' ob ob [] k' = (ps2, j2)" by fastforce
  have "strip_dict ps1 = strip_dict ps2" using "1.IH"[of "[]" rnd' k'] e1 e2 by simp
  then show ?case by (simp add: e1 e2 strip_examples_PDict del: strip_examples.simps(1))
next
  case (2 rnd parent key vs k)
  obtain st1 k1 where c1: "compute_array_stats rnd k vs = (st1, k1)" by fastforce
  obtain st2 k2 where c2: "compute_array_stats rnd' k' vs = (st2, k2)" by fastforce
  have st: "strip_examples st1 = strip_examples st2"
    using compute_array_stats_strip[of rnd k vs rnd' k'] c1 c2 by simp
  show ?case
  proof (cases "\<exists>ob rest. vs = JObj ob # rest")
    case True
    then obtain ob rest where vs: "vs = JObj ob # rest" by blast
    obtain ps1 j1 where e1: "analyze_entries rnd ob ob [] k1 = (ps1, j1)" by fastforce
    obtain ps2 j2 where e2: "analyze_entries rnd' ob ob [] k2 = (ps2, j2)" by fastforce
    have "strip_dict ps1 = strip_dict ps2"
      using "2.IH"[OF refl c1[symmetric] refl refl vs refl, of "[]" rnd' k2] e1 e2 by simp
    then show ?thesis
      using c1 c2 e1 e2 st unfolding vs
      by (simp add: strip_examples_PDict strip_dict_update del: strip_examples.simps(1))
  next
    case False
    then have eq: "analyze_value r parent key (JArr vs) j =
               (let (st, j') = compute_array_stats r j vs in
                (PDict [(''type'', PStr ''array''),
                        (''element_type'', PStr (if vs \<noteq> [] \<and> list_all (\<lambda>x. isinstance x (py_type_of (hd vs))) vs
                                                 then type_name (py_type_of (hd vs)) else ''mixed'')),
                        (''stats'', st)], j'))" for r j
      by (cases vs; cases "hd vs") (auto simp: Let_def split: prod.split)
    show ?thesis
      unfolding eq by (simp add: c1 c2 st strip_examples_PDict del: strip_examples.simps(1))
  qed
next
  case (5 rnd parent key v rest schema k)
  obtain n1 j1 where a1: "analyze_value rnd parent key v k = (n1, j1)" by fastforce
  obtain n2 j2 where a2: "analyze_value rnd' parent key v k' = (n2, j2)" by fastforce
  have "strip_examples n1 = strip_examples n2" using "5.IH"(1)[of rnd' k'] a1 a2 by simp
  then have "strip_dict (dict_set schema key n1) = strip_dict (dict_set s2 key n2)"
    using "5.prems" by (simp add: strip_dict_update)
  then show ?case
    using "5.IH"(2)[OF a1[symmetric] refl, of "dict_set s2 key n2" rnd' j2] a1 a2 by simp
qed simp_all

lemma map_of_strip_dict:
  "map_of (strip_dict d) key = (if key = ''examples'' then None else map_option strip_examples (map_of d key))"
  by (induction d) auto

lemma strip_dict_keys:
  assumes "key \<noteq> ''examples''"
  shows "key \<in> fst ` set (strip_dict d) \<longleftrightarrow> key \<in> fst ` set d"
proof -
  have "key \<in> fst ` set (strip_dict d) \<longleftrightarrow> map_of (strip_dict d) key \<noteq> None"
    by (simp add: map_of_eq_None_iff)
  also have "\<dots> \<longleftrightarrow> map_of d key \<noteq> None" using assms by (simp add: map_of_strip_dict)
  also have "\<dots> \<longleftrightarrow> key \<in> fst ` set d" by (simp add: map_of_eq_None_iff)
  finally show ?thesis .
qed

lemma strip_dict_merge_new: "strip_dict (merge_new c s) = merge_new (strip_dict c) (strip_dict s)"
proof (induction c s rule: merge_new.induct)
  case (2 c key v rest)
  let ?c = "if key \<in> set (map fst c) then c else dict_set c key v"
  have step: "strip_dict (merge_new c ((key, v) # rest)) = merge_new (strip_dict ?c) (strip_dict rest)"
    using "2.IH" by (simp only: merge_new.simps)
  show ?case
  proof (cases "key = ''examples''")
    case True
    then have "strip_dict ?c = strip_dict c" by (simp add: strip_dict_update)
    then show ?thesis using step True by simp
  next
    case False
    then have "strip_dict ?c = (if key \<in> set (map fst (strip_dict c)) then strip_dict c
                                else dict_set (strip_dict c) key (strip_examples v))"
      by (simp add: strip_dict_update strip_dict_keys)
    then show ?thesis using step False by simp
  qed
qed simp

lemma combine_items_strip:
  "strip_dict c1 = strip_dict c2 \<Longrightarrow>
   strip_dict (fst (combine_items rnd items c1 k)) = strip_dict (fst (combine_items rnd' items c2 k'))"
proof (induction rnd items c1 k arbitrary: c2 k' rule: combine_items.induct)
  case (2 rnd ob rest c1 k)
  obtain s1 j1 where a1: "analyze_object rnd ob k = (s1, j1)" by fastforce
  obtain s2 j2 where a2: "analyze_object rnd' ob k' = (s2, j2)" by fastforce
  have "strip_dict s1 = strip_dict s2"
    using analyze_strip(2)[of "[]" "[]" rnd ob ob k rnd' k'] a1 a2 by (simp add: analyze_object_def)
  then have "strip_dict (merge_new c1 s1) = strip_dict (merge_new c2 s2)"
    using "2.prems" by (simp add: strip_dict_merge_new)
  then show ?case using "2.IH"[OF a1[symmetric] refl] a1 a2 by simp
qed simp_all

lemma analyze_entries_absent:
  "key \<notin> set (map fst items) \<Longrightarrow> map_of (fst (analyze_entries rnd p items s k)) key = map_of s key"
proof (induction items arbitrary: s k)
  case (Cons kv rest)
  then show ?case by (cases kv) (auto split: prod.split)
qed simp

lemma analyze_entries_lookup:
  "distinct (map fst items) \<Longrightarrow> map_of items key = Some v \<Longrightarrow>
   \<exists>j. map_of (fst (analyze_entries rnd p items s k)) key = Some (fst (analyze_value rnd p key v j))"
proof (induction items arbitrary: s k)
  case (Cons kv rest)
  obtain key' v' where kv: "kv = (key', v')" by fastforce
  obtain n j where a: "analyze_value rnd p key' v' k = (n, j)" by fastforce
  show ?case
  proof (cases "key' = key")
    case True
    then have "key \<notin> set (map fst rest)" "v' = v" using Cons.prems kv by auto
    then show ?thesis using True kv a analyze_entries_absent[of key rest rnd p "dict_set s key n" j]
      by (intro exI[of _ k]) simp
  next
    case False
    then show ?thesis using Cons kv a by simp
  qed
qed simp

lemma map_of_combine_items_strip:
  assumes "key \<noteq> ''examples''"
  shows "map_of (strip_dict (fst (combine_items rnd items c k))) key =
   (case map_of (strip_dict c) key of
      Some n \<Rightarrow> Some n
    | None \<Rightarrow> (case find (\<lambda>x. key \<in> set (obj_keys x)) items of
                Some (JObj ob) \<Rightarrow> map_of (strip_dict (fst (analyze_object rnd ob 0))) key
              | _ \<Rightarrow> None))"
proof (induction rnd items c k rule: combine_items.induct)
  case (2 rnd ob rest c k)
  obtain s j where a: "analyze_object rnd ob k = (s, j)" by fastforce
  have s: "strip_dict (fst (analyze_object rnd ob 0)) = strip_dict s"
    using analyze_strip(2)[of "[]" "[]" rnd ob ob 0 rnd k] a by (simp add: analyze_object_def)
  have ks: "map_of (strip_dict s) key = None \<longleftrightarrow> key \<notin> set (map fst ob)"
    using analyze_object_keys[of rnd ob k] a assms
    by (simp add: map_of_strip_dict map_of_eq_None_iff) (metis set_first_occ set_map)
  have IH: "map_of (strip_dict (fst (combine_items rnd (JObj ob # rest) c k))) key =
    (case map_of (strip_dict c) key of Some n \<Rightarrow> Some n
     | None \<Rightarrow> (case map_of (strip_dict s) key of Some n \<Rightarrow> Some n
        | None \<Rightarrow> (case find (\<lambda>x. key \<in> set (obj_keys x)) rest of
                    Some (JObj ob) \<Rightarrow> map_of (strip_dict (fst (analyze_object rnd ob 0))) key
                  | _ \<Rightarrow> None)))"
    using "2.IH"[OF a[symmetric] refl] a
    by (simp add: strip_dict_merge_new map_of_merge_new split: option.split)
  show ?case
    unfolding IH using ks by (auto simp: s split: option.split)
qed (simp_all split: option.split)

subsection \<open>Properties\<close>

text \<open>
  C4: The schema of a parsed object has exactly its keys, in their order, and the node of each key is the analysis of its value (with the draw counter reached at that key).
\<close>

lemma analyze_object_correct:
  assumes "wf_json (JObj ob)"
  shows "map fst (fst (analyze_object rnd ob k)) = map fst ob \<and>
         (\<forall>(key, v) \<in> set ob. \<exists>j. map_of (fst (analyze_object rnd ob k)) key = Some (fst (analyze_value rnd ob key v j)))"
proof -
  have d: "distinct (map fst ob)" using assms by simp
  have "\<exists>j. map_of (fst (analyze_object rnd ob k)) key = Some (fst (analyze_value rnd ob key v j))"
    if "(key, v) \<in> set ob" for key v
    using analyze_entries_lookup[OF d, of key v rnd ob "[]" k] d that
    by (simp add: analyze_object_def)
  then have "\<forall>(key, v) \<in> set ob. \<exists>j. map_of (fst (analyze_object rnd ob k)) key = Some (fst (analyze_value rnd ob key v j))"
    by blast
  moreover have "map fst (fst (analyze_object rnd ob k)) = map fst ob"
    using d by (simp add: analyze_object_keys first_occ_distinct)
  ultimately show ?thesis by (rule conjI[rotated])
qed

lemma analyze_object_correct_witness:
  "wf_json (JObj [(''a'', JInt 1), (''b'', JStr ''x'')]) \<and>
   map fst (fst (analyze_object (\<lambda>_. []) [(''a'', JInt 1), (''b'', JStr ''x'')] 0)) = [''a'', ''b'']"
  using analyze_object_correct[of "[(''a'', JInt 1), (''b'', JStr ''x'')]" "\<lambda>_. []" 0] by simp

text \<open>
  C5: The keys of the schema of a non-empty root array are the keys of its first ten elements that are objects, each at its first occurrence, followed by \<open>__array_stats\<close> (which stays in place when an element already has that key).
\<close>

lemma analyze_json_array_keys:
  assumes "vs \<noteq> []"
  shows "map fst (fst (analyze_json rnd (JArr vs) k))
       = (let ks = first_occ (concat (map obj_keys (take 10 vs)))
          in if ''__array_stats'' \<in> set ks then ks else ks @ [''__array_stats''])"
proof -
  obtain comb k1 where ck: "combine_items rnd (take 10 vs) [] k = (comb, k1)" by fastforce
  obtain st k2 where sk: "compute_array_stats rnd k1 vs = (st, k2)" by fastforce
  have "map fst comb = first_occ (concat (map obj_keys (take 10 vs)))"
    using combine_items_keys[of "[]" rnd "take 10 vs" k] ck by simp
  then show ?thesis using assms ck sk by (simp add: Let_def)
qed

lemma analyze_json_array_keys_witness:
  "[JObj [(''x'', JInt 1)], JObj [(''y'', JInt 2)]] \<noteq> [] \<and>
   map fst (fst (analyze_json (\<lambda>_. []) (JArr [JObj [(''x'', JInt 1)], JObj [(''y'', JInt 2)]]) 0))
     = [''x'', ''y'', ''__array_stats'']"
  using analyze_json_array_keys[of "[JObj [(''x'', JInt 1)], JObj [(''y'', JInt 2)]]" "\<lambda>_. []" 0]
  by (simp del: analyze_json.simps add: first_occ_def)

text \<open>
  C6: For a key of a root array, the schema is that of the first of its first ten elements that is an object with the key: later elements do not change it (up to the sampled examples).
\<close>

lemma analyze_json_first_wins:
  assumes "key \<noteq> ''__array_stats''" "key \<noteq> ''examples''"
    and "find (\<lambda>x. key \<in> set (obj_keys x)) (take 10 vs) = Some (JObj ob)"
  shows "map_of (strip_dict (fst (analyze_json rnd (JArr vs) k))) key =
         map_of (strip_dict (fst (analyze_object rnd ob 0))) key"
proof -
  obtain c j where a: "combine_items rnd (take 10 vs) [] k = (c, j)" by fastforce
  obtain st i where s: "compute_array_stats rnd j vs = (st, i)" by fastforce
  have "vs \<noteq> []" using assms(3) by auto
  then have "map_of (strip_dict (fst (analyze_json rnd (JArr vs) k))) key = map_of (strip_dict c) key"
    using a s assms(1,2) by (simp add: strip_dict_update map_of_strip_dict)
  also have "\<dots> = map_of (strip_dict (fst (analyze_object rnd ob 0))) key"
    using map_of_combine_items_strip[OF assms(2), of rnd "take 10 vs" "[]" k] a assms(3) by simp
  finally show ?thesis .
qed

lemma analyze_json_first_wins_witness:
  "''x'' \<noteq> ''__array_stats'' \<and> ''x'' \<noteq> ''examples'' \<and>
   find (\<lambda>x. ''x'' \<in> set (obj_keys x)) (take 10 [JObj [(''x'', JInt 1)], JObj [(''x'', JStr ''s'')]]) = Some (JObj [(''x'', JInt 1)]) \<and>
   map_of (strip_dict (fst (analyze_json (\<lambda>_. []) (JArr [JObj [(''x'', JInt 1)], JObj [(''x'', JStr ''s'')]]) 0))) ''x'' =
   map_of (strip_dict (fst (analyze_object (\<lambda>_. []) [(''x'', JInt 1)] 0))) ''x''"
  using analyze_json_first_wins[of "''x''" "[JObj [(''x'', JInt 1)], JObj [(''x'', JStr ''s'')]]" "[(''x'', JInt 1)]" "\<lambda>_. []" 0]
  by simp


text \<open>
  An array nested in an object whose first element is an object gets the properties of that first element only: the other elements are not merged in, unlike at the root.
\<close>

lemma nested_array_properties:
  "\<exists>ps. stat (fst (analyze_value rnd p key (JArr (JObj ob # rest)) k)) ''properties'' = Some (PDict ps) \<and>
        map fst ps = first_occ (map fst ob)"
proof -
  obtain st k1 where s: "compute_array_stats rnd k (JObj ob # rest) = (st, k1)" by fastforce
  obtain ps k2 where e: "analyze_entries rnd ob ob [] k1 = (ps, k2)" by fastforce
  have "map fst ps = first_occ (map fst ob)"
    using analyze_entries_keys[of "[]" rnd ob ob k1] e by simp
  then show ?thesis using s e by (simp add: stat_def Let_def)
qed

text \<open>
  C7: Schema inference is deterministic once the \<open>examples\<close> entries are removed: any two draw sources and counters give the same schema.
\<close>

lemma analyze_json_deterministic:
  "strip_dict (fst (analyze_json rnd v k)) = strip_dict (fst (analyze_json rnd' v k'))"
proof (cases v)
  case (JObj ob)
  then show ?thesis
    using analyze_strip(2)[of "[]" "[]" rnd ob ob k rnd' k'] by (simp add: analyze_object_def)
next
  case (JArr vs)
  obtain c1 j1 where a1: "combine_items rnd (take 10 vs) [] k = (c1, j1)" by fastforce
  obtain c2 j2 where a2: "combine_items rnd' (take 10 vs) [] k' = (c2, j2)" by fastforce
  obtain st1 i1 where s1: "compute_array_stats rnd j1 vs = (st1, i1)" by fastforce
  obtain st2 i2 where s2: "compute_array_stats rnd' j2 vs = (st2, i2)" by fastforce
  have "strip_dict c1 = strip_dict c2"
    using combine_items_strip[of "[]" "[]" rnd "take 10 vs" k rnd' k'] a1 a2 by simp
  moreover have "strip_examples st1 = strip_examples st2"
    using compute_array_stats_strip[of rnd j1 vs rnd' j2] s1 s2 by simp
  ultimately show ?thesis using JArr a1 a2 s1 s2 by (simp add: strip_dict_update)
qed simp_all

text \<open>
  C8: With the \<open>examples\<close> kept it is not: two valid results of \<open>random.sample\<close> give two different schemas for the same array of six strings.
\<close>

lemma analyze_json_draws:
  "valid_sample 6 [1, 2, 3] \<and> valid_sample 6 [2, 3, 4] \<and>
   analyze_json (\<lambda>_. [1, 2, 3]) (JArr (map JStr [''a'', ''b'', ''c'', ''d'', ''e'', ''f''])) 0 \<noteq>
   analyze_json (\<lambda>_. [2, 3, 4]) (JArr (map JStr [''a'', ''b'', ''c'', ''d'', ''e'', ''f''])) 0"
proof -
  let ?arr = "map JStr [''a'', ''b'', ''c'', ''d'', ''e'', ''f'']"
  let ?st = "[(''count'', PInt 6), (''uniform_type'', PBool True)]"
  have e: "map_of (fst (analyze_json r (JArr (map JStr [''a'', ''b'', ''c'', ''d'', ''e'', ''f''])) 0)) ''__array_stats'' =
           Some (PDict (string_stats (map str_of ?arr) ?arr (r 0) ?st))" for r
    by (simp add: compute_array_stats_string)
  have x: "map_of (string_stats (map str_of ?arr) ?arr smp ?st) ''examples'' =
           Some (PList (map (\<lambda>i. py_of_json (?arr ! i)) ([0, 5] @ smp)))" for smp
    using string_stats_examples[of "map str_of ?arr" ?arr smp ?st] by simp
  have "analyze_json (\<lambda>_. [1, 2, 3]) (JArr (map JStr [''a'', ''b'', ''c'', ''d'', ''e'', ''f''])) 0 \<noteq> analyze_json (\<lambda>_. [2, 3, 4]) (JArr (map JStr [''a'', ''b'', ''c'', ''d'', ''e'', ''f''])) 0"
  proof
    assume "analyze_json (\<lambda>_. [1, 2, 3]) (JArr (map JStr [''a'', ''b'', ''c'', ''d'', ''e'', ''f''])) 0 = analyze_json (\<lambda>_. [2, 3, 4]) (JArr (map JStr [''a'', ''b'', ''c'', ''d'', ''e'', ''f''])) 0"
    then have "string_stats (map str_of ?arr) ?arr [1, 2, 3] ?st = string_stats (map str_of ?arr) ?arr [2, 3, 4] ?st"
      using e[of "\<lambda>_. [1, 2, 3]"] e[of "\<lambda>_. [2, 3, 4]"] by simp
    then show False using x[of "[1, 2, 3]"] x[of "[2, 3, 4]"] by simp
  qed
  then show ?thesis by (simp add: valid_sample_def)
qed

end
