(* ===== verification/History.thy ===== *)
theory History
  imports Prelude
begin

text \<open>
  The query line with its history, \<open>JqQueryInput\<close> of src/gui.py (lines
  95-163): a \<open>QLineEdit\<close> that keeps the queries run so far (at most 50, no
  empty query, never the same query twice in a row) and browses them with the
  arrow keys. The state is the widget's text and cursor and the three fields
  the class adds; \<open>key_press\<close> is \<open>keyPressEvent\<close>, and returns with the new
  state the calls it makes on the main window.
\<close>

record query_input =
  qi_text :: string
  qi_cursor :: nat
  history :: "string list"
  history_index :: int
  current_input :: string

text \<open>The keys \<open>keyPressEvent\<close> tells apart; any other key is handled by
  \<open>QLineEdit\<close> itself, given here by the text and cursor it leaves.\<close>

datatype key = Key_Up | Key_Down | Key_Escape | Key_Return | Key_Enter | Key_Other string nat

text \<open>The calls on \<open>parent_window\<close>.\<close>

datatype window_call = Reset_to_original_json | Run_jq_query

definition init_query_input :: query_input where
  "init_query_input = \<lparr>qi_text = [], qi_cursor = 0, history = [], history_index = -1, current_input = []\<rparr>"

text \<open>\<open>QLineEdit.setText\<close> moves the cursor to the end of the line.\<close>

definition set_text :: "string \<Rightarrow> query_input \<Rightarrow> query_input" where
  "set_text t s = s\<lparr>qi_text := t, qi_cursor := length t\<rparr>"

definition add_to_history :: "string \<Rightarrow> query_input \<Rightarrow> query_input" where
  "add_to_history q s =
     (if q \<noteq> [] \<and> (history s = [] \<or> q \<noteq> last (history s)) then
        (let h = history s @ [q] in
         s\<lparr>history := (if length h > 50 then drop (length h - 50) h else h)\<rparr>)
      else s)"

definition navigate_history :: "int \<Rightarrow> query_input \<Rightarrow> query_input" where
  "navigate_history direction s =
     (if history s = [] then s
      else
        (let s1 = (if history_index s = -1 then s\<lparr>current_input := qi_text s\<rparr> else s);
             n = int (length (history s));
             new_index0 = history_index s + direction;
             new_index = (if new_index0 \<ge> n then n - 1 else if new_index0 < -1 then -1 else new_index0);
             s2 = s1\<lparr>history_index := new_index\<rparr>;
             s3 = (if new_index = -1 then set_text (current_input s2) s2
                   else set_text (history s ! nat (n - 1 - new_index)) s2)
         in s3\<lparr>qi_cursor := length (qi_text s3)\<rparr>))"

text \<open>
  \<open>keyPressEvent(event)\<close>; \<open>has_parent\<close> is \<open>self.parent_window\<close> being set
  and \<open>has_file\<close> the window's \<open>current_json_file\<close> being set.
\<close>

fun key_press :: "bool \<Rightarrow> bool \<Rightarrow> key \<Rightarrow> query_input \<Rightarrow> query_input \<times> window_call list" where
  "key_press has_parent has_file Key_Up s = (navigate_history 1 s, [])"
| "key_press has_parent has_file Key_Down s = (navigate_history (-1) s, [])"
| "key_press has_parent has_file Key_Escape s =
     (s\<lparr>qi_text := [], qi_cursor := 0\<rparr>, if has_parent \<and> has_file then [Reset_to_original_json] else [])"
| "key_press has_parent has_file (Key_Other t c) s = (s\<lparr>qi_text := t, qi_cursor := c\<rparr>, [])"
| "key_press has_parent has_file _ s =
     (let query = py_strip (qi_text s);
          s1 = (if query \<noteq> [] \<and> history s = [] \<or> history s \<noteq> [] \<and> query \<noteq> last (history s)
                then add_to_history query s else s)
      in (s1\<lparr>history_index := -1\<rparr>, if has_parent then [Run_jq_query] else []))"

text \<open>The states the widget reaches from its construction, whatever keys are pressed.\<close>

inductive reachable :: "query_input \<Rightarrow> bool" where
  init: "reachable init_query_input"
| step: "reachable s \<Longrightarrow> reachable (fst (key_press p f key s))"

text \<open>The invariant of the history.\<close>

definition history_ok :: "query_input \<Rightarrow> bool" where
  "history_ok s = (length (history s) \<le> 50 \<and> distinct_adj (history s) \<and> [] \<notin> set (history s) \<and>
                   -1 \<le> history_index s \<and> history_index s < int (length (history s)))"

subsection \<open>Lemmas\<close>

lemma distinct_adj_snoc: "distinct_adj h \<Longrightarrow> (h = [] \<or> q \<noteq> last h) \<Longrightarrow> distinct_adj (h @ [q])"
  by (auto simp: distinct_adj_append_iff)

lemma distinct_adj_drop: "distinct_adj h \<Longrightarrow> distinct_adj (drop n h)"
  using distinct_adj_appendD2[of "take n h" "drop n h"] by simp

lemma add_to_history_fields [simp]:
  "qi_text (add_to_history q s) = qi_text s"
  "qi_cursor (add_to_history q s) = qi_cursor s"
  "history_index (add_to_history q s) = history_index s"
  "current_input (add_to_history q s) = current_input s"
  by (simp_all add: add_to_history_def Let_def)

lemma add_to_history_ok:
  assumes "history_ok s"
  shows "history_ok (add_to_history q s)"
proof (cases "q \<noteq> [] \<and> (history s = [] \<or> q \<noteq> last (history s))")
  case True
  let ?h = "history s @ [q]"
  have h: "distinct_adj ?h" "[] \<notin> set ?h" "length (history s) \<le> 50"
    using assms True by (auto simp: history_ok_def intro: distinct_adj_snoc)
  let ?h' = "if length ?h > 50 then drop (length ?h - 50) ?h else ?h"
  have "distinct_adj ?h'" "[] \<notin> set ?h'" "length ?h' \<le> 50" "length (history s) \<le> length ?h'"
    using h distinct_adj_drop[OF h(1), of "length ?h - 50"] by (auto dest: in_set_dropD)
  then show ?thesis using assms True by (simp add: history_ok_def add_to_history_def Let_def)
next
  case False
  then have "add_to_history q s = s" by (auto simp: add_to_history_def)
  then show ?thesis using assms by simp
qed

lemma navigate_history_ok:
  assumes "history_ok s"
  shows "history_ok (navigate_history d s)"
  using assms by (auto simp: history_ok_def navigate_history_def Let_def set_text_def)

lemma key_press_ok:
  assumes "history_ok s"
  shows "history_ok (fst (key_press p f key s))"
proof (cases key)
  case Key_Up
  then show ?thesis using assms by (simp add: navigate_history_ok)
next
  case Key_Down
  then show ?thesis using assms by (simp add: navigate_history_ok)
next
  case Key_Escape
  then show ?thesis using assms by (simp add: history_ok_def)
next
  case (Key_Other t c)
  then show ?thesis using assms by (simp add: history_ok_def)
next
  case Key_Return
  then show ?thesis using assms add_to_history_ok[OF assms] by (simp add: history_ok_def Let_def)
next
  case Key_Enter
  then show ?thesis using assms add_to_history_ok[OF assms] by (simp add: history_ok_def Let_def)
qed

lemma navigate_up_from:
  assumes "history s \<noteq> []" "0 \<le> history_index s" "history_index s < int (length (history s))"
  shows "history (navigate_history 1 s) = history s \<and>
         history_index (navigate_history 1 s) = min (history_index s + 1) (int (length (history s)) - 1) \<and>
         qi_text (navigate_history 1 s) =
           history s ! nat (int (length (history s)) - 1 - min (history_index s + 1) (int (length (history s)) - 1))"
  using assms by (simp add: navigate_history_def Let_def set_text_def min_def)

lemma min_int_step: "0 < L \<Longrightarrow> min (int (min n (L - 1)) + 1) (int L - 1) = int (min (Suc n) (L - 1))"
  by (auto simp: min_def)

lemma navigate_ignores_text:
  "history s \<noteq> [] \<Longrightarrow> history_index s \<noteq> -1 \<Longrightarrow> navigate_history d (s\<lparr>qi_text := t, qi_cursor := c\<rparr>) = navigate_history d s"
  by (simp add: navigate_history_def Let_def set_text_def)

subsection \<open>Properties\<close>

text \<open>
  C11: Every state the query line reaches keeps at most 50 queries, none empty, no query twice in a row, and a history position between -1 (the line being edited) and the oldest entry.
\<close>

lemma reachable_history_ok: "reachable s \<Longrightarrow> history_ok s"
proof (induction rule: reachable.induct)
  case init
  then show ?case by (simp add: history_ok_def init_query_input_def)
next
  case (step s p f key)
  show ?case using key_press_ok[OF step.IH] .
qed

lemma reachable_history_ok_witness:
  "reachable (fst (key_press True True Key_Return (fst (key_press True True (Key_Other '' .a '' 4) init_query_input)))) \<and>
   history_ok (fst (key_press True True Key_Return (fst (key_press True True (Key_Other '' .a '' 4) init_query_input))))"
proof -
  have r: "reachable (fst (key_press True True Key_Return (fst (key_press True True (Key_Other '' .a '' 4) init_query_input))))"
    by (intro reachable.step reachable.init)
  show ?thesis using r reachable_history_ok[OF r] by simp
qed

text \<open>
  C12: Return and Enter record the stripped text with \<open>add_to_history\<close> alone: the extra test in \<open>keyPressEvent\<close> changes nothing. The history position goes back to the edited line and the query is run when the widget has a window.
\<close>

lemma enter_uses_add_to_history:
  "key \<in> {Key_Return, Key_Enter} \<Longrightarrow>
   key_press p f key s = ((add_to_history (py_strip (qi_text s)) s)\<lparr>history_index := -1\<rparr>,
                          if p then [Run_jq_query] else [])"
  by (auto simp: add_to_history_def Let_def)

lemma enter_uses_add_to_history_witness:
  "Key_Enter \<in> {Key_Return, Key_Enter} \<and>
   key_press True False Key_Enter (init_query_input\<lparr>qi_text := '' .b''\<rparr>) =
   ((add_to_history ''.b'' (init_query_input\<lparr>qi_text := '' .b''\<rparr>))\<lparr>history_index := -1\<rparr>, [Run_jq_query])"
  using enter_uses_add_to_history[of Key_Enter True False "init_query_input\<lparr>qi_text := '' .b''\<rparr>"]
  by (simp add: py_defs)

text \<open>
  After Return on a non-blank line, the newest history entry is the stripped line and the position is back on the edited line.
\<close>

lemma enter_records_query:
  assumes "py_strip (qi_text s) \<noteq> []"
  shows "last (history (fst (key_press p f Key_Return s))) = py_strip (qi_text s) \<and>
         history_index (fst (key_press p f Key_Return s)) = -1"
  using assms by (auto simp: add_to_history_def Let_def)

lemma enter_records_query_witness:
  "py_strip (qi_text (init_query_input\<lparr>qi_text := ''.a ''\<rparr>)) \<noteq> [] \<and>
   last (history (fst (key_press True True Key_Return (init_query_input\<lparr>qi_text := ''.a ''\<rparr>)))) = ''.a''"
  using enter_records_query[of "init_query_input\<lparr>qi_text := ''.a ''\<rparr>" True True]
  by (simp add: py_defs init_query_input_def)

text \<open>
  C13: Up then Down from the edited line brings its text back and returns to position -1.
\<close>

lemma history_up_down:
  assumes "history s \<noteq> []" "history_index s = -1"
  shows "qi_text (navigate_history (-1) (navigate_history 1 s)) = qi_text s \<and>
         history_index (navigate_history (-1) (navigate_history 1 s)) = -1"
  using assms by (simp add: navigate_history_def Let_def set_text_def)

lemma history_up_down_witness:
  "history (init_query_input\<lparr>history := [''.a''], qi_text := ''x''\<rparr>) \<noteq> [] \<and>
   history_index (init_query_input\<lparr>history := [''.a''], qi_text := ''x''\<rparr>) = -1 \<and>
   qi_text (navigate_history (-1) (navigate_history 1 (init_query_input\<lparr>history := [''.a''], qi_text := ''x''\<rparr>))) = ''x''"
  using history_up_down[of "init_query_input\<lparr>history := [''.a''], qi_text := ''x''\<rparr>"]
  by (simp add: init_query_input_def)

text \<open>
  C14: Pressing Up n + 1 times from the edited line shows the (n + 1)-th newest query, and stays on the oldest one once the history is exhausted.
\<close>

lemma history_up_n:
  assumes "history s \<noteq> []" "history_index s = -1"
  shows "history_index ((navigate_history 1 ^^ Suc n) s) = int (min n (length (history s) - 1)) \<and>
         qi_text ((navigate_history 1 ^^ Suc n) s) = history s ! (length (history s) - 1 - min n (length (history s) - 1))"
proof (induction n)
  case 0
  have "nat (int (length (history s)) - 1) = length (history s) - Suc 0" by arith
  then show ?case using assms by (simp add: navigate_history_def Let_def set_text_def)
next
  case (Suc n)
  let ?t = "(navigate_history 1 ^^ Suc n) s"
  let ?L = "length (history s)"
  have h: "history ((navigate_history 1 ^^ m) s) = history s" for m
    by (induction m) (simp_all add: navigate_history_def Let_def set_text_def)
  have "?L - 1 < ?L" using assms(1) by simp
  then have lt: "min n (?L - 1) < ?L" by (rule le_less_trans[OF min.cobounded2])
  have i: "history_index ?t = int (min n (?L - 1))" using Suc by simp
  have "0 \<le> history_index ?t" "history_index ?t < int (length (history ?t))"
    using i h[of "Suc n"] lt by simp_all
  then have step: "history_index (navigate_history 1 ?t) = min (history_index ?t + 1) (int ?L - 1) \<and>
         qi_text (navigate_history 1 ?t) = history s ! nat (int ?L - 1 - min (history_index ?t + 1) (int ?L - 1))"
    using navigate_up_from[of ?t] h[of "Suc n"] assms(1) by simp
  have m: "min (int (min n (?L - 1)) + 1) (int ?L - 1) = int (min (Suc n) (?L - 1))"
    using min_int_step[of ?L n] assms(1) by simp
  have "nat (int ?L - 1 - int (min (Suc n) (?L - 1))) = ?L - 1 - min (Suc n) (?L - 1)"
    by arith
  then show ?case using step unfolding i m by simp
qed

lemma history_up_n_witness:
  "history (init_query_input\<lparr>history := [''.a'', ''.b'']\<rparr>) \<noteq> [] \<and>
   history_index (init_query_input\<lparr>history := [''.a'', ''.b'']\<rparr>) = -1 \<and>
   qi_text ((navigate_history 1 ^^ Suc 5) (init_query_input\<lparr>history := [''.a'', ''.b'']\<rparr>)) = ''.a''"
  using history_up_n[of "init_query_input\<lparr>history := [''.a'', ''.b'']\<rparr>" 5]
  by (simp add: init_query_input_def)

text \<open>
  C15: Escape clears the line but does not end browsing: while the history is being
  browsed, any keys that start with Up or Down lead to the same state whether or not
  Escape was pressed before them, so Down brings back the text typed before browsing
  instead of leaving the line empty.
\<close>

theorem escape_keeps_browsing:
  assumes "history s \<noteq> []" "history_index s \<noteq> -1" "k \<in> {Key_Up, Key_Down}"
  shows "fold (\<lambda>key t. fst (key_press p f key t)) (k # ks) (fst (key_press p f Key_Escape s)) =
         fold (\<lambda>key t. fst (key_press p f key t)) (k # ks) s"
  using assms navigate_ignores_text[OF assms(1,2)] by auto

lemma escape_keeps_browsing_witness:
  "history (init_query_input\<lparr>history := [''.a'', ''.b''], history_index := 1, current_input := ''abc''\<rparr>) \<noteq> [] \<and>
   history_index (init_query_input\<lparr>history := [''.a'', ''.b''], history_index := 1, current_input := ''abc''\<rparr>) \<noteq> -1 \<and>
   Key_Down \<in> {Key_Up, Key_Down} \<and>
   qi_text (fold (\<lambda>key t. fst (key_press True True key t)) [Key_Down, Key_Down] (fst (key_press True True Key_Escape
      (init_query_input\<lparr>history := [''.a'', ''.b''], history_index := 1, current_input := ''abc''\<rparr>)))) = ''abc''"
proof -
  let ?s = "init_query_input\<lparr>history := [''.a'', ''.b''], history_index := 1, current_input := ''abc''\<rparr>"
  have "fold (\<lambda>key t. fst (key_press True True key t)) [Key_Down, Key_Down] (fst (key_press True True Key_Escape ?s)) =
        fold (\<lambda>key t. fst (key_press True True key t)) [Key_Down, Key_Down] ?s"
    using escape_keeps_browsing[of ?s Key_Down True True "[Key_Down]"] by (simp add: init_query_input_def)
  then show ?thesis by (simp add: init_query_input_def navigate_history_def set_text_def Let_def)
qed

end
