(* ===== verification/Chat.thy ===== *)
theory Chat
  imports Prelude
begin

text \<open>
  The chat assistant's side of query generation, \<open>ChatWidget\<close> of src/gui.py:
  \<open>get_response\<close> (lines 880-971) asks the model, takes the first line of the
  answer that looks like a jq filter, repairs it with \<open>_fix_jq_syntax\<close> (lines
  984-1014) and emits it. The four regular expressions of \<open>_fix_jq_syntax\<close> are
  written as anchored matchers on the rest of the string and \<open>re.search\<close> as
  the leftmost position where the matcher succeeds. The model calls are
  parameters: \<open>ollama\<close> gives the output of \<open>ollama run\<close> or the exception
  raised, \<open>llm_call\<close> the exception raised by the \<open>llm\<close> library or the
  \<open>Response\<close> object it returns (\<open>py_response\<close>).
\<close>

subsection \<open>Regular expressions of \<open>_fix_jq_syntax\<close>\<close>

text \<open>A literal.\<close>

definition lit :: "string \<Rightarrow> string \<Rightarrow> string option" where
  "lit p s = (if startswith s p then Some (drop (length p) s) else None)"

text \<open>\<open>\s+\<close> (greedy; every pattern continues with a non-space character).\<close>

definition ws_plus :: "string \<Rightarrow> string option" where
  "ws_plus s = (if s \<noteq> [] \<and> py_isspace (hd s) then Some (dropWhile py_isspace s) else None)"

text \<open>The group \<open>(\.\w+[\.\w+]*)\<close>: a dot, a word character, then the longest run of
  word characters, dots and plus signs.\<close>

definition field_char :: "char \<Rightarrow> bool" where
  "field_char c = (py_isword c \<or> c = CHR ''.'' \<or> c = CHR ''+'')"

fun field_re :: "string \<Rightarrow> string option" where
  "field_re (d # c # cs) =
     (if d = CHR ''.'' \<and> py_isword c then Some (d # takeWhile field_char (c # cs)) else None)"
| "field_re _ = None"

text \<open>\<open>sort\s+-r\s+--key=(\.\w+[\.\w+]*)\<close>\<close>

definition m_sort_r_key :: "string \<Rightarrow> string option" where
  "m_sort_r_key s =
     Option.bind (lit ''sort'' s) (\<lambda>s. Option.bind (ws_plus s) (\<lambda>s. Option.bind (lit ''-r'' s)
       (\<lambda>s. Option.bind (ws_plus s) (\<lambda>s. Option.bind (lit ''--key='' s) field_re))))"

text \<open>\<open>sort\s+--key=(\.\w+[\.\w+]*)\<close>\<close>

definition m_sort_key :: "string \<Rightarrow> string option" where
  "m_sort_key s =
     Option.bind (lit ''sort'' s) (\<lambda>s. Option.bind (ws_plus s) (\<lambda>s. Option.bind (lit ''--key='' s) field_re))"

text \<open>\<open>sort\s+-r\b\<close>: the match ends at a word boundary.\<close>

definition m_sort_r_b :: "string \<Rightarrow> string option" where
  "m_sort_r_b s =
     Option.bind (lit ''sort'' s) (\<lambda>s. Option.bind (ws_plus s) (\<lambda>s. Option.bind (lit ''-r'' s)
       (\<lambda>s. if s = [] \<or> \<not> py_isword (hd s) then Some [] else None)))"

text \<open>\<open>sort\s+-r\s+(\.\w+[\.\w+]*)\<close>\<close>

definition m_sort_r_field :: "string \<Rightarrow> string option" where
  "m_sort_r_field s =
     Option.bind (lit ''sort'' s) (\<lambda>s. Option.bind (ws_plus s) (\<lambda>s. Option.bind (lit ''-r'' s)
       (\<lambda>s. Option.bind (ws_plus s) field_re)))"

text \<open>\<open>re.search(pattern, s)\<close>: the group of the leftmost match.\<close>

fun re_search :: "(string \<Rightarrow> string option) \<Rightarrow> string \<Rightarrow> string option" where
  "re_search m [] = m []"
| "re_search m (c # cs) = (case m (c # cs) of Some g \<Rightarrow> Some g | None \<Rightarrow> re_search m cs)"

subsection \<open>Repair and extraction\<close>

definition fix_jq_syntax :: "string \<Rightarrow> string" where
  "fix_jq_syntax query =
     (let q1 = (if str_contains query ''--key='' then
                  (case re_search m_sort_r_key query of
                     Some field \<Rightarrow> py_replace query (''sort -r --key='' @ field) (''sort_by('' @ field @ '') | reverse'')
                   | None \<Rightarrow>
                       (case re_search m_sort_key query of
                          Some field \<Rightarrow> py_replace query (''sort --key='' @ field) (''sort_by('' @ field @ '')'')
                        | None \<Rightarrow> query))
                else query)
      in if re_search m_sort_r_b q1 \<noteq> None then
           (case re_search m_sort_r_field q1 of
              Some field \<Rightarrow> py_replace q1 (''sort -r '' @ field) (''sort_by('' @ field @ '') | reverse'')
            | None \<Rightarrow> py_replace q1 ''sort -r'' ''sort | reverse'')
         else q1)"

text \<open>The prefixes that mark a line of prose.\<close>

definition prose_prefixes :: "string list" where
  "prose_prefixes = [''This'', ''Here'', ''The'', ''I'', ''#'', ''*'', ''-'', ''1.'', ''2.'']"

definition looks_like_query :: "string \<Rightarrow> bool" where
  "looks_like_query line =
     (line \<noteq> [] \<and> \<not> startswith_any line prose_prefixes \<and> (str_contains line ''|'' \<or> str_contains line ''.''))"

text \<open>The loop over \<open>response.split('\n')\<close>: the first stripped line that looks like a query.\<close>

definition extract_jq_query :: "string \<Rightarrow> string option" where
  "extract_jq_query response = find looks_like_query (map py_strip (split_on (CHR 0x0A) response))"

subsection \<open>\<open>send_message\<close> and \<open>get_response\<close>\<close>

text \<open>
  What the chat widget does to its display and to the rest of the program:
  a paragraph appended, the display rewritten (\<open>update_html_signal\<close>, with the
  "Generating response..." paragraph removed), or one of the two query signals.
\<close>

datatype chat_event =
    Append_text string
  | Update_html
  | Query_generated string
  | Generate_query_signal string

definition generating_span :: "string \<Rightarrow> string" where
  "generating_span gid = ''<span id='' @ [CHR 0x27] @ gid @ [CHR 0x27] @ ''><i>Generating response...</i></span>''"

text \<open>
  \<open>send_message()\<close>: the input text, the selected model and the id drawn by
  \<open>random.randint\<close>; it returns the new input text, what it appends, and the
  arguments of the thread it starts (None when the message is blank).
\<close>

definition send_message :: "string \<Rightarrow> string \<Rightarrow> string \<Rightarrow>
    string \<times> chat_event list \<times> (string \<times> string \<times> string) option" where
  "send_message input model_name gid =
     (let message = py_strip input in
      if message = [] then (input, [], None)
      else ([], [Append_text (''<b>You:</b> '' @ message), Append_text (generating_span gid)],
            Some (message, model_name, gid)))"

text \<open>
  The keys \<open>ChatInputTextEdit.keyPressEvent\<close> tells apart: Return, with or
  without Shift, and every other key (the keypad's Enter included).
\<close>

datatype chat_key = Chat_return bool | Chat_other_key

text \<open>
  \<open>ChatInputTextEdit.keyPressEvent\<close> (lines 1024-1028): Return without Shift calls
  \<open>send_message\<close>; any other key goes to \<open>QPlainTextEdit\<close>'s own editing,
  given as \<open>edit\<close>.
\<close>

definition chat_input_key :: "chat_key \<Rightarrow> (string \<Rightarrow> string) \<Rightarrow> string \<Rightarrow> string \<Rightarrow> string \<Rightarrow>
    string \<times> chat_event list \<times> (string \<times> string \<times> string) option" where
  "chat_input_key k edit input model_name gid =
     (case k of
        Chat_return shift \<Rightarrow> if \<not> shift then send_message input model_name gid else (edit input, [], None)
      | Chat_other_key \<Rightarrow> (edit input, [], None))"

text \<open>The \<open>except\<close> branch of \<open>get_response\<close>.\<close>

definition error_events :: "string \<Rightarrow> chat_event list" where
  "error_events e =
     [Update_html, Append_text (''<i>Error: '' @ e @ ''</i>''),
      Append_text ''<i>Try selecting a different model from the dropdown.</i>'']"

text \<open>
  What \<open>get_response\<close> holds in \<open>response\<close>: the stripped output of
  \<open>ollama run\<close>, a \<open>str\<close>, or the \<open>Response\<close> object of the \<open>llm\<close>
  library. Formatting a \<open>Response\<close> (\<open>f"{response}"\<close>) runs the prompt and
  gives its text, or raises the exception the model raises.
\<close>

datatype py_response = Response_str string | Response_llm "string + string"

text \<open>\<open>f"{response}"\<close> (line 949).\<close>

definition response_text :: "py_response \<Rightarrow> string + string" where
  "response_text r = (case r of Response_str s \<Rightarrow> Inr s | Response_llm t \<Rightarrow> t)"

text \<open>\<open>response.split('\n')\<close> (line 952): a \<open>Response\<close> has no \<open>split\<close>.\<close>

definition response_split :: "py_response \<Rightarrow> string + string list" where
  "response_split r =
     (case r of
        Response_str s \<Rightarrow> Inr (split_on (CHR 0x0A) s)
      | Response_llm _ \<Rightarrow> Inl ([CHR 0x27] @ ''Response'' @ [CHR 0x27] @ '' object has no attribute '' @
                               [CHR 0x27] @ ''split'' @ [CHR 0x27]))"

text \<open>
  \<open>get_response(message, model_name, generating_id)\<close>. \<open>ollama m msg\<close> is the
  stripped output of \<open>ollama run m prompt\<close> or the text of the exception it
  raises; \<open>llm_call m msg\<close> is the exception raised by
  \<open>llm.get_model(m).prompt(prompt)\<close>, or the \<open>Response\<close> it returns, given
  by what formatting it gives. Both branches then run the same code on
  \<open>response\<close>; an exception there is reported by the outer \<open>except\<close>.
\<close>

definition get_response :: "(string \<Rightarrow> string \<Rightarrow> string + string) \<Rightarrow>
    (string \<Rightarrow> string \<Rightarrow> string + (string + string)) \<Rightarrow> string \<Rightarrow> string \<Rightarrow> chat_event list" where
  "get_response ollama llm_call message model_name =
     (case (if startswith model_name ''ollama:'' then map_sum id Response_str (ollama (drop 7 model_name) message)
            else map_sum id Response_llm (llm_call model_name message)) of
        Inl e \<Rightarrow> error_events (''Error getting response from model: '' @ e)
      | Inr response \<Rightarrow>
          Update_html #
          (case response_text response of
             Inl e \<Rightarrow> error_events e
           | Inr text \<Rightarrow>
               Append_text (''<b>Assistant:</b> '' @ text) #
               (case response_split response of
                  Inl e \<Rightarrow> error_events e
                | Inr lines \<Rightarrow>
                    (case find looks_like_query (map py_strip lines) of
                       None \<Rightarrow> []
                     | Some q \<Rightarrow>
                         (let jq_query = fix_jq_syntax q in
                          [Append_text (''<i>Generated query: <code>'' @ jq_query @ ''</code></i>''),
                           Query_generated jq_query, Generate_query_signal jq_query])))))"

text \<open>The queries a list of events hands to the rest of the program.\<close>

fun emitted_query :: "chat_event \<Rightarrow> string option" where
  "emitted_query (Query_generated q) = Some q"
| "emitted_query (Generate_query_signal q) = Some q"
| "emitted_query _ = None"

definition emitted_queries :: "chat_event list \<Rightarrow> string list" where
  "emitted_queries evs = List.map_filter emitted_query evs"

subsection \<open>Lemmas\<close>

lemmas fix_jq_defs = fix_jq_syntax_def m_sort_r_key_def m_sort_key_def m_sort_r_b_def m_sort_r_field_def
  lit_def ws_plus_def field_char_def

lemmas get_response_defs = get_response_def response_text_def response_split_def

lemma lit_sort_prefix: "Option.bind (lit ''sort'' s) f \<noteq> None \<Longrightarrow> startswith s ''sort''"
  by (auto simp: lit_def split: if_splits)

lemma matchers_start_with_sort:
  "m_sort_r_key s \<noteq> None \<Longrightarrow> startswith s ''sort''"
  "m_sort_key s \<noteq> None \<Longrightarrow> startswith s ''sort''"
  "m_sort_r_b s \<noteq> None \<Longrightarrow> startswith s ''sort''"
  "m_sort_r_field s \<noteq> None \<Longrightarrow> startswith s ''sort''"
  unfolding m_sort_r_key_def m_sort_key_def m_sort_r_b_def m_sort_r_field_def
  by (erule lit_sort_prefix)+

lemma re_search_contains:
  assumes "\<And>x. m x \<noteq> None \<Longrightarrow> startswith x p" "p \<noteq> []"
  shows "re_search m s \<noteq> None \<Longrightarrow> str_contains s p"
proof (induction s)
  case Nil
  then show ?case using assms(1)[of "[]"] assms(2) by (cases p) auto
next
  case (Cons c cs)
  then show ?case using assms(1)[of "c # cs"] by (auto split: option.splits)
qed

lemma re_search_no_sort:
  assumes "\<not> str_contains s ''sort''"
  shows "re_search m_sort_r_key s = None" "re_search m_sort_key s = None"
        "re_search m_sort_r_b s = None" "re_search m_sort_r_field s = None"
  using assms re_search_contains[of _ "''sort''" s] matchers_start_with_sort by blast+

subsection \<open>Properties\<close>

text \<open>
  A query that does not contain \<open>sort\<close> leaves \<open>_fix_jq_syntax\<close> unchanged: none of its patterns can match.
\<close>

lemma fix_jq_syntax_no_sort:
  assumes "\<not> str_contains q ''sort''"
  shows "fix_jq_syntax q = q"
  using re_search_no_sort[OF assms] by (simp add: fix_jq_syntax_def)

lemma fix_jq_syntax_no_sort_witness:
  "\<not> str_contains ''.[] | length'' ''sort'' \<and> fix_jq_syntax ''.[] | length'' = ''.[] | length''"
  using fix_jq_syntax_no_sort[of "''.[] | length''"] by simp

text \<open>
  The repairs \<open>_fix_jq_syntax\<close> is written for: \<open>sort -r .f\<close> and \<open>sort -r --key=.f\<close> become \<open>sort_by(.f) | reverse\<close>, \<open>sort --key=.f\<close> becomes \<open>sort_by(.f)\<close> and a bare \<open>sort -r\<close> becomes \<open>sort | reverse\<close>.
\<close>

lemma fix_jq_syntax_sort_r:
  "fix_jq_syntax ''.[] | sort -r .date'' = ''.[] | sort_by(.date) | reverse'' \<and>
   fix_jq_syntax ''sort -r --key=.created_at'' = ''sort_by(.created_at) | reverse'' \<and>
   fix_jq_syntax ''sort --key=.name'' = ''sort_by(.name)'' \<and>
   fix_jq_syntax ''keys | sort -r'' = ''keys | sort | reverse''"
  by (simp add: fix_jq_defs py_defs)

text \<open>
  The repair rewrites with \<open>str.replace\<close> on the text of the first match: a field
  that is a prefix of another is rewritten inside the longer one too.
\<close>

lemma fix_jq_syntax_prefix_field:
  "fix_jq_syntax ''sort -r .a | sort -r .ab'' = ''sort_by(.a) | reverse | sort_by(.a) | reverseb''"
  by (simp add: fix_jq_defs py_defs)

text \<open>
  C16: The repair finds its patterns with \<open>\s+\<close> but rewrites with
  \<open>str.replace\<close> on a literal with single spaces: a query that contains neither
  \<open>sort -r\<close> nor \<open>sort --key=\<close> literally is returned unchanged, even when a
  pattern matches it (two spaces, a tab or a newline between the words).
\<close>

theorem fix_jq_syntax_literal_replace:
  assumes "\<not> sublist ''sort -r'' q" "\<not> sublist ''sort --key='' q"
  shows "fix_jq_syntax q = q"
proof -
  have r: "prefix ''sort -r'' p \<Longrightarrow> py_replace q p x = q" "prefix ''sort --key='' p \<Longrightarrow> py_replace q p x = q"
    for p x
    using replace_absent_pattern[OF _ _ assms(1)] replace_absent_pattern[OF _ _ assms(2)]
    by auto
  show ?thesis by (simp add: fix_jq_syntax_def r split: option.split)
qed

lemma fix_jq_syntax_literal_replace_witness:
  "\<not> sublist ''sort -r'' ''.[] | sort  -r .a'' \<and> \<not> sublist ''sort --key='' ''.[] | sort  -r .a'' \<and>
   re_search m_sort_r_field ''.[] | sort  -r .a'' = Some ''.a'' \<and>
   fix_jq_syntax ''.[] | sort  -r .a'' = ''.[] | sort  -r .a''"
proof -
  have a: "\<not> sublist ''sort -r'' ''.[] | sort  -r .a''" "\<not> sublist ''sort --key='' ''.[] | sort  -r .a''"
    by (simp_all add: str_contains_sublist[symmetric])
  have "re_search m_sort_r_field ''.[] | sort  -r .a'' = Some ''.a''" by (simp add: fix_jq_defs py_defs)
  then show ?thesis using a fix_jq_syntax_literal_replace[OF a] by simp
qed

text \<open>
  C17: The extraction takes the first line that contains a dot and does not start
  with one of the listed words, whatever follows: a sentence of prose such as
  \<open>Sorting by date.\<close> before the filter is taken as the query.
\<close>

theorem extract_takes_prose:
  assumes "CHR 0x0A \<notin> set line" "\<not> startswith_any (py_strip line) prose_prefixes"
    and "CHR ''.'' \<in> set (py_strip line)"
  shows "extract_jq_query (line @ CHR 0x0A # rest) = Some (py_strip line)"
proof -
  have "looks_like_query (py_strip line)"
    using assms(2,3) str_contains_char[of "py_strip line" "CHR ''.''"] by (auto simp: looks_like_query_def)
  then show ?thesis using assms(1) by (simp add: extract_jq_query_def split_on_append)
qed

lemma extract_takes_prose_witness:
  "CHR 0x0A \<notin> set ''Sorting by date.'' \<and> \<not> startswith_any (py_strip ''Sorting by date.'') prose_prefixes \<and>
   CHR ''.'' \<in> set (py_strip ''Sorting by date.'') \<and>
   extract_jq_query (''Sorting by date.'' @ CHR 0x0A # ''.[] | sort_by(.date)'') = Some ''Sorting by date.''"
proof -
  have s: "py_strip ''Sorting by date.'' = ''Sorting by date.''" by (simp add: py_defs)
  have a: "CHR 0x0A \<notin> set ''Sorting by date.''" "\<not> startswith_any (py_strip ''Sorting by date.'') prose_prefixes"
      "CHR ''.'' \<in> set (py_strip ''Sorting by date.'')"
    by (simp_all add: s prose_prefixes_def py_defs)
  show ?thesis using a extract_takes_prose[OF a] s by simp
qed

text \<open>
  C18: A model served by the \<open>llm\<close> library never yields a query: whatever the
  library does, \<open>get_response\<close> ends with the error report and its hint. A
  \<open>Response\<close> object has no \<open>split\<close>, so the extraction raises before it
  starts; an exception raised by the model when its response is formatted is
  reported the same way, without the "Error getting response" prefix.
\<close>

theorem get_response_llm_no_query:
  assumes "\<not> startswith model_name ''ollama:''"
  shows "emitted_queries (get_response ollama llm_call message model_name) = [] \<and>
         (\<exists>evs e. get_response ollama llm_call message model_name = evs @ error_events e)"
proof -
  have "\<exists>evs e. get_response ollama llm_call message model_name = evs @ error_events e \<and>
           emitted_queries evs = []"
  proof (cases "llm_call model_name message")
    case (Inl e)
    then show ?thesis using assms by (intro exI[of _ "[]"] exI[of _ "''Error getting response from model: '' @ e"])
         (simp add: get_response_def emitted_queries_def)
  next
    case (Inr r)
    then show ?thesis
    proof (cases r)
      case (Inl e)
      then show ?thesis using assms \<open>llm_call model_name message = Inr r\<close>
        by (intro exI[of _ "[Update_html]"] exI[of _ e]) (simp add: get_response_defs emitted_queries_def)
    next
      case (Inr t)
      then show ?thesis using assms \<open>llm_call model_name message = Inr r\<close>
        by (intro exI[of _ "[Update_html, Append_text (''<b>Assistant:</b> '' @ t)]"]
                  exI[of _ "[CHR 0x27] @ ''Response'' @ [CHR 0x27] @ '' object has no attribute '' @
                            [CHR 0x27] @ ''split'' @ [CHR 0x27]"])
           (simp add: get_response_defs emitted_queries_def)
    qed
  qed
  then show ?thesis by (auto simp: emitted_queries_def error_events_def map_filter_def)
qed

lemma get_response_llm_no_query_witness:
  "\<not> startswith ''gpt-4o'' ''ollama:'' \<and>
   emitted_queries (get_response (\<lambda>_ _. Inr ''.a'') (\<lambda>_ _. Inr (Inr ''.a'')) ''q'' ''gpt-4o'') = [] \<and>
   (\<exists>evs e. get_response (\<lambda>_ _. Inr ''.a'') (\<lambda>_ _. Inr (Inr ''.a'')) ''q'' ''gpt-4o'' = evs @ error_events e)"
  using get_response_llm_no_query[of "''gpt-4o''" "\<lambda>_ _. Inr ''.a''" "\<lambda>_ _. Inr (Inr ''.a'')" "''q''"] by simp

text \<open>
  C19: When an Ollama model answers with a line that looks like a query, \<open>get_response\<close> emits the repaired query on both of its signals.
\<close>

lemma get_response_query:
  assumes "startswith model_name ''ollama:''" "ollama (drop 7 model_name) message = Inr response"
    and "extract_jq_query response = Some q"
  shows "emitted_queries (get_response ollama llm_call message model_name) = [fix_jq_syntax q, fix_jq_syntax q]"
  using assms by (simp add: get_response_defs extract_jq_query_def emitted_queries_def Let_def)

lemma get_response_query_witness:
  "startswith ''ollama:mistral'' ''ollama:'' \<and>
   (\<lambda>_ _. Inr ''.[] | length'') (drop 7 ''ollama:mistral'') ''q'' = (Inr ''.[] | length'' :: string + string) \<and>
   extract_jq_query ''.[] | length'' = Some ''.[] | length'' \<and>
   emitted_queries (get_response (\<lambda>_ _. Inr ''.[] | length'') (\<lambda>_ _. Inl ''x'') ''q'' ''ollama:mistral'') =
     [fix_jq_syntax ''.[] | length'', fix_jq_syntax ''.[] | length'']"
proof -
  have e: "extract_jq_query ''.[] | length'' = Some ''.[] | length''"
    by (simp add: extract_jq_query_def looks_like_query_def prose_prefixes_def py_defs)
  show ?thesis
    using get_response_query[of "''ollama:mistral''" "\<lambda>_ _. Inr ''.[] | length''" "''q''" "''.[] | length''"
        "''.[] | length''" "\<lambda>_ _. Inl ''x''"] e
    by simp
qed

text \<open>
  C20: When the model call raises, \<open>get_response\<close> removes the waiting message and reports the error, and emits no query.
\<close>

lemma get_response_error:
  assumes "startswith model_name ''ollama:'' \<and> ollama (drop 7 model_name) message = Inl e \<or>
           \<not> startswith model_name ''ollama:'' \<and> llm_call model_name message = Inl e"
  shows "get_response ollama llm_call message model_name =
         error_events (''Error getting response from model: '' @ e)"
  using assms by (auto simp: get_response_def)

lemma get_response_error_witness:
  "(startswith ''ollama:x'' ''ollama:'' \<and> (\<lambda>_ _. Inl ''down'') (drop 7 ''ollama:x'') ''q'' = (Inl ''down'' :: string + string) \<or>
    \<not> startswith ''ollama:x'' ''ollama:'' \<and> (\<lambda>_ _. Inr (Inr ''y'')) ''ollama:x'' ''q'' = (Inl ''down'' :: string + (string + string))) \<and>
   get_response (\<lambda>_ _. Inl ''down'') (\<lambda>_ _. Inr (Inr ''y'')) ''q'' ''ollama:x'' =
     error_events (''Error getting response from model: '' @ ''down'')"
  using get_response_error[of "''ollama:x''" "\<lambda>_ _. Inl ''down''" "''q''" "''down''" "\<lambda>_ _. Inr (Inr ''y'')"]
  by simp

end
