(* ===== verification/Window.thy ===== *)
theory Window
  imports Visibility History Chat
begin

text \<open>
  The main window, \<open>JsonViewerWindow\<close> of src/gui.py (lines 1030-1243), and the
  signal connections between it, the chat widget and the query line. The
  window's state is a record of the attributes its handlers read and write:
  the loaded file, its text and parsed value, the hidden-path set, what the
  JSON viewer shows, the instruction label, the value the schema viewer was
  last given, and the query line of theory History. Each handler is a function
  from an environment of the external calls (reading the file,
  \<open>json.loads\<close>, running \<open>jq\<close>) and the state to the new state and the
  effects it has on the outside (\<open>jq\<close> runs and message boxes).
\<close>

datatype view = Blank | Shown json | Plain string

record window =
  current_json_file :: "string option"
  json_content :: "string option"
  parsed_json :: "json option"
  hidden_paths :: "string list set"
  viewer :: view
  instruction :: string
  schema_json :: "json option"
  query_line :: query_input

text \<open>
  The external calls: \<open>open(path).read()\<close> (the text or the exception's
  message), \<open>json.loads\<close> (the value or the decoder's message) and
  \<open>subprocess.run(["jq", query, file])\<close> (the exception's message, or whether
  the return code is 0 with the standard output and error).
\<close>

record env =
  read_file :: "string \<Rightarrow> string + string"
  loads :: "string \<Rightarrow> string + json"
  jq :: "string \<Rightarrow> string \<Rightarrow> string + bool \<times> string \<times> string"

datatype effect = Ran_jq string string | Warning string string | Critical string string

definition init_window :: window where
  "init_window = \<lparr>current_json_file = None, json_content = None, parsed_json = None, hidden_paths = {},
     viewer = Blank, instruction = ''Drag and drop a JSON file here'', schema_json = None,
     query_line = init_query_input\<rparr>"

text \<open>\<open>if self.current_json_file:\<close> and \<open>if self.json_content:\<close>: set and not empty.\<close>

definition py_set :: "string option \<Rightarrow> bool" where
  "py_set x = (case x of Some s \<Rightarrow> s \<noteq> [] | None \<Rightarrow> False)"

text \<open>\<open>str(x)\<close> of an optional string, as the f-strings of the window print it.\<close>

definition str_opt :: "string option \<Rightarrow> string" where
  "str_opt x = (case x of Some s \<Rightarrow> s | None \<Rightarrow> ''None'')"

text \<open>\<open>JsonSchemaViewer.set_json_data\<close>: the viewer keeps the value and rebuilds its tree from it.\<close>

definition set_json_data :: "json \<Rightarrow> window \<Rightarrow> window" where
  "set_json_data v w = w\<lparr>schema_json := Some v\<rparr>"

text \<open>\<open>filter_json_by_visibility\<close> of the window, over its hidden-path set.\<close>

definition window_filter :: "window \<Rightarrow> json \<Rightarrow> json" where
  "window_filter w v = filter_json_by_visibility (hidden_paths w) v"

definition load_json_file :: "env \<Rightarrow> string \<Rightarrow> window \<Rightarrow> window" where
  "load_json_file E file_path w =
     (case read_file E file_path of
        Inl e \<Rightarrow> w\<lparr>viewer := Plain (''Error opening file: '' @ e), instruction := ''Error loading file'',
                    current_json_file := None, json_content := None, parsed_json := None\<rparr>
      | Inr content \<Rightarrow>
          (let w1 = w\<lparr>json_content := Some content, current_json_file := Some file_path, hidden_paths := {}\<rparr> in
           case loads E content of
             Inr v \<Rightarrow> set_json_data v (w1\<lparr>parsed_json := Some v, viewer := Shown v,
                                            instruction := ''Loaded: '' @ file_path\<rparr>)
           | Inl e \<Rightarrow> w1\<lparr>viewer := Plain (''Invalid JSON: '' @ e @ ''\<newline>\<newline>'' @ content),
                         instruction := ''Error loading JSON from: '' @ file_path,
                         current_json_file := None, json_content := None, parsed_json := None\<rparr>))"

definition reset_to_original_json :: "env \<Rightarrow> window \<Rightarrow> window" where
  "reset_to_original_json E w =
     (if py_set (json_content w) then
        (case loads E (the (json_content w)) of
           Inr v \<Rightarrow> (let w1 = w\<lparr>parsed_json := Some v\<rparr> in
                     w1\<lparr>viewer := Shown (window_filter w1 v),
                        instruction := ''Loaded: '' @ str_opt (current_json_file w)\<rparr>)
         | Inl _ \<Rightarrow> w\<lparr>viewer := Plain (the (json_content w))\<rparr>)
      else w)"

definition run_jq_query :: "env \<Rightarrow> window \<Rightarrow> window \<times> effect list" where
  "run_jq_query E w =
     (if \<not> py_set (current_json_file w) then
        (w, [Warning ''No File Loaded'' ''Please drag and drop a JSON file first.''])
      else
        (let query = py_strip (qi_text (query_line w)); file = the (current_json_file w) in
         if query = [] then (reset_to_original_json E w, [])
         else
           (case jq E query file of
              Inl e \<Rightarrow> (w\<lparr>instruction := ''Error running query: '' @ query\<rparr>,
                        [Ran_jq query file, Critical ''Error'' (''Failed to run jq query: '' @ e)])
            | Inr (ok, out, err) \<Rightarrow>
                (if ok then
                   (case loads E out of
                      Inr v \<Rightarrow> set_json_data v (w\<lparr>viewer := Shown (window_filter w v)\<rparr>)
                    | Inl _ \<Rightarrow> w\<lparr>viewer := Plain out\<rparr>)\<lparr>instruction := ''Query executed: '' @ query\<rparr>
                 else w\<lparr>viewer := Plain (''jq error: '' @ err), instruction := ''Query failed: '' @ query\<rparr>,
                 [Ran_jq query file]))))"

definition toggle_attribute_visibility :: "string list \<Rightarrow> bool \<Rightarrow> window \<Rightarrow> window" where
  "toggle_attribute_visibility path is_visible w =
     (let w1 = w\<lparr>hidden_paths := (if is_visible then hidden_paths w - {path} else insert path (hidden_paths w))\<rparr> in
      case parsed_json w1 of
        Some v \<Rightarrow> if truthy v then w1\<lparr>viewer := Shown (window_filter w1 v)\<rparr> else w1
      | None \<Rightarrow> w1)"

definition set_query_from_chat :: "env \<Rightarrow> string \<Rightarrow> window \<Rightarrow> window \<times> effect list" where
  "set_query_from_chat E query w = run_jq_query E (w\<lparr>query_line := set_text query (query_line w)\<rparr>)"

text \<open>
  A key press in the query line (\<open>JqQueryInput.keyPressEvent\<close>) followed by the
  calls it makes on the window; the query line's \<open>parent_window\<close> is the
  window (set in \<open>__init__\<close>, line 1048).
\<close>

fun do_call :: "env \<Rightarrow> window_call \<Rightarrow> window \<times> effect list \<Rightarrow> window \<times> effect list" where
  "do_call E Reset_to_original_json (w, effs) = (reset_to_original_json E w, effs)"
| "do_call E Run_jq_query (w, effs) = (let (w', e) = run_jq_query E w in (w', effs @ e))"

definition window_key :: "env \<Rightarrow> key \<Rightarrow> window \<Rightarrow> window \<times> effect list" where
  "window_key E k w =
     (let (ql, calls) = key_press True (py_set (current_json_file w)) k (query_line w)
      in fold (do_call E) calls (w\<lparr>query_line := ql\<rparr>, []))"

text \<open>
  The connections of the chat widget's query signals (lines 780, 1070, 1071):
  \<open>query_generated\<close> goes to \<open>set_query_from_chat\<close>; \<open>generate_query_signal\<close>
  goes first to \<open>_emit_query_generated\<close>, which emits \<open>query_generated\<close>,
  and then to \<open>set_query_from_chat\<close>. Slots run in the order of connection.
\<close>

definition on_query_generated :: "env \<Rightarrow> string \<Rightarrow> window \<times> effect list \<Rightarrow> window \<times> effect list" where
  "on_query_generated E q st = (let (w', e) = set_query_from_chat E q (fst st) in (w', snd st @ e))"

definition on_generate_query_signal :: "env \<Rightarrow> string \<Rightarrow> window \<times> effect list \<Rightarrow> window \<times> effect list" where
  "on_generate_query_signal E q st =
     (let st1 = on_query_generated E q st;
          (w', e) = set_query_from_chat E q (fst st1)
      in (w', snd st1 @ e))"

fun deliver :: "env \<Rightarrow> chat_event \<Rightarrow> window \<times> effect list \<Rightarrow> window \<times> effect list" where
  "deliver E (Query_generated q) st = on_query_generated E q st"
| "deliver E (Generate_query_signal q) st = on_generate_query_signal E q st"
| "deliver E _ st = st"

text \<open>\<open>str.endswith\<close>.\<close>

definition py_endswith :: "string \<Rightarrow> string \<Rightarrow> bool" where
  "py_endswith s sfx = startswith (rev s) (rev sfx)"

text \<open>
  \<open>dragEnterEvent\<close>: a drag is accepted when it carries URLs and the first one is
  a local file whose name ends in \<open>.json\<close> (URLs are given as their local paths).
\<close>

definition drag_accepted :: "string list \<Rightarrow> bool" where
  "drag_accepted urls = (urls \<noteq> [] \<and> py_endswith (hd urls) ''.json'')"

text \<open>
  A drag and drop: Qt delivers \<open>dropEvent\<close> only for an accepted drag, and
  \<open>dropEvent\<close> loads the first URL.
\<close>

definition drop_event :: "env \<Rightarrow> string list \<Rightarrow> window \<Rightarrow> window" where
  "drop_event E urls w = (if drag_accepted urls then load_json_file E (hd urls) w else w)"

text \<open>One answer of the assistant, delivered to the window.\<close>

definition chat_answer :: "env \<Rightarrow> (string \<Rightarrow> string \<Rightarrow> string + string) \<Rightarrow> (string \<Rightarrow> string \<Rightarrow> string + (string + string)) \<Rightarrow>
    string \<Rightarrow> string \<Rightarrow> window \<Rightarrow> window \<times> effect list" where
  "chat_answer E ollama llm_call message model_name w =
     fold (deliver E) (get_response ollama llm_call message model_name) (w, [])"

text \<open>The states the window reaches under a fixed environment, whatever the user does.\<close>

inductive win_reachable :: "env \<Rightarrow> window \<Rightarrow> bool" for E :: env where
  init: "win_reachable E init_window"
| load: "win_reachable E w \<Longrightarrow> win_reachable E (load_json_file E path w)"
| drop: "win_reachable E w \<Longrightarrow> win_reachable E (drop_event E urls w)"
| toggle: "win_reachable E w \<Longrightarrow> win_reachable E (toggle_attribute_visibility path vis w)"
| run: "win_reachable E w \<Longrightarrow> win_reachable E (fst (run_jq_query E w))"
| key: "win_reachable E w \<Longrightarrow> win_reachable E (fst (window_key E k w))"
| chat: "win_reachable E w \<Longrightarrow> win_reachable E (fst (chat_answer E ollama llm_call msg m w))"

text \<open>
  The window's invariant: the file name, its text and its parsed value are
  set together, the parsed value is what \<open>json.loads\<close> gives for the text, and
  the query line keeps its own invariant.
\<close>

definition file_ok :: "env \<Rightarrow> string option \<Rightarrow> string option \<Rightarrow> json option \<Rightarrow> bool" where
  "file_ok E content file parsed =
     (case content of
        None \<Rightarrow> file = None \<and> parsed = None
      | Some c \<Rightarrow> file \<noteq> None \<and> (case loads E c of Inr v \<Rightarrow> parsed = Some v | Inl _ \<Rightarrow> False))"

definition window_ok :: "env \<Rightarrow> window \<Rightarrow> bool" where
  "window_ok E w =
     (file_ok E (json_content w) (current_json_file w) (parsed_json w) \<and> history_ok (query_line w))"

subsection \<open>Lemmas\<close>

lemma window_ok_fields:
  "window_ok E (w\<lparr>viewer := x\<rparr>) = window_ok E w"
  "window_ok E (w\<lparr>instruction := i\<rparr>) = window_ok E w"
  "window_ok E (w\<lparr>hidden_paths := H\<rparr>) = window_ok E w"
  "window_ok E (w\<lparr>schema_json := sj\<rparr>) = window_ok E w"
  by (simp_all add: window_ok_def)

lemma set_json_data_ok [simp]: "window_ok E (set_json_data v w) = window_ok E w"
  by (simp add: set_json_data_def window_ok_def)

lemma load_json_file_ok: "window_ok E w \<Longrightarrow> window_ok E (load_json_file E p w)"
  by (auto simp: load_json_file_def window_ok_def file_ok_def set_json_data_def Let_def split: sum.split)

lemma drop_event_ok: "window_ok E w \<Longrightarrow> window_ok E (drop_event E urls w)"
  by (simp add: drop_event_def load_json_file_ok)

lemma reset_to_original_json_ok: "window_ok E w \<Longrightarrow> window_ok E (reset_to_original_json E w)"
  by (auto simp: reset_to_original_json_def window_ok_def file_ok_def py_set_def Let_def split: sum.splits option.splits)

lemma run_jq_query_ok: "window_ok E w \<Longrightarrow> window_ok E (fst (run_jq_query E w))"
  by (auto simp: run_jq_query_def window_ok_fields reset_to_original_json_ok Let_def split: sum.split prod.split)

lemma toggle_attribute_visibility_ok: "window_ok E w \<Longrightarrow> window_ok E (toggle_attribute_visibility p vis w)"
  by (simp add: toggle_attribute_visibility_def window_ok_fields Let_def split: option.split)

lemma set_query_from_chat_ok: "window_ok E w \<Longrightarrow> window_ok E (fst (set_query_from_chat E q w))"
proof -
  assume "window_ok E w"
  then have "window_ok E (w\<lparr>query_line := set_text q (query_line w)\<rparr>)"
    by (simp add: window_ok_def history_ok_def set_text_def)
  then show ?thesis by (simp add: set_query_from_chat_def run_jq_query_ok)
qed

lemma run_jq_query_ok':
  "run_jq_query E w = (w', e) \<Longrightarrow> window_ok E w \<Longrightarrow> window_ok E w'"
  using run_jq_query_ok[of E w] by simp

lemma set_query_from_chat_ok':
  "set_query_from_chat E q w = (w', e) \<Longrightarrow> window_ok E w \<Longrightarrow> window_ok E w'"
  using set_query_from_chat_ok[of E w q] by simp

lemma fold_do_call_ok: "window_ok E (fst st) \<Longrightarrow> window_ok E (fst (fold (do_call E) calls st))"
proof (induction calls arbitrary: st)
  case (Cons c calls)
  obtain w effs where st: "st = (w, effs)" by fastforce
  have "window_ok E (fst (do_call E c (w, effs)))"
    using Cons.prems st
    by (cases c) (auto simp: reset_to_original_json_ok split: prod.split intro: run_jq_query_ok')
  then show ?case using Cons.IH st by simp
qed simp

lemma window_key_ok: "window_ok E w \<Longrightarrow> window_ok E (fst (window_key E k w))"
proof -
  assume ok: "window_ok E w"
  obtain ql calls where kp: "key_press True (py_set (current_json_file w)) k (query_line w) = (ql, calls)"
    by fastforce
  have h: "history_ok (query_line w)" using ok by (simp add: window_ok_def)
  have "history_ok (fst (key_press True (py_set (current_json_file w)) k (query_line w)))"
    by (rule key_press_ok[OF h])
  then have "history_ok ql" using kp by simp
  then have "window_ok E (w\<lparr>query_line := ql\<rparr>)" using ok by (simp add: window_ok_def)
  then show ?thesis using fold_do_call_ok[of E "(w\<lparr>query_line := ql\<rparr>, [])"] kp by (simp add: window_key_def)
qed

lemma deliver_ok: "window_ok E (fst st) \<Longrightarrow> window_ok E (fst (deliver E ev st))"
  by (cases ev) (auto simp: on_query_generated_def on_generate_query_signal_def
      split: prod.split intro: set_query_from_chat_ok')

lemma chat_answer_ok: "window_ok E w \<Longrightarrow> window_ok E (fst (chat_answer E ol ll msg m w))"
proof -
  have "window_ok E (fst st) \<Longrightarrow> window_ok E (fst (fold (deliver E) evs st))" for evs st
    by (induction evs arbitrary: st) (simp_all add: deliver_ok)
  then show "window_ok E w \<Longrightarrow> ?thesis" by (simp add: chat_answer_def)
qed

lemma run_jq_query_ran:
  assumes "current_json_file w = Some f" "f \<noteq> []" "py_strip (qi_text (query_line w)) = q" "q \<noteq> []"
    and "jq E q f = Inr r"
  shows "snd (run_jq_query E w) = [Ran_jq q f] \<and> current_json_file (fst (run_jq_query E w)) = Some f \<and>
         query_line (fst (run_jq_query E w)) = query_line w"
  using assms by (cases r) (auto simp: run_jq_query_def py_set_def set_json_data_def split: sum.split)

lemma set_query_from_chat_ran:
  assumes "current_json_file w = Some f" "f \<noteq> []" "py_strip q0 = q" "q \<noteq> []" "jq E q f = Inr r"
  shows "snd (set_query_from_chat E q0 w) = [Ran_jq q f] \<and> current_json_file (fst (set_query_from_chat E q0 w)) = Some f"
  using run_jq_query_ran[of "w\<lparr>query_line := set_text q0 (query_line w)\<rparr>" f q E r] assms
  by (simp add: set_query_from_chat_def set_text_def)

lemma escape_shows_original:
  assumes "py_set (current_json_file w)" "json_content w = Some c" "c \<noteq> []" "loads E c = Inr v"
  shows "viewer (fst (window_key E Key_Escape w)) = Shown (filter_json_by_visibility (hidden_paths w) v) \<and>
         schema_json (fst (window_key E Key_Escape w)) = schema_json w"
  using assms
  by (simp add: window_key_def reset_to_original_json_def window_filter_def py_set_def Let_def)

lemma hidden_paths_toggle:
  "hidden_paths (toggle_attribute_visibility p vis w) =
   (if vis then hidden_paths w - {p} else insert p (hidden_paths w))"
  by (simp add: toggle_attribute_visibility_def Let_def split: option.split)

subsection \<open>Properties\<close>

text \<open>
  C23: In every state the window reaches, the file name, its text and its parsed value are set together, the parsed value is what json.loads gives for the text, and the query line keeps its invariant (theory History).
\<close>

lemma win_reachable_ok: "win_reachable E w \<Longrightarrow> window_ok E w"
proof (induction rule: win_reachable.induct)
  case init
  then show ?case by (simp add: init_window_def window_ok_def file_ok_def history_ok_def init_query_input_def)
qed (simp_all add: load_json_file_ok drop_event_ok toggle_attribute_visibility_ok run_jq_query_ok window_key_ok
    chat_answer_ok)

lemma win_reachable_ok_witness:
  "win_reachable \<lparr>read_file = \<lambda>_. Inr ''{}'', loads = \<lambda>_. Inr (JObj []), jq = \<lambda>_ _. Inl ''jq''\<rparr>
     (load_json_file \<lparr>read_file = \<lambda>_. Inr ''{}'', loads = \<lambda>_. Inr (JObj []), jq = \<lambda>_ _. Inl ''jq''\<rparr> ''a.json'' init_window) \<and>
   window_ok \<lparr>read_file = \<lambda>_. Inr ''{}'', loads = \<lambda>_. Inr (JObj []), jq = \<lambda>_ _. Inl ''jq''\<rparr>
     (load_json_file \<lparr>read_file = \<lambda>_. Inr ''{}'', loads = \<lambda>_. Inr (JObj []), jq = \<lambda>_ _. Inl ''jq''\<rparr> ''a.json'' init_window)"
proof -
  let ?E = "\<lparr>read_file = \<lambda>_. Inr ''{}'', loads = \<lambda>_. Inr (JObj []), jq = \<lambda>_ _. Inl ''jq''\<rparr> :: env"
  have r: "win_reachable ?E (load_json_file ?E ''a.json'' init_window)"
    by (intro win_reachable.load win_reachable.init)
  show ?thesis using r win_reachable_ok[OF r] by simp
qed

text \<open>
  C24: A query whose jq output is JSON shows that output filtered by the hidden paths, gives the schema viewer the unfiltered output, and keeps the hidden-path set: it is not cleared when a query result replaces the document.
\<close>

lemma run_jq_query_success:
  assumes "py_set (current_json_file w)" "py_strip (qi_text (query_line w)) = q" "q \<noteq> []"
    and "jq E q (the (current_json_file w)) = Inr (True, out, err)" "loads E out = Inr v"
  shows "viewer (fst (run_jq_query E w)) = Shown (filter_json_by_visibility (hidden_paths w) v) \<and>
         schema_json (fst (run_jq_query E w)) = Some v \<and>
         hidden_paths (fst (run_jq_query E w)) = hidden_paths w"
  using assms by (simp add: run_jq_query_def window_filter_def set_json_data_def Let_def)

lemma run_jq_query_success_witness:
  "py_set (current_json_file (init_window\<lparr>current_json_file := Some ''a.json'', hidden_paths := {[''b'']},
                                          query_line := set_text ''.'' init_query_input\<rparr>)) \<and>
   py_strip (qi_text (query_line (init_window\<lparr>current_json_file := Some ''a.json'', hidden_paths := {[''b'']},
                                          query_line := set_text ''.'' init_query_input\<rparr>))) = ''.'' \<and>
   viewer (fst (run_jq_query \<lparr>read_file = \<lambda>_. Inl ''x'', loads = \<lambda>_. Inr (JObj [(''a'', JInt 1), (''b'', JInt 2)]),
                               jq = \<lambda>_ _. Inr (True, ''out'', [])\<rparr>
       (init_window\<lparr>current_json_file := Some ''a.json'', hidden_paths := {[''b'']},
                    query_line := set_text ''.'' init_query_input\<rparr>))) =
     Shown (filter_json_by_visibility {[''b'']} (JObj [(''a'', JInt 1), (''b'', JInt 2)]))"
  using run_jq_query_success[of "init_window\<lparr>current_json_file := Some ''a.json'', hidden_paths := {[''b'']},
                                          query_line := set_text ''.'' init_query_input\<rparr>" "''.''"
      "\<lparr>read_file = \<lambda>_. Inl ''x'', loads = \<lambda>_. Inr (JObj [(''a'', JInt 1), (''b'', JInt 2)]),
        jq = \<lambda>_ _. Inr (True, ''out'', [])\<rparr>" "''out''" "[]" "JObj [(''a'', JInt 1), (''b'', JInt 2)]"]
  by (simp add: py_set_def set_text_def init_window_def init_query_input_def py_defs)

text \<open>
  C25: An assistant answer with a query runs jq three times with that query: once through query_generated, once through generate_query_signal and _emit_query_generated, and once through generate_query_signal directly.
\<close>

lemma chat_query_runs_three_times:
  assumes "startswith m ''ollama:''" "ollama (drop 7 m) msg = Inr response"
    and "extract_jq_query response = Some q0" "py_strip (fix_jq_syntax q0) = q" "q \<noteq> []"
    and "current_json_file w = Some f" "f \<noteq> []" "jq E q f = Inr r"
  shows "snd (chat_answer E ollama llm_call msg m w) = [Ran_jq q f, Ran_jq q f, Ran_jq q f]"
proof -
  let ?q = "fix_jq_syntax q0"
  have s: "snd (set_query_from_chat E ?q u) = [Ran_jq q f] \<and> current_json_file (fst (set_query_from_chat E ?q u)) = Some f"
    if "current_json_file u = Some f" for u
    using set_query_from_chat_ran[of u f ?q q E r] that assms(4-8) by simp
  obtain w1 e1 where 1: "set_query_from_chat E ?q w = (w1, e1)" by fastforce
  obtain w2 e2 where 2: "set_query_from_chat E ?q w1 = (w2, e2)" by fastforce
  obtain w3 e3 where 3: "set_query_from_chat E ?q w2 = (w3, e3)" by fastforce
  have "e1 = [Ran_jq q f]" "current_json_file w1 = Some f" using s[of w] 1 assms(6) by simp_all
  moreover have "e2 = [Ran_jq q f]" "current_json_file w2 = Some f"
    using s[of w1] 2 \<open>current_json_file w1 = Some f\<close> by simp_all
  moreover have "e3 = [Ran_jq q f]" using s[of w2] 3 \<open>current_json_file w2 = Some f\<close> by simp
  ultimately show ?thesis using assms(1-3) 1 2 3
    by (simp add: chat_answer_def get_response_defs extract_jq_query_def on_query_generated_def on_generate_query_signal_def Let_def)
qed

lemma chat_query_runs_three_times_witness:
  "startswith ''ollama:m'' ''ollama:'' \<and>
   (\<lambda>_ _. Inr ''.a'') (drop 7 ''ollama:m'') ''q'' = (Inr ''.a'' :: string + string) \<and>
   extract_jq_query ''.a'' = Some ''.a'' \<and> py_strip (fix_jq_syntax ''.a'') = ''.a'' \<and>
   current_json_file (init_window\<lparr>current_json_file := Some ''f.json''\<rparr>) = Some ''f.json'' \<and>
   jq \<lparr>read_file = \<lambda>_. Inl [], loads = \<lambda>_. Inl [], jq = \<lambda>_ _. Inr (True, ''1'', [])\<rparr> ''.a'' ''f.json'' =
     Inr (True, ''1'', []) \<and>
   snd (chat_answer \<lparr>read_file = \<lambda>_. Inl [], loads = \<lambda>_. Inl [], jq = \<lambda>_ _. Inr (True, ''1'', [])\<rparr>
          (\<lambda>_ _. Inr ''.a'') (\<lambda>_ _. Inl []) ''q'' ''ollama:m'' (init_window\<lparr>current_json_file := Some ''f.json''\<rparr>)) =
     [Ran_jq ''.a'' ''f.json'', Ran_jq ''.a'' ''f.json'', Ran_jq ''.a'' ''f.json'']"
proof -
  have x: "extract_jq_query ''.a'' = Some ''.a''"
    by (simp add: extract_jq_query_def looks_like_query_def prose_prefixes_def py_defs)
  have f: "py_strip (fix_jq_syntax ''.a'') = ''.a''"
    by (simp add: fix_jq_defs py_defs)
  show ?thesis
    using chat_query_runs_three_times[of "''ollama:m''" "\<lambda>_ _. Inr ''.a''" "''q''" "''.a''" "''.a''" "''.a''"
        "init_window\<lparr>current_json_file := Some ''f.json''\<rparr>" "''f.json''"
        "\<lparr>read_file = \<lambda>_. Inl [], loads = \<lambda>_. Inl [], jq = \<lambda>_ _. Inr (True, ''1'', [])\<rparr>" "(True, ''1'', [])"
        "\<lambda>_ _. Inl []"] x f
    by simp
qed

text \<open>
  C26: Toggling an attribute re-renders the loaded document, not what the viewer showed: after a query, the query result is replaced by the filtered original document.
\<close>

lemma toggle_shows_original:
  assumes "parsed_json w = Some v" "truthy v"
  shows "viewer (toggle_attribute_visibility path is_visible w) =
         Shown (filter_json_by_visibility (hidden_paths (toggle_attribute_visibility path is_visible w)) v)"
  using assms by (simp add: toggle_attribute_visibility_def window_filter_def Let_def)

lemma toggle_shows_original_witness:
  "parsed_json (init_window\<lparr>parsed_json := Some (JObj [(''a'', JInt 1)])\<rparr>) = Some (JObj [(''a'', JInt 1)]) \<and>
   truthy (JObj [(''a'', JInt 1)]) \<and>
   viewer (toggle_attribute_visibility [''a''] False (init_window\<lparr>parsed_json := Some (JObj [(''a'', JInt 1)])\<rparr>)) =
     Shown (filter_json_by_visibility {[''a'']} (JObj [(''a'', JInt 1)]))"
  using toggle_shows_original[of "init_window\<lparr>parsed_json := Some (JObj [(''a'', JInt 1)])\<rparr>" "JObj [(''a'', JInt 1)]"
      "[''a'']" False]
  by (simp add: toggle_attribute_visibility_def init_window_def Let_def)

end
