(* ===== verification/Cli.thy ===== *)
theory Cli
  imports Json
begin

text \<open>
  The command-line tool src/askjson.py: \<open>ask_ollama\<close> builds the model's
  input from the question and a preview of the document and cleans its answer,
  \<open>run_jq\<close> runs the filter and explains an empty result, \<open>interactive_mode\<close>
  loops over questions and direct \<open>jq\<close> commands, \<open>main\<close> checks the options.
  The external calls are an environment: reading the file, \<open>json.loads\<close>,
  \<open>ollama run\<close> (given the model and the three variable parts of the prompt:
  question, preview and structure) and \<open>jq\<close> (given its argument list).
  What the tool prints is a list of outputs; what the user types is a list of
  inputs. The prompt's fixed instructions are not modelled.
\<close>

datatype io_error = File_not_found | Os_error string

record cli_env =
  cli_read :: "string \<Rightarrow> io_error + string"
  cli_loads :: "string \<Rightarrow> string + json"
  cli_ollama :: "string \<Rightarrow> string \<times> string \<times> string \<Rightarrow> string + string"
  cli_jq :: "string list \<Rightarrow> string + int \<times> string \<times> string"

text \<open>\<open>click.echo\<close> to standard output or error, and the prompt \<open>input()\<close> prints.\<close>

datatype cli_output = Echo string | Echo_err string | Ask string

text \<open>A line typed by the user, or Ctrl-C; after the last input \<open>input()\<close> raises \<open>EOFError\<close>.\<close>

datatype user_input = Line string | Interrupt

definition nl :: string where
  "nl = [CHR 0x0A]"

definition quote :: string where
  "quote = [CHR 0x27]"

subsection \<open>\<open>ask_ollama\<close>\<close>

definition preview :: "string \<Rightarrow> string" where
  "preview json_content =
     (let lines = split_on (CHR 0x0A) json_content;
          limited = join nl (take 50 lines)
      in if length lines > 50 then limited @ nl @ ''... (truncated for brevity)'' else limited)"

definition structure_type :: "cli_env \<Rightarrow> string \<Rightarrow> string" where
  "structure_type E json_content =
     (case cli_loads E json_content of
        Inr (JArr _) \<Rightarrow> ''array''
      | Inr _ \<Rightarrow> ''object''
      | Inl _ \<Rightarrow> ''unknown'')"

text \<open>The clean-up of the model's answer: backticks, then triple backticks, then every \<open>jq\<close>.\<close>

definition clean_response :: "string \<Rightarrow> string" where
  "clean_response stdout =
     py_strip (py_replace (py_replace (py_replace (py_strip stdout) ''`'' []) ''```'' []) ''jq'' [])"

definition ask_ollama :: "cli_env \<Rightarrow> string \<Rightarrow> string \<Rightarrow> string \<Rightarrow> string + string" where
  "ask_ollama E question json_content model =
     (case cli_ollama E model (question, preview json_content, structure_type E json_content) of
        Inl e \<Rightarrow> Inl e
      | Inr stdout \<Rightarrow> Inr (clean_response stdout))"

subsection \<open>\<open>run_jq\<close>\<close>

text \<open>
  The printed lines and the result: the returned text, or the exception
  \<open>subprocess.run\<close> raises when \<open>jq\<close> cannot be started (only
  \<open>CalledProcessError\<close> is caught).
\<close>

definition run_jq :: "cli_env \<Rightarrow> string \<Rightarrow> string \<Rightarrow> cli_output list \<times> (string + string)" where
  "run_jq E jq_command json_file =
     (let cleaned = py_strip_chars ([CHR 0x22] @ quote) jq_command;
          shown = [Echo (''Executing: jq '' @ quote @ cleaned @ quote @ '' '' @ json_file)]
      in case cli_jq E [''jq'', cleaned, json_file] of
           Inl e \<Rightarrow> (shown, Inl e)
         | Inr (rc, out, err) \<Rightarrow>
             if rc \<noteq> 0 then (shown, Inr (''Error executing jq command: '' @ err))
             else if py_strip out \<noteq> [] then (shown, Inr out)
             else
               (let shown = shown @ [Echo ''No output from jq. Checking JSON structure...''] in
                case cli_jq E [''jq'', ''type'', json_file] of
                  Inl e \<Rightarrow> (shown, Inl e)
                | Inr (_, check, _) \<Rightarrow>
                    if str_contains check ''array'' then
                      (case cli_jq E [''jq'', ''.[0]'', json_file] of
                         Inl e \<Rightarrow> (shown, Inl e)
                       | Inr (_, sample, _) \<Rightarrow>
                           (shown, Inr (''No results found. Sample data from first element:'' @ nl @ sample)))
                    else (shown, Inr ''No results found. Check that the fields in your query exist in the JSON.'')))"

subsection \<open>\<open>interactive_mode\<close>\<close>

text \<open>\<open>input(prompt)\<close>: the next line, Ctrl-C, or \<open>EOFError\<close> once the inputs are exhausted.\<close>

datatype read_result = Got string "user_input list" | Got_eof | Got_interrupt

definition read_line :: "user_input list \<Rightarrow> read_result" where
  "read_line ins = (case ins of [] \<Rightarrow> Got_eof | Interrupt # _ \<Rightarrow> Got_interrupt | Line s # rest \<Rightarrow> Got s rest)"

definition prompt_question :: string where
  "prompt_question = nl @ ''Your question (or jq command): ''"

definition prompt_modify :: string where
  "prompt_modify = nl @ ''Do you want to modify the jq command? (y/n): ''"

definition prompt_new :: string where
  "prompt_new = ''Enter modified jq command: ''"

text \<open>
  One pass of the \<open>while True\<close> loop: \<open>Inl (outs, rest)\<close> when the loop goes on
  with the inputs \<open>rest\<close>, \<open>Inr outs\<close> when it breaks. \<open>except KeyboardInterrupt\<close>
  breaks; \<open>except Exception\<close>, which also catches \<open>EOFError\<close>, prints the
  error (\<open>str(EOFError())\<close> is empty) and goes on.
\<close>

definition interrupted :: "cli_output list \<Rightarrow> (cli_output list \<times> user_input list) + cli_output list" where
  "interrupted outs = Inr (outs @ [Echo (nl @ ''Exiting interactive mode.'')])"

definition failed :: "cli_output list \<Rightarrow> string \<Rightarrow> user_input list \<Rightarrow> (cli_output list \<times> user_input list) + cli_output list" where
  "failed outs e rest = Inl (outs @ [Echo (''Error: '' @ e)], rest)"

definition show_result :: "cli_output list \<times> (string + string) \<Rightarrow> cli_output list \<Rightarrow> user_input list \<Rightarrow>
    ((cli_output list \<times> user_input list) + cli_output list) + cli_output list" where
  "show_result r outs rest =
     (case snd r of
        Inl e \<Rightarrow> Inl (failed (outs @ fst r) e rest)
      | Inr res \<Rightarrow> Inr (outs @ fst r @ [Echo (nl @ ''Result:''), Echo res]))"

definition modify_step :: "cli_env \<Rightarrow> string \<Rightarrow> cli_output list \<Rightarrow> user_input list \<Rightarrow>
    (cli_output list \<times> user_input list) + cli_output list" where
  "modify_step E file outs ins =
     (let outs = outs @ [Ask prompt_modify] in
      case read_line ins of
        Got_eof \<Rightarrow> failed outs [] []
      | Got_interrupt \<Rightarrow> interrupted outs
      | Got modify rest \<Rightarrow>
          if py_lower modify = ''y'' then
            (let outs = outs @ [Ask prompt_new] in
             case read_line rest of
               Got_eof \<Rightarrow> failed outs [] []
             | Got_interrupt \<Rightarrow> interrupted outs
             | Got new_command rest2 \<Rightarrow>
                 if py_strip new_command \<noteq> [] then
                   (case show_result (run_jq E new_command file)
                           (outs @ [Echo (''Using modified command: '' @ new_command)]) rest2 of
                      Inl cont \<Rightarrow> cont
                    | Inr outs' \<Rightarrow> Inl (outs', rest2))
                 else Inl (outs, rest2))
          else Inl (outs, rest))"

definition loop_body :: "cli_env \<Rightarrow> string \<Rightarrow> string \<Rightarrow> string \<Rightarrow> user_input list \<Rightarrow>
    (cli_output list \<times> user_input list) + cli_output list" where
  "loop_body E file json_content model ins =
     (let outs = [Ask prompt_question] in
      case read_line ins of
        Got_eof \<Rightarrow> failed outs [] []
      | Got_interrupt \<Rightarrow> interrupted outs
      | Got question rest \<Rightarrow>
          if py_lower question \<in> {''exit'', ''quit''} then
            Inr (outs @ [Echo ''Exiting interactive mode.''])
          else if startswith (py_lower question) ''jq '' then
            (let jq_command = py_strip (drop 3 question) in
             case show_result (run_jq E jq_command file)
                    (outs @ [Echo (''Executing jq directly: '' @ jq_command)]) rest of
               Inl cont \<Rightarrow> cont
             | Inr outs' \<Rightarrow> Inl (outs', rest))
          else
            (let outs = outs @ [Echo (''Generating jq command for: '' @ question)] in
             case ask_ollama E question json_content model of
               Inl e \<Rightarrow> failed outs e rest
             | Inr jq_command \<Rightarrow>
                 (case show_result (run_jq E jq_command file)
                         (outs @ [Echo (''Generated jq command: '' @ jq_command)]) rest of
                    Inl cont \<Rightarrow> cont
                  | Inr outs' \<Rightarrow> modify_step E file outs' rest)))"

text \<open>The loop; it returns what was printed when it breaks, and does not return otherwise.\<close>

partial_function (option) interactive_loop ::
  "cli_env \<Rightarrow> string \<Rightarrow> string \<Rightarrow> string \<Rightarrow> user_input list \<Rightarrow> cli_output list \<Rightarrow> cli_output list option" where
  "interactive_loop E file json_content model ins acc =
     (case loop_body E file json_content model ins of
        Inr outs \<Rightarrow> Some (acc @ outs)
      | Inl (outs, rest) \<Rightarrow> interactive_loop E file json_content model rest (acc @ outs))"

subsection \<open>\<open>interactive_mode\<close> and \<open>main\<close>\<close>

text \<open>How the program ends: normally, by \<open>sys.exit(code)\<close>, or by an uncaught exception.\<close>

datatype cli_outcome = Finished "cli_output list" | Exited nat "cli_output list" | Crashed string "cli_output list"

text \<open>Reading and parsing the file, as both entry points do it: the text, or how the program ends.\<close>

definition load_file :: "cli_env \<Rightarrow> string \<Rightarrow> cli_outcome + string" where
  "load_file E file =
     (case cli_read E file of
        Inl File_not_found \<Rightarrow> Inl (Exited 1 [Echo_err (''Error: File '' @ file @ '' not found'')])
      | Inl (Os_error e) \<Rightarrow> Inl (Crashed e [])
      | Inr content \<Rightarrow>
          (case cli_loads E content of
             Inl _ \<Rightarrow> Inl (Exited 1 [Echo_err (''Error: '' @ file @ '' is not a valid JSON file'')])
           | Inr _ \<Rightarrow> Inr content))"

definition banner :: "string \<Rightarrow> string \<Rightarrow> cli_output list" where
  "banner file model =
     [Echo (''Interactive mode activated. Using model: '' @ model), Echo (''Analyzing JSON file: '' @ file),
      Echo (''Type '' @ quote @ ''exit'' @ quote @ '' or '' @ quote @ ''quit'' @ quote @ '' to end the session.''),
      Echo (''Type '' @ quote @ ''jq'' @ quote @ '' followed by a command to directly execute a jq query.''),
      Echo (replicate 50 (CHR ''-''))]"

definition interactive_mode :: "cli_env \<Rightarrow> string \<Rightarrow> string \<Rightarrow> user_input list \<Rightarrow> cli_outcome option" where
  "interactive_mode E file model ins =
     (case load_file E file of
        Inl outcome \<Rightarrow> Some outcome
      | Inr content \<Rightarrow> map_option Finished (interactive_loop E file content model ins (banner file model)))"

definition main :: "cli_env \<Rightarrow> string \<Rightarrow> string option \<Rightarrow> string \<Rightarrow> bool \<Rightarrow> user_input list \<Rightarrow> cli_outcome option" where
  "main E file question model interactive ins =
     (if interactive then interactive_mode E file model ins
      else if question = None \<or> question = Some [] then
        Some (Exited 1 [Echo_err ''Error: In non-interactive mode, you must provide a question''])
      else
        (let q = the question in
         case load_file E file of
           Inl outcome \<Rightarrow> Some outcome
         | Inr content \<Rightarrow>
             (let outs = [Echo (''Using model: '' @ model), Echo (''Generating jq command for question: '' @ q)] in
              case ask_ollama E q content model of
                Inl e \<Rightarrow> Some (Crashed e outs)
              | Inr jq_command \<Rightarrow>
                  (let outs = outs @ [Echo (''Generated jq command: '' @ jq_command)];
                       r = run_jq E jq_command file
                   in case snd r of
                        Inl e \<Rightarrow> Some (Crashed e (outs @ fst r))
                      | Inr result \<Rightarrow> Some (Finished (outs @ fst r @ [Echo (nl @ ''Result:''), Echo result]))))))"

text \<open>The inputs that can end the loop: Ctrl-C, or \<open>exit\<close> / \<open>quit\<close>.\<close>

definition can_stop :: "user_input list \<Rightarrow> bool" where
  "can_stop ins = (\<exists>x \<in> set ins. x = Interrupt \<or> (\<exists>s. x = Line s \<and> py_lower s \<in> {''exit'', ''quit''}))"

subsection \<open>Lemmas\<close>

lemma read_line_Got: "read_line ins = Got s rest \<longleftrightarrow> ins = Line s # rest"
  by (auto simp: read_line_def split: list.splits user_input.splits)

lemma read_line_cases:
  "read_line ins = Got_eof \<longleftrightarrow> ins = []"
  "read_line ins = Got_interrupt \<longleftrightarrow> (\<exists>rest. ins = Interrupt # rest)"
  by (auto simp: read_line_def split: list.splits user_input.splits)

lemma show_result_Inl:
  "show_result r outs rest = Inl x \<Longrightarrow> \<exists>os'. x = Inl (os', rest)"
  by (auto simp: show_result_def failed_def split: sum.splits)

lemma failed_Inl [simp]: "failed outs e rest = Inl (os, r) \<longleftrightarrow> os = outs @ [Echo (''Error: '' @ e)] \<and> r = rest"
  by (auto simp: failed_def)

lemma interrupted_not_Inl [simp]: "interrupted outs \<noteq> Inl x"
  by (simp add: interrupted_def)

lemma modify_step_Inl:
  assumes "modify_step E file outs ins = Inl (os, rest)"
  shows "(ins = [] \<and> rest = []) \<or>
         (length rest < length ins \<and> set rest \<subseteq> set ins \<and> (Interrupt \<in> set ins \<longrightarrow> Interrupt \<in> set rest))"
  using assms
  by (auto simp: modify_step_def Let_def read_line_def split: list.splits user_input.splits if_splits sum.splits
           dest!: show_result_Inl)

lemma loop_body_Inl:
  assumes "loop_body E fl c model ins = Inl (os, rest)"
  shows "(ins = [] \<and> rest = []) \<or>
         (length rest < length ins \<and> set rest \<subseteq> set ins \<and> (Interrupt \<in> set ins \<longrightarrow> Interrupt \<in> set rest))"
  using assms
  by (auto simp: loop_body_def Let_def read_line_def split: list.splits user_input.splits if_splits sum.splits
           dest!: show_result_Inl modify_step_Inl)

lemma modify_step_Inr:
  "modify_step E fl outs ins = Inr os \<Longrightarrow> can_stop ins"
  by (auto simp: modify_step_def Let_def read_line_def can_stop_def interrupted_def failed_def show_result_def
           split: list.splits user_input.splits if_splits sum.splits)

lemma loop_body_Inr:
  "loop_body E fl c model ins = Inr os \<Longrightarrow> can_stop ins"
  by (auto simp: loop_body_def Let_def read_line_def can_stop_def interrupted_def failed_def show_result_def
           split: list.splits user_input.splits if_splits sum.splits dest!: modify_step_Inr)

lemma interactive_loop_stops:
  assumes "interactive_loop E fl c model ins acc = Some r"
  shows "can_stop ins"
proof (rule interactive_loop.raw_induct[where P = "\<lambda>E fl c model ins acc r. can_stop ins", OF _ assms])
  fix f E fl c model ins acc r
  assume IH: "\<And>E fl c model ins acc r. f E fl c model ins acc = Some r \<Longrightarrow> can_stop ins"
    and eq: "(case loop_body E fl c model ins of
               Inr outs \<Rightarrow> Some (acc @ outs)
             | Inl (outs, rest) \<Rightarrow> f E fl c model rest (acc @ outs)) = Some r"
  show "can_stop ins"
  proof (cases "loop_body E fl c model ins")
    case (Inl a)
    obtain os rest where a: "a = (os, rest)" by fastforce
    with Inl eq have "f E fl c model rest (acc @ os) = Some r" by simp
    then have "can_stop rest" by (rule IH)
    moreover have "set rest \<subseteq> set ins" using loop_body_Inl[of E fl c model ins os rest] Inl a by auto
    ultimately show ?thesis by (auto simp: can_stop_def)
  next
    case (Inr b)
    then show ?thesis by (rule loop_body_Inr)
  qed
qed

lemma interactive_loop_interrupt:
  "Interrupt \<in> set ins \<Longrightarrow> \<exists>r. interactive_loop E fl c model ins acc = Some r"
proof (induction "length ins" arbitrary: ins acc rule: less_induct)
  case less
  show ?case
  proof (cases "loop_body E fl c model ins")
    case (Inl a)
    obtain os rest where a: "a = (os, rest)" by fastforce
    have "length rest < length ins" "Interrupt \<in> set rest"
      using loop_body_Inl[of E fl c model ins os rest] Inl a less.prems by auto
    then obtain r where "interactive_loop E fl c model rest (acc @ os) = Some r"
      using less.hyps by blast
    then show ?thesis using Inl a by (subst interactive_loop.simps) simp
  next
    case (Inr b)
    then show ?thesis by (subst interactive_loop.simps) simp
  qed
qed

lemma run_jq_strips_quotes:
  "py_strip_chars ([CHR 0x22] @ quote) ''.a + \"x\"'' = ''.a + \"x''"
  by (simp add: quote_def py_defs)

subsection \<open>Properties\<close>

text \<open>
  C35: Once the file has loaded, interactive mode never ends unless the user types exit or quit at the question prompt or presses Ctrl-C: at the end of the input, input() raises EOFError, which the loop catches as an ordinary error and repeats forever.
\<close>

lemma interactive_mode_never_ends:
  assumes "load_file E fl = Inr c" "\<not> can_stop ins"
  shows "interactive_mode E fl model ins = None"
proof -
  have "interactive_loop E fl c model ins (banner fl model) = None"
    using interactive_loop_stops[of E fl c model ins "banner fl model"] assms(2) by fastforce
  then show ?thesis using assms(1) by (simp add: interactive_mode_def)
qed

lemma interactive_mode_never_ends_witness:
  "load_file \<lparr>cli_read = \<lambda>_. Inr ''[]'', cli_loads = \<lambda>_. Inr (JArr []), cli_ollama = \<lambda>_ _. Inl [],
              cli_jq = \<lambda>_. Inl []\<rparr> ''d.json'' = Inr ''[]'' \<and>
   \<not> can_stop [Line ''jq .'', Line ''exits''] \<and>
   interactive_mode \<lparr>cli_read = \<lambda>_. Inr ''[]'', cli_loads = \<lambda>_. Inr (JArr []), cli_ollama = \<lambda>_ _. Inl [],
              cli_jq = \<lambda>_. Inl []\<rparr> ''d.json'' ''mistral:latest'' [Line ''jq .'', Line ''exits''] = None"
proof -
  have l: "load_file \<lparr>cli_read = \<lambda>_. Inr ''[]'', cli_loads = \<lambda>_. Inr (JArr []), cli_ollama = \<lambda>_ _. Inl [],
              cli_jq = \<lambda>_. Inl []\<rparr> ''d.json'' = Inr ''[]''"
    by (simp add: load_file_def)
  have s: "\<not> can_stop [Line ''jq .'', Line ''exits'']"
    by (simp add: can_stop_def py_defs)
  show ?thesis using interactive_mode_never_ends[OF l s] l s by simp
qed

text \<open>
  C36: When the inputs contain a Ctrl-C, interactive mode ends, whatever the other inputs are and whatever the external calls do.
\<close>

lemma interactive_mode_interrupt:
  assumes "Interrupt \<in> set ins"
  shows "\<exists>r. interactive_mode E fl model ins = Some r"
  using interactive_loop_interrupt[OF assms] by (auto simp: interactive_mode_def split: sum.split)

lemma interactive_mode_interrupt_witness:
  "Interrupt \<in> set [Line ''jq .'', Interrupt] \<and>
   (\<exists>r. interactive_mode \<lparr>cli_read = \<lambda>_. Inr ''[]'', cli_loads = \<lambda>_. Inr (JArr []), cli_ollama = \<lambda>_ _. Inl [],
              cli_jq = \<lambda>_. Inl []\<rparr> ''d.json'' ''mistral:latest'' [Line ''jq .'', Interrupt] = Some r)"
  using interactive_mode_interrupt[of "[Line ''jq .'', Interrupt]"] by simp

text \<open>
  C38: \<open>ask_ollama\<close> removes the code fence around the answer of the model, and with
  it every occurrence of \<open>jq\<close> in the filter: for every fenced answer whose filter
  has no backtick, the result is the filter with each \<open>jq\<close> deleted (a field
  named \<open>jq_version\<close> becomes \<open>_version\<close>).
\<close>

theorem ask_ollama_removes_jq:
  assumes "cli_ollama E model (question, preview json_content, structure_type E json_content) =
             Inr (''```jq'' @ nl @ f @ nl @ ''```'')"
    and "CHR ''`'' \<notin> set f"
  shows "ask_ollama E question json_content model = Inr (py_strip (py_replace (nl @ f @ nl) ''jq'' []))"
proof -
  let ?s = "''```jq'' @ nl @ f @ nl @ ''```''"
  have s: "py_strip ?s = ?s" by (simp add: py_strip_def py_strip_by_def py_isspace_def nl_def)
  have b: "py_replace ?s ''`'' [] = ''jq'' @ nl @ f @ nl"
    using assms(2) by (simp add: py_replace_def replace_char_filter nl_def filter_id_conv) (metis)
  have c: "py_replace (''jq'' @ nl @ f @ nl) ''```'' [] = ''jq'' @ nl @ f @ nl"
  proof -
    have "CHR ''`'' \<notin> set (''jq'' @ nl @ f @ nl)" using assms(2) by (simp add: nl_def)
    then show ?thesis by (intro py_replace_absent no_char_no_sublist) auto
  qed
  have j: "py_replace (''jq'' @ nl @ f @ nl) ''jq'' [] = py_replace (nl @ f @ nl) ''jq'' []"
    using replace_nonempty_prefix[of "''jq''" "[]" "nl @ f @ nl"] by (simp add: py_replace_def)
  show ?thesis using assms(1) s b c j by (simp add: ask_ollama_def clean_response_def)
qed

lemma ask_ollama_removes_jq_witness:
  "cli_ollama \<lparr>cli_read = \<lambda>_. Inl File_not_found, cli_loads = \<lambda>_. Inl [],
               cli_ollama = \<lambda>_ _. Inr (''```jq'' @ nl @ ''.[] | select(.jq_version)'' @ nl @ ''```''),
               cli_jq = \<lambda>_. Inl []\<rparr> ''mistral:latest'' (''versions?'', preview ''[]'', structure_type
             \<lparr>cli_read = \<lambda>_. Inl File_not_found, cli_loads = \<lambda>_. Inl [],
               cli_ollama = \<lambda>_ _. Inr (''```jq'' @ nl @ ''.[] | select(.jq_version)'' @ nl @ ''```''),
               cli_jq = \<lambda>_. Inl []\<rparr> ''[]'') =
     Inr (''```jq'' @ nl @ ''.[] | select(.jq_version)'' @ nl @ ''```'') \<and>
   CHR ''`'' \<notin> set ''.[] | select(.jq_version)'' \<and>
   ask_ollama \<lparr>cli_read = \<lambda>_. Inl File_not_found, cli_loads = \<lambda>_. Inl [],
               cli_ollama = \<lambda>_ _. Inr (''```jq'' @ nl @ ''.[] | select(.jq_version)'' @ nl @ ''```''),
               cli_jq = \<lambda>_. Inl []\<rparr> ''versions?'' ''[]'' ''mistral:latest'' =
   Inr ''.[] | select(._version)''"
proof -
  let ?E = "\<lparr>cli_read = \<lambda>_. Inl File_not_found, cli_loads = \<lambda>_. Inl [],
               cli_ollama = \<lambda>_ _. Inr (''```jq'' @ nl @ ''.[] | select(.jq_version)'' @ nl @ ''```''),
               cli_jq = \<lambda>_. Inl []\<rparr>"
  have a: "cli_ollama ?E ''mistral:latest'' (''versions?'', preview ''[]'', structure_type ?E ''[]'') =
     Inr (''```jq'' @ nl @ ''.[] | select(.jq_version)'' @ nl @ ''```'')" by simp
  have b: "CHR ''`'' \<notin> set ''.[] | select(.jq_version)''" by simp
  have "py_strip (py_replace (nl @ ''.[] | select(.jq_version)'' @ nl) ''jq'' []) = ''.[] | select(._version)''"
    by (simp add: nl_def py_defs)
  then show ?thesis using ask_ollama_removes_jq[OF a b] a b by simp
qed

end
