(* ===== verification/SchemaTree.thy ===== *)
theory SchemaTree
  imports Analyzer
begin

text \<open>
  The schema browser, \<open>JsonSchemaViewer\<close> and \<open>JsonSchemaTreeWidget\<close> of
  src/gui.py (lines 428-730): \<open>update_schema_tree\<close> and \<open>_add_schema_item\<close>
  build a tree of items from the schema dictionary, \<open>_get_item_path\<close> turns an
  item into a path by walking up to the root and dropping the marker labels
  \<open>[Root]\<close> and \<open>elements\<close>, and \<open>_get_schema_at_path\<close> looks a path up in the
  schema. An item is its label, the value of its type column (before \<open>str\<close>)
  and its children. Python's \<open>in\<close> and \<open>[]\<close> on the schema's values are
  modelled with their exceptions: \<open>in\<close> on a number, a Boolean or \<open>None\<close> and
  indexing anything but a dictionary raise \<open>TypeError\<close>.
\<close>

datatype tree_item = TItem string pyval "tree_item list"

text \<open>\<open>type(v).__name__\<close> of a schema value.\<close>

fun pyval_type_name :: "pyval \<Rightarrow> string" where
  "pyval_type_name PNone = ''NoneType''"
| "pyval_type_name (PBool _) = ''bool''"
| "pyval_type_name (PInt _) = ''int''"
| "pyval_type_name (PFloat _) = ''float''"
| "pyval_type_name (PStr _) = ''str''"
| "pyval_type_name (PList _) = ''list''"
| "pyval_type_name (PTuple _) = ''tuple''"
| "pyval_type_name (PDict _) = ''dict''"

text \<open>
  \<open>_add_schema_item(parent, key, schema)\<close>: the item it adds. A
  \<open>properties\<close> entry is iterated with \<open>.items()\<close>; the analyzer always
  makes it a dictionary, and any other value gives no children here.
\<close>

function (sequential) add_schema_item :: "string \<Rightarrow> pyval \<Rightarrow> tree_item"
and add_items :: "(string \<times> pyval) list \<Rightarrow> tree_item list" where
  "add_schema_item key (PDict d) =
     (case map_of d ''type'' of
        Some item_type \<Rightarrow>
          TItem key item_type
            (if item_type = PStr ''object'' \<and> ''properties'' \<in> set (map fst d) then
               (case map_of d ''properties'' of Some (PDict ps) \<Rightarrow> add_items ps | _ \<Rightarrow> [])
             else if item_type = PStr ''array'' \<and> ''element_type'' \<in> set (map fst d) then
               [TItem ''elements'' (the (map_of d ''element_type''))
                  (case map_of d ''properties'' of Some (PDict ps) \<Rightarrow> add_items ps | _ \<Rightarrow> [])]
             else [])
      | None \<Rightarrow> TItem key (PStr ''dict'') [])"
| "add_schema_item key v = TItem key (PStr (pyval_type_name v)) []"
| "add_items [] = []"
| "add_items ((k, v) # rest) = add_schema_item k v # add_items rest"
  by pat_completeness auto
termination
proof -
  have aux: "size_list (size_prod (\<lambda>x. 0) size) ps < size_list (size_prod (\<lambda>x. 0) size) d"
    if "map_of d k = Some (PDict ps)" for d :: "(string \<times> pyval) list" and k ps
    using that by (induction d) (auto split: if_splits)
  show ?thesis
    by (relation "measure (case_sum (\<lambda>(k, v). size v) (\<lambda>ps. size (PDict ps)))") (auto dest: aux)
qed

text \<open>\<open>update_schema_tree()\<close>: no root item for an empty schema.\<close>

definition update_schema_tree :: "(string, pyval) pydict \<Rightarrow> tree_item option" where
  "update_schema_tree info =
     (if info = [] then None
      else if ''__array_stats'' \<in> set (map fst info) then
        (let count = (case the (map_of info ''__array_stats'') of
                        PDict st \<Rightarrow> (case map_of st ''count'' of Some c \<Rightarrow> c | None \<Rightarrow> PInt 0)
                      | _ \<Rightarrow> PInt 0)
         in Some (TItem ''[Root]'' (PStr ''array'')
                   (TItem ''Count'' count [] # add_items (filter (\<lambda>kv. fst kv \<noteq> ''__array_stats'') info))))
      else Some (TItem ''[Root]'' (PStr ''object'') (add_items info)))"

text \<open>
  \<open>_get_item_path(item)\<close>: the labels from the item up to the root, each one
  put in front of the path unless it is a marker.
\<close>

fun get_item_path :: "string list \<Rightarrow> string list \<Rightarrow> string list" where
  "get_item_path [] path = path"
| "get_item_path (text # up) path =
     get_item_path up (if text \<noteq> ''[Root]'' \<and> text \<noteq> ''elements'' then text # path else path)"

text \<open>The label chains from the root to every item of a tree.\<close>

fun item_chains :: "tree_item \<Rightarrow> string list list"
and items_chains :: "tree_item list \<Rightarrow> string list list" where
  "item_chains (TItem label _ children) = [label] # map (\<lambda>c. label # c) (items_chains children)"
| "items_chains [] = []"
| "items_chains (t # ts) = item_chains t @ items_chains ts"

text \<open>Python's \<open>k in v\<close> and \<open>v[k]\<close> for a string \<open>k\<close>.\<close>

fun py_in :: "string \<Rightarrow> pyval \<Rightarrow> string + bool" where
  "py_in k (PDict d) = Inr (k \<in> set (map fst d))"
| "py_in k (PStr s) = Inr (str_contains s k)"
| "py_in k (PList vs) = Inr (PStr k \<in> set vs)"
| "py_in k (PTuple vs) = Inr (PStr k \<in> set vs)"
| "py_in k _ = Inl ''TypeError''"

fun py_getitem :: "pyval \<Rightarrow> string \<Rightarrow> string + pyval" where
  "py_getitem (PDict d) k = (case map_of d k of Some v \<Rightarrow> Inr v | None \<Rightarrow> Inl ''KeyError'')"
| "py_getitem _ k = Inl ''TypeError''"

text \<open>
  \<open>_get_schema_at_path(path)\<close>: the loop over \<open>enumerate(path)\<close>, \<open>first\<close>
  telling whether \<open>i == 0\<close>. The result is the exception raised, or the schema
  found (None for \<open>return None\<close>).
\<close>

fun schema_walk :: "bool \<Rightarrow> pyval \<Rightarrow> string list \<Rightarrow> string + pyval option" where
  "schema_walk first schema [] = Inr (Some schema)"
| "schema_walk first schema (segment # rest) =
     (case py_in ''__array_stats'' schema of
        Inl e \<Rightarrow> Inl e
      | Inr has_stats \<Rightarrow>
          if has_stats \<and> first then schema_walk False schema rest
          else
            (case schema of
               PDict d \<Rightarrow>
                 if segment \<in> set (map fst d) then schema_walk False (the (map_of d segment)) rest
                 else if ''properties'' \<in> set (map fst d) then
                   (case py_in segment (the (map_of d ''properties'')) of
                      Inl e \<Rightarrow> Inl e
                    | Inr True \<Rightarrow>
                        (case py_getitem (the (map_of d ''properties'')) segment of
                           Inl e \<Rightarrow> Inl e
                         | Inr s \<Rightarrow> schema_walk False s rest)
                    | Inr False \<Rightarrow>
                        if ''type'' \<in> set (map fst d) \<and> the (map_of d ''type'') = PStr ''array'' then
                          (case py_in segment (the (map_of d ''properties'')) of
                             Inl e \<Rightarrow> Inl e
                           | Inr True \<Rightarrow>
                               (case py_getitem (the (map_of d ''properties'')) segment of
                                  Inl e \<Rightarrow> Inl e
                                | Inr s \<Rightarrow> schema_walk False s rest)
                           | Inr False \<Rightarrow> Inr None)
                        else Inr None)
                 else Inr None
             | _ \<Rightarrow> Inr None))"

text \<open>
  The same walk without the third branch of the loop (\<open>elif 'type' in schema
  and schema['type'] == 'array' ...\<close>), which can only be reached when the
  second branch has already found the segment absent from \<open>properties\<close>.
\<close>

fun schema_walk_two :: "bool \<Rightarrow> pyval \<Rightarrow> string list \<Rightarrow> string + pyval option" where
  "schema_walk_two first schema [] = Inr (Some schema)"
| "schema_walk_two first schema (segment # rest) =
     (case py_in ''__array_stats'' schema of
        Inl e \<Rightarrow> Inl e
      | Inr has_stats \<Rightarrow>
          if has_stats \<and> first then schema_walk_two False schema rest
          else
            (case schema of
               PDict d \<Rightarrow>
                 if segment \<in> set (map fst d) then schema_walk_two False (the (map_of d segment)) rest
                 else if ''properties'' \<in> set (map fst d) then
                   (case py_in segment (the (map_of d ''properties'')) of
                      Inl e \<Rightarrow> Inl e
                    | Inr True \<Rightarrow>
                        (case py_getitem (the (map_of d ''properties'')) segment of
                           Inl e \<Rightarrow> Inl e
                         | Inr s \<Rightarrow> schema_walk_two False s rest)
                    | Inr False \<Rightarrow> Inr None)
                 else Inr None
             | _ \<Rightarrow> Inr None))"

definition get_schema_at_path :: "(string, pyval) pydict \<Rightarrow> string list \<Rightarrow> string + pyval option" where
  "get_schema_at_path info path = (if path = [] then Inr (Some (PDict info)) else schema_walk True (PDict info) path)"

subsection \<open>Lemmas\<close>

lemma get_item_path_filter:
  "get_item_path up path = filter (\<lambda>t. t \<noteq> ''[Root]'' \<and> t \<noteq> ''elements'') (rev up) @ path"
  by (induction up arbitrary: path) auto

lemma schema_walk_third_branch_dead: "schema_walk first schema path = schema_walk_two first schema path"
proof (induction first schema path rule: schema_walk.induct)
  case (2 first schema segment rest)
  then show ?case
    by (simp split: sum.split bool.split pyval.split)
qed simp

lemma get_schema_at_path_object_key:
  assumes "''__array_stats'' \<notin> set (map fst info)" "map_of info k = Some v"
  shows "get_schema_at_path info [k] = Inr (Some v)"
proof -
  have "k \<in> set (map fst info)" using assms(2) by (force dest: map_of_SomeD)
  then show ?thesis using assms by (simp add: get_schema_at_path_def)
qed

lemma reserved_key_resolves_to_stats:
  "[''[Root]'', ''a'', ''elements'', ''stats''] \<in>
     set (item_chains (the (update_schema_tree
       (fst (analyze_json (\<lambda>_. []) (JObj [(''a'', JArr [JObj [(''stats'', JInt 1)]])]) 0))))) \<and>
   get_item_path (rev [''[Root]'', ''a'', ''elements'', ''stats'']) [] = [''a'', ''stats''] \<and>
   (\<exists>d. get_schema_at_path (fst (analyze_json (\<lambda>_. []) (JObj [(''a'', JArr [JObj [(''stats'', JInt 1)]])]) 0))
          [''a'', ''stats''] = Inr (Some (PDict d)) \<and> ''count'' \<in> set (map fst d))"
  by (simp add: analyze_object_def dict_set_def update_schema_tree_def get_schema_at_path_def
                compute_array_stats_def is_number_def split: prod.split)

lemma add_schema_item_label: "\<exists>ty ch. add_schema_item k v = TItem k ty ch"
  by (cases v) (auto split: option.split)

lemma items_chains_not_Nil: "[] \<notin> set (items_chains ts)"
proof (induction ts)
  case (Cons t ts)
  then show ?case by (cases t) auto
qed simp

lemma items_chains_singleton: "[k] \<in> set (items_chains (add_items d)) \<Longrightarrow> k \<in> set (map fst d)"
proof (induction d)
  case (Cons kv d)
  obtain a b where kv: "kv = (a, b)" by fastforce
  obtain ty ch where "add_schema_item a b = TItem a ty ch" using add_schema_item_label by blast
  then show ?case using Cons items_chains_not_Nil[of ch] kv by auto
qed simp

end
