(* ===== verification/Models.thy ===== *)
theory Models
  imports Prelude
begin

text \<open>
  Model selection in the chat widget, \<open>ChatWidget.load_models\<close> and
  \<open>_add_ollama_models\<close> of src/gui.py (lines 794-855): the model combo box is
  filled with the models \<open>ollama list\<close> prints and those the \<open>llm\<close> library
  knows, and a default is selected. The combo box is its list of items and its
  current index; adding items to an empty box selects the first one, as Qt
  does. The outputs of \<open>ollama list\<close> (an exception's message, or the return
  code and standard output) and of \<open>llm.get_models()\<close> (an exception's message or
  the model ids) are inputs; what is appended to the chat is a list of messages.
\<close>

record combo =
  combo_items :: "string list"
  combo_current :: "nat option"

text \<open>\<open>str(n)\<close> for a natural number.\<close>

fun show_nat :: "nat \<Rightarrow> string" where
  "show_nat n = (if n < 10 then [char_of (48 + n)] else show_nat (n div 10) @ [char_of (48 + n mod 10)])"

text \<open>\<open>s.split()\<close>: the maximal runs of non-whitespace characters.\<close>

function split_ws :: "string \<Rightarrow> string list" where
  "split_ws s =
     (let t = dropWhile py_isspace s in
      if t = [] then [] else takeWhile (\<lambda>c. \<not> py_isspace c) t # split_ws (dropWhile (\<lambda>c. \<not> py_isspace c) t))"
  by pat_completeness auto
termination
proof (relation "measure length")
  fix s t
  assume t: "t = dropWhile py_isspace s" and ne: "\<not> t = []"
  obtain c cs where c: "t = c # cs" using ne by (cases t) auto
  have "\<not> py_isspace c" using t c by (metis dropWhile_eq_Cons_conv)
  then have "length (dropWhile (\<lambda>c. \<not> py_isspace c) t) \<le> length cs"
    using c by (simp add: length_dropWhile_le)
  moreover have "length t \<le> length s" using t by (simp add: length_dropWhile_le)
  ultimately show "(dropWhile (\<lambda>c. \<not> py_isspace c) t, s) \<in> measure length" using c by simp
qed simp

text \<open>\<open>addItems\<close>, \<open>findText\<close> (exact match), \<open>setCurrentText\<close>, \<open>setCurrentIndex\<close>.\<close>

definition combo_add_items :: "string list \<Rightarrow> combo \<Rightarrow> combo" where
  "combo_add_items xs c =
     (let c' = c\<lparr>combo_items := combo_items c @ xs\<rparr> in
      if combo_current c = None \<and> combo_items c' \<noteq> [] then c'\<lparr>combo_current := Some 0\<rparr> else c')"

definition find_text :: "string \<Rightarrow> combo \<Rightarrow> bool" where
  "find_text t c = (t \<in> set (combo_items c))"

text \<open>The position \<open>findText\<close> returns: the first item equal to the text.\<close>

fun find_index :: "string list \<Rightarrow> string \<Rightarrow> nat" where
  "find_index [] t = 0"
| "find_index (x # xs) t = (if x = t then 0 else Suc (find_index xs t))"

definition set_current_text :: "string \<Rightarrow> combo \<Rightarrow> combo" where
  "set_current_text t c =
     (if t \<in> set (combo_items c) then c\<lparr>combo_current := Some (find_index (combo_items c) t)\<rparr> else c)"

definition current_text :: "combo \<Rightarrow> string" where
  "current_text c = (case combo_current c of Some i \<Rightarrow> combo_items c ! i | None \<Rightarrow> [])"

text \<open>The model ids \<open>_add_ollama_models\<close> reads from \<open>ollama list\<close>: the first word of every non-blank line after the header.\<close>

definition parse_ollama_list :: "string \<Rightarrow> string list" where
  "parse_ollama_list stdout =
     map (\<lambda>line. ''ollama:'' @ hd (split_ws line))
       (filter (\<lambda>line. py_strip line \<noteq> []) (drop 1 (split_on (CHR 0x0A) (py_strip stdout))))"

definition add_ollama_models :: "string + int \<times> string \<Rightarrow> combo \<Rightarrow> combo \<times> string list \<times> bool" where
  "add_ollama_models ollama_list c =
     (case ollama_list of
        Inl e \<Rightarrow> (c, [''<i>Error detecting Ollama models: '' @ e @ ''</i>''], False)
      | Inr (rc, stdout) \<Rightarrow>
          (let added = parse_ollama_list stdout in
           if rc = 0 \<and> added \<noteq> [] then
             (combo_add_items added c, [''<i>Found '' @ show_nat (length added) @ '' Ollama models</i>''], True)
           else (c, [], False)))"

definition load_models :: "string + int \<times> string \<Rightarrow> string + string list \<Rightarrow> combo \<Rightarrow> combo \<times> string list" where
  "load_models ollama_list llm_models c =
     (let (c1, m1, _) = add_ollama_models ollama_list c in
      case llm_models of
        Inl e \<Rightarrow>
          (let m2 = m1 @ [''<i>Error loading models: '' @ e @ ''</i>'']in
           if combo_items c1 = [] then
             (let (c2, m3, _) = add_ollama_models ollama_list c1 in
              if combo_items c2 = [] then (combo_add_items [''gpt-3.5-turbo''] c2, m2 @ m3) else (c2, m2 @ m3))
           else (c1, m2))
      | Inr all_models \<Rightarrow>
          (let model_names = filter (\<lambda>m. \<not> startswith m ''ollama:'' \<and> \<not> find_text m c1) all_models;
               c2 = (if model_names \<noteq> [] then combo_add_items model_names c1 else c1);
               c3 = (if find_text ''ollama:mistral'' c2 then set_current_text ''ollama:mistral'' c2
                     else if combo_items c2 \<noteq> [] then c2\<lparr>combo_current := Some 0\<rparr> else c2)
           in (c3, m1 @ [''<i>Using model: '' @ current_text c3 @ ''</i>''])))"

subsection \<open>Lemmas\<close>

text \<open>
  The first word of each line of \<open>ollama list\<close> is a name with its tag, so the
  default \<open>ollama:mistral\<close> is never among the items and the first model stays selected.
\<close>

lemma parse_ollama_list_example:
  "parse_ollama_list (''NAME              ID              SIZE      MODIFIED'' @ [CHR 0x0A] @
                      ''mistral:latest    f974a74358d6    4.1 GB    2 days ago'' @ [CHR 0x0A] @
                      ''llama3:8b         365c0bd3c000    4.7 GB    5 weeks ago'' @ [CHR 0x0A]) =
   [''ollama:mistral:latest'', ''ollama:llama3:8b'']"
  by (simp add: parse_ollama_list_def py_defs)

lemma add_ollama_models_items:
  "combo_items (fst (add_ollama_models r c)) = combo_items c \<or>
   (\<exists>out. r = Inr (0, out) \<and> combo_items (fst (add_ollama_models r c)) = combo_items c @ parse_ollama_list out)"
  by (auto simp: add_ollama_models_def combo_add_items_def Let_def split: sum.split prod.split)

lemma load_models_default_unreachable:
  assumes "''ollama:mistral'' \<notin> set (parse_ollama_list out)" "combo_items c = []" "combo_current c = None"
    and "combo_items (fst (load_models (Inr (rc, out)) (Inr ms) c)) \<noteq> []"
  shows "combo_current (fst (load_models (Inr (rc, out)) (Inr ms) c)) = Some 0"
proof -
  obtain c1 m1 b where a: "add_ollama_models (Inr (rc, out)) c = (c1, m1, b)" by (metis prod_cases3)
  have i1: "''ollama:mistral'' \<notin> set (combo_items c1)"
    using add_ollama_models_items[of "Inr (rc, out)" c] a assms(1,2) by auto
  let ?names = "filter (\<lambda>m. \<not> startswith m ''ollama:'' \<and> \<not> find_text m c1) ms"
  let ?c2 = "if ?names \<noteq> [] then combo_add_items ?names c1 else c1"
  have "''ollama:mistral'' \<notin> set ?names" by simp
  then have "\<not> find_text ''ollama:mistral'' ?c2" using i1 by (simp add: find_text_def combo_add_items_def Let_def)
  moreover have c3: "fst (load_models (Inr (rc, out)) (Inr ms) c) =
      (if find_text ''ollama:mistral'' ?c2 then set_current_text ''ollama:mistral'' ?c2
       else if combo_items ?c2 \<noteq> [] then ?c2\<lparr>combo_current := Some 0\<rparr> else ?c2)"
    using a by (simp add: load_models_def Let_def)
  ultimately have "fst (load_models (Inr (rc, out)) (Inr ms) c) =
      (if combo_items ?c2 \<noteq> [] then ?c2\<lparr>combo_current := Some 0\<rparr> else ?c2)"
    by simp
  then show ?thesis using assms(4) by (cases "combo_items ?c2 = []") simp_all
qed

lemma tagged_ids_no_default:
  "list_all (\<lambda>w. CHR '':'' \<in> set (drop 7 w)) ids \<Longrightarrow> ''ollama:mistral'' \<notin> set ids"
  by (auto simp: list_all_iff)

subsection \<open>Properties\<close>

text \<open>
  C37: The intended default model is never selected: \<open>ollama list\<close> prints every model
  with its tag, so whenever each id built from it carries a tag, \<open>findText("ollama:mistral")\<close>
  fails and \<open>load_models\<close> selects the first model of the (previously empty) box.
\<close>

theorem load_models_first_model:
  assumes "combo_items c = []" "combo_current c = None"
    and "list_all (\<lambda>w. CHR '':'' \<in> set (drop 7 w)) (parse_ollama_list out)"
    and "combo_items (fst (load_models (Inr (rc, out)) (Inr ms) c)) \<noteq> []"
  shows "combo_current (fst (load_models (Inr (rc, out)) (Inr ms) c)) = Some 0"
  using load_models_default_unreachable[OF tagged_ids_no_default[OF assms(3)] assms(1,2,4)] .

lemma load_models_first_model_witness:
  "combo_items \<lparr>combo_items = [], combo_current = None\<rparr> = [] \<and> combo_current \<lparr>combo_items = [], combo_current = None\<rparr> = None \<and>
   list_all (\<lambda>w. CHR '':'' \<in> set (drop 7 w))
     (parse_ollama_list (''NAME              ID              SIZE      MODIFIED'' @ [CHR 0x0A] @
                         ''mistral:latest    f974a74358d6    4.1 GB    2 days ago'' @ [CHR 0x0A])) \<and>
   combo_items (fst (load_models (Inr (0, ''NAME              ID              SIZE      MODIFIED'' @ [CHR 0x0A] @
                         ''mistral:latest    f974a74358d6    4.1 GB    2 days ago'' @ [CHR 0x0A])) (Inr [''gpt-4o''])
                    \<lparr>combo_items = [], combo_current = None\<rparr>)) \<noteq> [] \<and>
   combo_current (fst (load_models (Inr (0, ''NAME              ID              SIZE      MODIFIED'' @ [CHR 0x0A] @
                         ''mistral:latest    f974a74358d6    4.1 GB    2 days ago'' @ [CHR 0x0A])) (Inr [''gpt-4o''])
                    \<lparr>combo_items = [], combo_current = None\<rparr>)) = Some 0"
proof -
  let ?out = "''NAME              ID              SIZE      MODIFIED'' @ [CHR 0x0A] @
              ''mistral:latest    f974a74358d6    4.1 GB    2 days ago'' @ [CHR 0x0A]"
  have p: "parse_ollama_list ?out = [''ollama:mistral:latest'']" by (simp add: parse_ollama_list_def py_defs)
  have a: "list_all (\<lambda>w. CHR '':'' \<in> set (drop 7 w)) (parse_ollama_list ?out)" using p by simp
  have n: "combo_items (fst (load_models (Inr (0, ?out)) (Inr [''gpt-4o'']) \<lparr>combo_items = [], combo_current = None\<rparr>)) \<noteq> []"
    using p by (simp add: load_models_def add_ollama_models_def combo_add_items_def Let_def find_text_def set_current_text_def)
  show ?thesis using load_models_first_model[of "\<lparr>combo_items = [], combo_current = None\<rparr>" ?out 0 "[''gpt-4o'']"] a n
    by simp
qed

end
