(* ===== verification/SchemaTyping.thy ===== *)
theory SchemaTyping
  imports Analyzer
begin

text \<open>
  The shape of the schema \<open>JsonSchemaAnalyzer\<close> builds (src/gui.py 168-237), as a
  typing judgment in the style of a type system: \<open>node_typed n\<close> says that the
  node \<open>n\<close> is a dictionary whose \<open>type\<close> tag agrees with its contents (an
  object node has a \<open>properties\<close> schema, an array node an \<open>element_type\<close>
  and statistics with a \<open>count\<close>, a scalar node a \<open>value\<close> of the Python
  class its tag names), and \<open>schema_typed d\<close> that every entry of the dictionary
  \<open>d\<close> is a typed node. The schema tree and the details panel read these keys
  without checking them; the theorem below shows that every node the analyzer
  produces has them, except the reserved \<open>__array_stats\<close> entry of a root
  array, which holds statistics and no \<open>type\<close>.
\<close>

text \<open>The names \<open>element_type\<close> can take: a class name or \<open>mixed\<close>.\<close>

definition element_type_names :: "string list" where
  "element_type_names = map type_name [PyDict, PyList, PyStr, PyInt, PyFloat, PyBool, PyNone] @ [''mixed'']"

text \<open>The tag of a scalar node against the class of its value.\<close>

fun value_has_type :: "string \<Rightarrow> pyval \<Rightarrow> bool" where
  "value_has_type t PNone = (t = ''NoneType'')"
| "value_has_type t (PBool _) = (t = ''bool'')"
| "value_has_type t (PInt _) = (t = ''int'')"
| "value_has_type t (PFloat _) = (t = ''float'')"
| "value_has_type t (PStr _) = (t = ''str'')"
| "value_has_type t _ = False"

text \<open>The typing judgment on schema nodes and schemas.\<close>

inductive node_typed :: "pyval \<Rightarrow> bool" and schema_typed :: "(string, pyval) pydict \<Rightarrow> bool" where
  schema_Nil: "schema_typed []"
| schema_Cons: "node_typed n \<Longrightarrow> schema_typed d \<Longrightarrow> schema_typed ((k, n) # d)"
| object: "map_of d ''type'' = Some (PStr ''object'') \<Longrightarrow> map_of d ''properties'' = Some (PDict ps) \<Longrightarrow>
    schema_typed ps \<Longrightarrow> node_typed (PDict d)"
| array: "map_of d ''type'' = Some (PStr ''array'') \<Longrightarrow> map_of d ''element_type'' = Some (PStr et) \<Longrightarrow>
    et \<in> set element_type_names \<Longrightarrow> map_of d ''stats'' = Some (PDict st) \<Longrightarrow>
    map_of st ''count'' = Some (PInt c) \<Longrightarrow> map_of d ''properties'' = None \<Longrightarrow> node_typed (PDict d)"
| array_props: "map_of d ''type'' = Some (PStr ''array'') \<Longrightarrow> map_of d ''element_type'' = Some (PStr et) \<Longrightarrow>
    et \<in> set element_type_names \<Longrightarrow> map_of d ''stats'' = Some (PDict st) \<Longrightarrow>
    map_of st ''count'' = Some (PInt c) \<Longrightarrow> map_of d ''properties'' = Some (PDict ps) \<Longrightarrow>
    schema_typed ps \<Longrightarrow> node_typed (PDict d)"
| scalar: "map_of d ''type'' = Some (PStr t) \<Longrightarrow> map_of d ''value'' = Some v \<Longrightarrow> value_has_type t v \<Longrightarrow>
    map_of d ''stats'' = Some (PDict st) \<Longrightarrow> map_of st ''type'' = Some (PStr t) \<Longrightarrow>
    map_of d ''examples'' = Some (PList es) \<Longrightarrow> node_typed (PDict d)"

code_pred node_typed .

subsection \<open>Lemmas\<close>

inductive_cases schema_typed_ConsE: "schema_typed ((k, n) # d)"

lemma schema_typed_iff: "schema_typed d \<longleftrightarrow> (\<forall>kv \<in> set d. node_typed (snd kv))"
proof
  show "schema_typed d \<Longrightarrow> \<forall>kv\<in>set d. node_typed (snd kv)"
    by (induction d) (auto elim: schema_typed_ConsE)
  show "\<forall>kv\<in>set d. node_typed (snd kv) \<Longrightarrow> schema_typed d"
    by (induction d) (auto intro: node_typed_schema_typed.intros)
qed

lemma compute_value_stats_type:
  "map_of (compute_value_stats key v p) ''type'' = Some (PStr (type_name (py_type_of v)))"
  by (simp add: compute_value_stats_def dict_set_def Let_def update_conv' split: option.split json.split)


lemma schema_typed_dict_set: "schema_typed d \<Longrightarrow> node_typed n \<Longrightarrow> schema_typed (dict_set d k n)"
  by (induction d) (auto simp: dict_set_def elim!: schema_typed_ConsE intro: node_typed_schema_typed.intros)

lemma type_name_element_type: "type_name t \<in> set element_type_names"
  by (cases t) (simp_all add: element_type_names_def)

lemma numeric_stats_count: "map_of (numeric_stats arr st) ''count'' = map_of st ''count''"
  by (simp add: numeric_stats_def Let_def)

lemma string_stats_count: "map_of (string_stats strs arr smp st) ''count'' = map_of st ''count''"
  by (simp add: string_stats_def Let_def)

lemma compute_array_stats_count:
  "\<exists>st. fst (compute_array_stats rnd k vs) = PDict st \<and> map_of st ''count'' = Some (PInt (int (length vs)))"
  by (simp add: compute_array_stats_def Let_def numeric_stats_count string_stats_count)

lemma analyze_typed:
  "node_typed (fst (analyze_value rnd p key v k))"
  "schema_typed s \<Longrightarrow> schema_typed (fst (analyze_entries rnd p items s k))"
proof (induction rnd p key v k and rnd p items s k rule: analyze_value_analyze_entries.induct)
  case (1 rnd parent key ob k)
  then show ?case
    by (auto simp: split_beta intro!: node_typed_schema_typed.object node_typed_schema_typed.schema_Nil)
next
  case (2 rnd parent key vs k)
  obtain st where st: "fst (compute_array_stats rnd k vs) = PDict st"
    and c: "map_of st ''count'' = Some (PInt (int (length vs)))"
    using compute_array_stats_count by blast
  show ?case
  proof (cases vs)
    case Nil
    then show ?thesis using st c
      by (auto simp: split_beta type_name_element_type element_type_names_def
          intro!: node_typed_schema_typed.array)
  next
    case (Cons x xs)
    show ?thesis
    proof (cases x)
      case (JObj ob)
      have "schema_typed (fst (analyze_entries rnd ob ob [] (snd (compute_array_stats rnd k vs))))"
        using "2.IH"[OF refl refl, of "fst (compute_array_stats rnd k vs)" "snd (compute_array_stats rnd k vs)"
            _ x xs ob]
        using Cons JObj by (simp add: node_typed_schema_typed.schema_Nil)
      then show ?thesis using st c Cons JObj
        by (auto simp: split_beta type_name_element_type element_type_names_def
            intro!: node_typed_schema_typed.array_props)
    qed (use st c Cons in \<open>auto simp: split_beta type_name_element_type element_type_names_def
          intro!: node_typed_schema_typed.array\<close>)
  qed
qed (auto simp: split_beta compute_value_stats_type schema_typed_dict_set
      intro!: node_typed_schema_typed.scalar)


lemma analyze_object_typed: "schema_typed (fst (analyze_object rnd ob k))"
  by (simp add: analyze_object_def analyze_typed(2) node_typed_schema_typed.schema_Nil)

lemma merge_new_typed: "schema_typed comb \<Longrightarrow> schema_typed s \<Longrightarrow> schema_typed (merge_new comb s)"
proof (induction comb s rule: merge_new.induct)
  case (2 comb key v rest)
  from "2.prems"(2) have v: "node_typed v" and r: "schema_typed rest"
    by (auto elim: schema_typed_ConsE)
  have "schema_typed (if key \<in> set (map fst comb) then comb else dict_set comb key v)"
    using "2.prems"(1) v by (simp add: schema_typed_dict_set)
  then show ?case using "2.IH" r by simp
qed simp

lemma combine_items_typed: "schema_typed comb \<Longrightarrow> schema_typed (fst (combine_items rnd vs comb k))"
  by (induction rnd vs comb k rule: combine_items.induct)
     (auto simp: split_beta merge_new_typed analyze_object_typed)

subsection \<open>Properties\<close>

text \<open>
  C9: Every entry of the schema \<open>analyze_json\<close> returns, other than the reserved
  \<open>__array_stats\<close> entry, is a well-typed node: whatever the document and
  whatever \<open>random.sample\<close> draws, each node's \<open>type\<close> tag matches its shape
  and, for a scalar, the class of its \<open>value\<close>.
\<close>

theorem analyze_json_typed:
  "schema_typed (filter (\<lambda>kv. fst kv \<noteq> ''__array_stats'') (fst (analyze_json rnd v k)))"
proof (cases v)
  case (JArr vs)
  have "schema_typed (fst (combine_items rnd (take 10 vs) [] k))"
    by (simp add: combine_items_typed node_typed_schema_typed.schema_Nil)
  then show ?thesis using JArr set_dict_set_subset
    by (fastforce simp: schema_typed_iff split_beta)
next
  case (JObj ob)
  then show ?thesis using analyze_object_typed[of rnd ob k] by (simp add: schema_typed_iff)
qed (simp_all add: node_typed_schema_typed.schema_Nil)

end
