(* ===== verification/Highlight.thy ===== *)
theory Highlight
  imports Prelude
begin

text \<open>
  The syntax highlighter of the JSON view, \<open>JsonSyntaxHighlighter\<close> of src/gui.py
  (lines 27-84). Seven \<open>QRegularExpression\<close> rules are tried in order on each
  text block; every match of every rule, found by \<open>globalMatch\<close>, gets the
  rule's format through \<open>setFormat\<close>, which overwrites what an earlier rule set.
  The patterns are written as backtracking regular expressions (\<open>rx\<close>) whose
  matcher \<open>rx_ends\<close> lists the positions where a match can end, in the order
  PCRE2 tries them; the first one is the match PCRE2 reports. Without the
  Unicode-properties option \<open>\d\<close>, \<open>\w\<close> and \<open>\s\<close> are the ASCII classes.
\<close>

subsection \<open>Backtracking regular expressions\<close>

text \<open>A position in the block: the text before it, reversed, and the text after it.\<close>

type_synonym rx_pos = "string \<times> string"

datatype rx =
    RChr "char \<Rightarrow> bool"
  | REps
  | RSeq rx rx
  | RAlt rx rx
  | RStar rx
  | RWordB
  | RAhead rx

definition pcre_digit :: "char \<Rightarrow> bool" where
  "pcre_digit c = (let n = (of_char c :: nat) in 48 \<le> n \<and> n \<le> 57)"

definition pcre_word :: "char \<Rightarrow> bool" where
  "pcre_word c = (let n = (of_char c :: nat) in
     (48 \<le> n \<and> n \<le> 57) \<or> (65 \<le> n \<and> n \<le> 90) \<or> n = 95 \<or> (97 \<le> n \<and> n \<le> 122))"

definition pcre_space :: "char \<Rightarrow> bool" where
  "pcre_space c = (c \<in> {CHR '' '', CHR 0x09, CHR 0x0A, CHR 0x0B, CHR 0x0C, CHR 0x0D})"

text \<open>\<open>\b\<close>: a word character on exactly one side.\<close>

definition word_boundary :: "rx_pos \<Rightarrow> bool" where
  "word_boundary p =
     ((fst p \<noteq> [] \<and> pcre_word (hd (fst p))) \<noteq> (snd p \<noteq> [] \<and> pcre_word (hd (snd p))))"

text \<open>
  The ends of the matches of a pattern from a position, in PCRE2's order:
  alternatives left first, \<open>*\<close> greedy; an iteration of \<open>*\<close> that consumes
  nothing ends the loop.
\<close>

function rx_ends :: "rx \<Rightarrow> rx_pos \<Rightarrow> rx_pos list" where
  "rx_ends (RChr P) p = (case snd p of c # cs \<Rightarrow> if P c then [(c # fst p, cs)] else [] | [] \<Rightarrow> [])"
| "rx_ends REps p = [p]"
| "rx_ends (RSeq r1 r2) p = concat (map (rx_ends r2) (rx_ends r1 p))"
| "rx_ends (RAlt r1 r2) p = rx_ends r1 p @ rx_ends r2 p"
| "rx_ends (RStar r) p =
     concat (map (\<lambda>q. if length (snd q) < length (snd p) then rx_ends (RStar r) q else []) (rx_ends r p)) @ [p]"
| "rx_ends RWordB p = (if word_boundary p then [p] else [])"
| "rx_ends (RAhead r) p = (if rx_ends r p \<noteq> [] then [p] else [])"
  by pat_completeness auto
termination
  by (relation "measures [\<lambda>(r, p). size r, \<lambda>(r, p). length (snd p)]") auto

definition rx_opt :: "rx \<Rightarrow> rx" where
  "rx_opt r = RAlt r REps"

definition rx_plus :: "rx \<Rightarrow> rx" where
  "rx_plus r = RSeq r (RStar r)"

definition rx_lit :: "string \<Rightarrow> rx" where
  "rx_lit s = foldr (\<lambda>c r. RSeq (RChr (\<lambda>x. x = c)) r) s REps"

text \<open>The position \<open>i\<close> of the block \<open>t\<close>.\<close>

definition pos_at :: "string \<Rightarrow> nat \<Rightarrow> rx_pos" where
  "pos_at t i = (rev (take i t), drop i t)"

text \<open>
  \<open>regex.globalMatch(text)\<close>: the first match at the leftmost position from
  \<open>i\<close> on, as start and length, then the matches after its end. After an empty
  match the search moves on by one character; none of the seven patterns matches
  the empty string, so PCRE2's retry at the same position never applies.
\<close>

function global_match :: "rx \<Rightarrow> string \<Rightarrow> nat \<Rightarrow> (nat \<times> nat) list" where
  "global_match r t i =
     (if length t < i then []
      else case rx_ends r (pos_at t i) of
             [] \<Rightarrow> global_match r t (Suc i)
           | q # _ \<Rightarrow> (let e = length (fst q) in (i, e - i) # global_match r t (max e (Suc i))))"
  by pat_completeness auto
termination
  by (relation "measure (\<lambda>(r, t, i). Suc (length t) - i)") auto

subsection \<open>The highlighter\<close>

datatype fmt = FString | FNumber | FBoolean | FNull | FKey | FBrackets | FColon

text \<open>The \<open>formats\<close> table and \<open>create_format\<close>: colour and weight.\<close>

fun format_of :: "fmt \<Rightarrow> string \<times> bool" where
  "format_of FString = (''#269926'', False)"
| "format_of FNumber = (''#3030F0'', False)"
| "format_of FBoolean = (''#CC6600'', True)"
| "format_of FNull = (''#CC6600'', True)"
| "format_of FKey = (''#990000'', False)"
| "format_of FBrackets = (''#666666'', True)"
| "format_of FColon = (''#666666'', False)"

text \<open>\<open>"(?:\\.|[^"\\])*"\<close>\<close>

definition string_rx :: rx where
  "string_rx =
     RSeq (RChr (\<lambda>c. c = CHR 0x22))
       (RSeq (RStar (RAlt (RSeq (RChr (\<lambda>c. c = CHR 0x5C)) (RChr (\<lambda>c. c \<noteq> CHR 0x0A)))
                          (RChr (\<lambda>c. c \<noteq> CHR 0x22 \<and> c \<noteq> CHR 0x5C))))
             (RChr (\<lambda>c. c = CHR 0x22)))"

text \<open>\<open>\b-?\d+(?:\.\d+)?(?:[eE][+-]?\d+)?\b\<close>\<close>

definition number_rx :: rx where
  "number_rx =
     RSeq RWordB (RSeq (rx_opt (RChr (\<lambda>c. c = CHR ''-''))) (RSeq (rx_plus (RChr pcre_digit))
       (RSeq (rx_opt (RSeq (RChr (\<lambda>c. c = CHR ''.'')) (rx_plus (RChr pcre_digit))))
         (RSeq (rx_opt (RSeq (RChr (\<lambda>c. c = CHR ''e'' \<or> c = CHR ''E''))
                  (RSeq (rx_opt (RChr (\<lambda>c. c = CHR ''+'' \<or> c = CHR ''-''))) (rx_plus (RChr pcre_digit)))))
           RWordB))))"

text \<open>\<open>\b(?:true|false)\b\<close> and \<open>\bnull\b\<close>\<close>

definition boolean_rx :: rx where
  "boolean_rx = RSeq RWordB (RSeq (RAlt (rx_lit ''true'') (rx_lit ''false'')) RWordB)"

definition null_rx :: rx where
  "null_rx = RSeq RWordB (RSeq (rx_lit ''null'') RWordB)"

text \<open>\<open>"(?:\\.|[^"\\])*"(?=\s*:)\<close>\<close>

definition key_rx :: rx where
  "key_rx = RSeq string_rx (RAhead (RSeq (RStar (RChr pcre_space)) (RChr (\<lambda>c. c = CHR '':''))))"

definition brackets_rx :: rx where
  "brackets_rx = RChr (\<lambda>c. c \<in> set ''[]{}'')"

definition colon_rx :: rx where
  "colon_rx = RChr (\<lambda>c. c = CHR '':'')"

text \<open>\<open>highlighting_rules\<close>, in the order \<open>__init__\<close> adds them.\<close>

definition highlighting_rules :: "(rx \<times> fmt) list" where
  "highlighting_rules =
     [(string_rx, FString), (number_rx, FNumber), (boolean_rx, FBoolean), (null_rx, FNull),
      (key_rx, FKey), (brackets_rx, FBrackets), (colon_rx, FColon)]"

text \<open>\<open>setFormat(start, count, format)\<close> on the block's formats.\<close>

definition set_format :: "nat \<Rightarrow> nat \<Rightarrow> fmt \<Rightarrow> fmt option list \<Rightarrow> fmt option list" where
  "set_format s n f fs = map (\<lambda>(j, x). if s \<le> j \<and> j < s + n then Some f else x) (zip [0..<length fs] fs)"

text \<open>\<open>highlightBlock(text)\<close>: the format of every character of the block.\<close>

definition highlight_block :: "string \<Rightarrow> fmt option list" where
  "highlight_block t =
     fold (\<lambda>(r, f) fs. fold (\<lambda>(s, n). set_format s n f) (global_match r t 0) fs)
       highlighting_rules (replicate (length t) None)"

subsection \<open>Declarative semantics of the patterns\<close>

text \<open>
  \<open>rx_sem r p q\<close>: the pattern \<open>r\<close> can match the text between the positions
  \<open>p\<close> and \<open>q\<close>, in the style of the language semantics of regular expressions,
  with \<open>\b\<close> and lookahead as tests on the position.
\<close>

inductive rx_sem :: "rx \<Rightarrow> rx_pos \<Rightarrow> rx_pos \<Rightarrow> bool" where
  chr: "P c \<Longrightarrow> rx_sem (RChr P) (b, c # a) (c # b, a)"
| eps: "rx_sem REps p p"
| seq: "rx_sem r1 p q \<Longrightarrow> rx_sem r2 q u \<Longrightarrow> rx_sem (RSeq r1 r2) p u"
| alt1: "rx_sem r1 p q \<Longrightarrow> rx_sem (RAlt r1 r2) p q"
| alt2: "rx_sem r2 p q \<Longrightarrow> rx_sem (RAlt r1 r2) p q"
| star0: "rx_sem (RStar r) p p"
| star: "rx_sem r p q \<Longrightarrow> rx_sem (RStar r) q u \<Longrightarrow> rx_sem (RStar r) p u"
| wordb: "word_boundary p \<Longrightarrow> rx_sem RWordB p p"
| ahead: "rx_sem r p q \<Longrightarrow> rx_sem (RAhead r) p p"

text \<open>The least number of characters a match consumes.\<close>

fun min_width :: "rx \<Rightarrow> nat" where
  "min_width (RChr P) = 1"
| "min_width (RSeq r1 r2) = min_width r1 + min_width r2"
| "min_width (RAlt r1 r2) = min (min_width r1) (min_width r2)"
| "min_width _ = 0"

text \<open>No starred part of the pattern can match the empty string.\<close>

fun star_ok :: "rx \<Rightarrow> bool" where
  "star_ok (RStar r) = (0 < min_width r \<and> star_ok r)"
| "star_ok (RSeq r1 r2) = (star_ok r1 \<and> star_ok r2)"
| "star_ok (RAlt r1 r2) = (star_ok r1 \<and> star_ok r2)"
| "star_ok (RAhead r) = star_ok r"
| "star_ok _ = True"

text \<open>A minus sign is preceded by an exponent letter, the previous character given.\<close>

fun minus_after_exp :: "char option \<Rightarrow> string \<Rightarrow> bool" where
  "minus_after_exp prev [] = True"
| "minus_after_exp prev (c # cs) =
     ((c = CHR ''-'' \<longrightarrow> prev \<in> {Some (CHR ''e''), Some (CHR ''E'')}) \<and> minus_after_exp (Some c) cs)"

subsection \<open>Lemmas\<close>

text \<open>The \<open>*\<close> equation unfolds only where a proof asks for it.\<close>

declare rx_ends.simps(5) [simp del]

lemma length_set_format [simp]: "length (set_format s n f fs) = length fs"
  by (simp add: set_format_def)

lemma nth_set_format:
  "i < length fs \<Longrightarrow> set_format s n f fs ! i = (if s \<le> i \<and> i < s + n then Some f else fs ! i)"
  by (simp add: set_format_def)

lemma length_fold_set_format [simp]:
  "length (fold (\<lambda>(s, n). set_format s n f) ms fs) = length fs"
  by (induction ms arbitrary: fs) auto

lemma nth_fold_set_format_unit:
  "i < length fs \<Longrightarrow>
   fold (\<lambda>(s, n). set_format s n f) (map (\<lambda>j. (j, Suc 0)) js) fs ! i = (if i \<in> set js then Some f else fs ! i)"
  by (induction js arbitrary: fs) (auto simp: nth_set_format)

lemma global_match_beyond: "length t < i \<Longrightarrow> global_match r t i = []"
  by (subst global_match.simps) simp

lemma global_match_chr:
  "global_match (RChr P) t i = map (\<lambda>j. (j, Suc 0)) (filter (\<lambda>j. P (t ! j)) [i..<length t])"
proof (induction "RChr P" t i rule: global_match.induct)
  case (1 t i)
  show ?case
  proof (cases "i < length t")
    case True
    then have d: "drop i t = t ! i # drop (Suc i) t" by (simp add: Cons_nth_drop_Suc)
    have u: "[i..<length t] = i # [Suc i..<length t]" using True by (simp add: upt_rec)
    have e: "rx_ends (RChr P) (pos_at t i) =
             (if P (t ! i) then [(t ! i # rev (take i t), drop (Suc i) t)] else [])"
      by (simp add: pos_at_def d)
    have l: "length (t ! i # rev (take i t)) = Suc i" using True by simp
    have rec: "global_match (RChr P) t (Suc i) = map (\<lambda>j. (j, Suc 0)) (filter (\<lambda>j. P (t ! j)) [Suc i..<length t])"
    proof (cases "P (t ! i)")
      case True
      then show ?thesis using "1.hyps"(2)[of "(t ! i # rev (take i t), drop (Suc i) t)" "[]"] e l \<open>i < length t\<close>
        by (simp del: global_match.simps)
    next
      case False
      then show ?thesis using "1.hyps"(1) e \<open>i < length t\<close> by (simp del: global_match.simps)
    qed
    show ?thesis using True
      by (subst global_match.simps) (simp add: e l rec u del: global_match.simps rx_ends.simps(1))
  next
    case False
    then show ?thesis
      by (subst global_match.simps) (auto simp: pos_at_def global_match_beyond simp del: global_match.simps)
  qed
qed


lemma highlight_block_last_rules:
  "highlight_block t =
     fold (\<lambda>(s, n). set_format s n FColon) (global_match colon_rx t 0)
       (fold (\<lambda>(s, n). set_format s n FBrackets) (global_match brackets_rx t 0)
         (fold (\<lambda>(r, f) fs. fold (\<lambda>(s, n). set_format s n f) (global_match r t 0) fs)
            (take 5 highlighting_rules) (replicate (length t) None)))"
  by (simp add: highlight_block_def highlighting_rules_def del: global_match.simps)

lemma length_fold_rules [simp]:
  "length (fold (\<lambda>(r, f) fs. fold (\<lambda>(s, n). set_format s n f) (global_match r t 0) fs) rs fs) = length fs"
  by (induction rs arbitrary: fs) auto

lemma rx_sem_consumes:
  "rx_sem r p q \<Longrightarrow> \<exists>w. snd p = w @ snd q \<and> fst q = rev w @ fst p \<and> min_width r \<le> length w"
proof (induction rule: rx_sem.induct)
  case (chr P c b a)
  then show ?case by (intro exI[of _ "[c]"]) simp
next
  case (seq r1 p q r2 u)
  then obtain w1 w2 where "snd p = w1 @ snd q" "fst q = rev w1 @ fst p" "min_width r1 \<le> length w1"
    "snd q = w2 @ snd u" "fst u = rev w2 @ fst q" "min_width r2 \<le> length w2" by blast
  then show ?case by (intro exI[of _ "w1 @ w2"]) simp
next
  case (star r p q u)
  then obtain w1 w2 where "snd p = w1 @ snd q" "fst q = rev w1 @ fst p"
    "snd q = w2 @ snd u" "fst u = rev w2 @ fst q" by blast
  then show ?case by (intro exI[of _ "w1 @ w2"]) simp
next
  case (alt1 r1 p q r2)
  then show ?case by fastforce
next
  case (alt2 r2 p q r1)
  then show ?case by fastforce
qed (intro exI[of _ "[]"]; simp)+

lemma rx_ends_sound: "q \<in> set (rx_ends r p) \<Longrightarrow> rx_sem r p q"
proof (induction r p arbitrary: q rule: rx_ends.induct)
  case (1 P p)
  obtain b a where p: "p = (b, a)" by fastforce
  show ?case
  proof (cases a)
    case (Cons c cs)
    then show ?thesis using 1 p by (simp split: if_splits) (simp add: rx_sem.chr)
  qed (use 1 p in simp)
next
  case (2 p)
  then show ?case by (simp add: rx_sem.eps)
next
  case (3 r1 r2 p)
  then obtain m where m: "m \<in> set (rx_ends r1 p)" "q \<in> set (rx_ends r2 m)" by auto
  show ?case by (rule rx_sem.seq[OF "3.IH"(1)[OF m(1)] "3.IH"(2)[OF m]])
next
  case (4 r1 r2 p)
  from "4.prems" have "q \<in> set (rx_ends r1 p) \<or> q \<in> set (rx_ends r2 p)" by simp
  then show ?case using "4.IH" rx_sem.alt1 rx_sem.alt2 by metis
next
  case (5 r p)
  show ?case
  proof (cases "q = p")
    case False
    from "5.prems" False have "q \<in> (\<Union>m \<in> set (rx_ends r p).
        set (if length (snd m) < length (snd p) then rx_ends (RStar r) m else []))"
      unfolding rx_ends.simps(5)[of r p] by simp blast
    then obtain m where m0: "m \<in> set (rx_ends r p)"
      and "q \<in> set (if length (snd m) < length (snd p) then rx_ends (RStar r) m else [])" by blast
    then have m: "m \<in> set (rx_ends r p)" "length (snd m) < length (snd p)"
      "q \<in> set (rx_ends (RStar r) m)" by (simp_all split: if_splits)
    show ?thesis by (rule rx_sem.star[OF "5.IH"(1)[OF m(1)] "5.IH"(2)[OF m]])
  qed (simp add: rx_sem.star0)
next
  case (6 p)
  then show ?case by (simp split: if_splits add: rx_sem.wordb)
next
  case (7 r p)
  then have ne: "rx_ends r p \<noteq> []" and q: "q = p" by (simp_all split: if_splits)
  from ne obtain m where "m \<in> set (rx_ends r p)" by (cases "rx_ends r p") auto
  then show ?case unfolding q by (rule rx_sem.ahead[OF "7.IH"])
qed


lemma rx_ends_complete: "rx_sem r p q \<Longrightarrow> star_ok r \<Longrightarrow> q \<in> set (rx_ends r p)"
proof (induction rule: rx_sem.induct)
  case (chr P c b a)
  then show ?case by simp
next
  case (seq r1 p q r2 u)
  then show ?case by auto
next
  case (star0 r p)
  then show ?case unfolding rx_ends.simps(5)[of r p] by simp
next
  case (star r p q u)
  from star.hyps(1) star.prems obtain w where "snd p = w @ snd q" "0 < length w"
    using rx_sem_consumes by fastforce
  then have lt: "length (snd q) < length (snd p)" by simp
  have q: "q \<in> set (rx_ends r p)" and u: "u \<in> set (rx_ends (RStar r) q)" using star by simp_all
  show ?case unfolding rx_ends.simps(5)[of r p] using q u lt by simp blast
next
  case (ahead r p q)
  then have "rx_ends r p \<noteq> []" by auto
  then show ?case by simp
qed auto

lemma highlighting_rules_star_ok: "\<forall>(r, f) \<in> set highlighting_rules. star_ok r \<and> 0 < min_width r"
  by (simp add: highlighting_rules_def string_rx_def number_rx_def boolean_rx_def null_rx_def key_rx_def
      brackets_rx_def colon_rx_def rx_opt_def rx_plus_def rx_lit_def)

inductive_cases rx_sem_SeqE: "rx_sem (RSeq r1 r2) p q"
inductive_cases rx_sem_AltE: "rx_sem (RAlt r1 r2) p q"
inductive_cases rx_sem_ChrE: "rx_sem (RChr P) p q"
inductive_cases rx_sem_EpsE: "rx_sem REps p q"
inductive_cases rx_sem_WordBE: "rx_sem RWordB p q"

lemma minus_after_exp_append:
  "minus_after_exp prev (xs @ ys) = (minus_after_exp prev xs \<and> minus_after_exp (if xs = [] then prev else Some (last xs)) ys)"
  by (induction xs arbitrary: prev) auto

lemma rx_sem_chr_word: "rx_sem (RChr P) p q \<Longrightarrow> \<exists>c. snd p = c # snd q \<and> P c"
  by (erule rx_sem_ChrE) auto

lemma rx_sem_star_chr: "rx_sem r p q \<Longrightarrow> r = RStar (RChr P) \<Longrightarrow> \<exists>w. snd p = w @ snd q \<and> list_all P w"
proof (induction rule: rx_sem.induct)
  case (star r p q u)
  then obtain c w where "snd p = c # snd q" "P c" "snd q = w @ snd u" "list_all P w"
    by (auto dest: rx_sem_chr_word)
  then show ?case by (intro exI[of _ "c # w"]) simp
qed auto

lemma rx_sem_plus_chr: "rx_sem (rx_plus (RChr P)) p q \<Longrightarrow> \<exists>c w. snd p = c # w @ snd q \<and> P c \<and> list_all P w"
  unfolding rx_plus_def
  by (erule rx_sem_SeqE) (fastforce dest: rx_sem_chr_word rx_sem_star_chr)

lemma rx_sem_opt: "rx_sem (rx_opt r) p q \<Longrightarrow> rx_sem r p q \<or> q = p"
  unfolding rx_opt_def by (erule rx_sem_AltE) (auto elim: rx_sem_EpsE)

lemma digits_minus_ok: "list_all pcre_digit w \<Longrightarrow> minus_after_exp prev w"
  by (induction w arbitrary: prev) (auto simp: pcre_digit_def)


lemma frac_minus_ok:
  "rx_sem (rx_opt (RSeq (RChr (\<lambda>c. c = CHR ''.'')) (rx_plus (RChr pcre_digit)))) p q \<Longrightarrow>
   \<exists>w. snd p = w @ snd q \<and> (\<forall>prev. minus_after_exp prev w)"
proof (drule rx_sem_opt, elim disjE)
  assume "rx_sem (RSeq (RChr (\<lambda>c. c = CHR ''.'')) (rx_plus (RChr pcre_digit))) p q"
  then obtain m where "rx_sem (RChr (\<lambda>c. c = CHR ''.'')) p m" "rx_sem (rx_plus (RChr pcre_digit)) m q"
    by (auto elim: rx_sem_SeqE)
  then obtain c d ds where "snd p = c # snd m" "c = CHR ''.''" "snd m = d # ds @ snd q" "pcre_digit d"
    "list_all pcre_digit ds"
    by (auto dest!: rx_sem_chr_word rx_sem_plus_chr)
  then show ?thesis by (intro exI[of _ "c # d # ds"]) (auto intro: digits_minus_ok simp: pcre_digit_def)
qed (intro exI[of _ "[]"]; simp)

lemma exp_minus_ok:
  "rx_sem (rx_opt (RSeq (RChr (\<lambda>c. c = CHR ''e'' \<or> c = CHR ''E''))
            (RSeq (rx_opt (RChr (\<lambda>c. c = CHR ''+'' \<or> c = CHR ''-''))) (rx_plus (RChr pcre_digit))))) p q \<Longrightarrow>
   \<exists>w. snd p = w @ snd q \<and> (\<forall>prev. minus_after_exp prev w)"
proof (drule rx_sem_opt, elim disjE)
  assume "rx_sem (RSeq (RChr (\<lambda>c. c = CHR ''e'' \<or> c = CHR ''E''))
            (RSeq (rx_opt (RChr (\<lambda>c. c = CHR ''+'' \<or> c = CHR ''-''))) (rx_plus (RChr pcre_digit)))) p q"
  then obtain m1 m2 where e: "rx_sem (RChr (\<lambda>c. c = CHR ''e'' \<or> c = CHR ''E'')) p m1"
    and sg: "rx_sem (rx_opt (RChr (\<lambda>c. c = CHR ''+'' \<or> c = CHR ''-''))) m1 m2"
    and ds: "rx_sem (rx_plus (RChr pcre_digit)) m2 q"
    by (auto elim!: rx_sem_SeqE)
  obtain c where c: "snd p = c # snd m1" "c = CHR ''e'' \<or> c = CHR ''E''" using rx_sem_chr_word[OF e] by blast
  obtain sw where sw: "snd m1 = sw @ snd m2" "sw = [] \<or> (\<exists>x. sw = [x] \<and> (x = CHR ''+'' \<or> x = CHR ''-''))"
    using rx_sem_opt[OF sg] by (auto dest!: rx_sem_chr_word)
  obtain d dd where d: "snd m2 = d # dd @ snd q" "list_all pcre_digit (d # dd)"
    using rx_sem_plus_chr[OF ds] by auto
  have "minus_after_exp prev (c # sw @ d # dd)" for prev
    using c(2) sw(2) digits_minus_ok[OF d(2)] by (auto simp: minus_after_exp_append)
  then show ?thesis using c(1) sw(1) d(1) by (intro exI[of _ "c # sw @ d # dd"]) simp
qed (intro exI[of _ "[]"]; simp)


lemma number_match_minus:
  "rx_sem number_rx p q \<Longrightarrow>
   \<exists>w. snd p = w @ snd q \<and> w \<noteq> [] \<and> (hd w = CHR ''-'' \<longrightarrow> word_boundary p) \<and>
       minus_after_exp (Some (hd w)) (tl w)"
proof -
  assume "rx_sem number_rx p q"
  then obtain m0 m1 m2 m3 m4 where b: "rx_sem RWordB p m0"
    and mi: "rx_sem (rx_opt (RChr (\<lambda>c. c = CHR ''-''))) m0 m1"
    and ds: "rx_sem (rx_plus (RChr pcre_digit)) m1 m2"
    and fr: "rx_sem (rx_opt (RSeq (RChr (\<lambda>c. c = CHR ''.'')) (rx_plus (RChr pcre_digit)))) m2 m3"
    and ex: "rx_sem (rx_opt (RSeq (RChr (\<lambda>c. c = CHR ''e'' \<or> c = CHR ''E''))
            (RSeq (rx_opt (RChr (\<lambda>c. c = CHR ''+'' \<or> c = CHR ''-''))) (rx_plus (RChr pcre_digit))))) m3 m4"
    and b2: "rx_sem RWordB m4 q"
    unfolding number_rx_def by (auto elim!: rx_sem_SeqE)
  have p0: "m0 = p" "word_boundary p" using b by (auto elim: rx_sem_WordBE)
  have q4: "q = m4" using b2 by (auto elim: rx_sem_WordBE)
  obtain d dd where d: "snd m1 = d # dd @ snd m2" "list_all pcre_digit (d # dd)"
    using rx_sem_plus_chr[OF ds] by auto
  obtain wf where wf: "snd m2 = wf @ snd m3" "\<forall>prev. minus_after_exp prev wf" using frac_minus_ok[OF fr] by blast
  obtain wx where wx: "snd m3 = wx @ snd m4" "\<forall>prev. minus_after_exp prev wx" using exp_minus_ok[OF ex] by blast
  let ?t = "d # dd @ wf @ wx"
  have t: "minus_after_exp prev ?t" for prev
  proof -
    have "minus_after_exp prev ((d # dd) @ wf @ wx)"
      using digits_minus_ok[OF d(2)] wf(2) wx(2) by (simp only: minus_after_exp_append)
    then show ?thesis by simp
  qed
  have dm: "d \<noteq> CHR ''-''" using d(2) by (auto simp: pcre_digit_def)
  from rx_sem_opt[OF mi] show ?thesis
  proof
    assume "rx_sem (RChr (\<lambda>c. c = CHR ''-'')) m0 m1"
    then have "snd p = CHR ''-'' # snd m1" using p0 by (auto dest: rx_sem_chr_word)
    then show ?thesis using d(1) wf(1) wx(1) q4 p0(2) t dm by (intro exI[of _ "CHR ''-'' # ?t"]) simp
  next
    assume "m1 = m0"
    then show ?thesis using d(1) wf(1) wx(1) q4 p0 t[of None] dm by (intro exI[of _ ?t]) simp
  qed
qed


lemma minus_after_exp_nth:
  "minus_after_exp (Some x) ys \<Longrightarrow> k < length ys \<Longrightarrow> ys ! k = CHR ''-'' \<Longrightarrow>
   (x # ys) ! k \<in> {CHR ''e'', CHR ''E''}"
proof (induction ys arbitrary: x k)
  case (Cons y ys)
  then show ?case by (cases k) auto
qed simp

lemma global_match_sem:
  "(s, n) \<in> set (global_match r t j) \<Longrightarrow> s \<le> length t \<and> (\<exists>q. rx_sem r (pos_at t s) q \<and> length (fst q) = s + n)"
proof (induction r t j rule: global_match.induct)
  case (1 r t i)
  show ?case
  proof (cases "length t < i")
    case True
    then show ?thesis using "1.prems" by (simp add: global_match_beyond)
  next
    case False
    show ?thesis
    proof (cases "rx_ends r (pos_at t i)")
      case Nil
      then show ?thesis using "1.IH"(1) "1.prems" False by (subst (asm) global_match.simps) simp
    next
      case (Cons q qs)
      have sem: "rx_sem r (pos_at t i) q" using Cons by (intro rx_ends_sound) simp
      have le: "i \<le> length (fst q)" using rx_sem_consumes[OF sem] False by (auto simp: pos_at_def)
      have "(s, n) = (i, length (fst q) - i) \<or>
            (s, n) \<in> set (global_match r t (max (length (fst q)) (Suc i)))"
        using "1.prems" False Cons by (subst (asm) global_match.simps) (simp add: Let_def)
      then show ?thesis
      proof
        assume "(s, n) = (i, length (fst q) - i)"
        then have sn: "s = i" "s + n = length (fst q)" using le by auto
        show ?thesis using sem False sn by (intro conjI exI[of _ q]) auto
      next
        assume "(s, n) \<in> set (global_match r t (max (length (fst q)) (Suc i)))"
        then show ?thesis using "1.IH"(2)[OF False Cons] by (simp add: Let_def)
      qed
    qed
  qed
qed

lemma global_match_word:
  assumes "(s, n) \<in> set (global_match r t j)"
  obtains q w where "rx_sem r (pos_at t s) q" "drop s t = w @ snd q" "length w = n"
proof -
  obtain q where q: "rx_sem r (pos_at t s) q" "length (fst q) = s + n" and s: "s \<le> length t"
    using global_match_sem[OF assms] by blast
  obtain w where "snd (pos_at t s) = w @ snd q" "fst q = rev w @ fst (pos_at t s)"
    using rx_sem_consumes[OF q(1)] by blast
  moreover have "length (fst (pos_at t s)) = s" using s by (simp add: pos_at_def)
  ultimately show ?thesis using that q by (auto simp: pos_at_def)
qed


lemma nth_fold_set_format:
  "i < length fs \<Longrightarrow>
   fold (\<lambda>(s, n). set_format s n f) ms fs ! i =
     (if \<exists>(s, n) \<in> set ms. s \<le> i \<and> i < s + n then Some f else fs ! i)"
  by (induction ms arbitrary: fs) (auto simp: nth_set_format split: if_splits)

lemma fold_rules_format:
  "i < length fs \<Longrightarrow>
   fold (\<lambda>(r, f) fs. fold (\<lambda>(s, n). set_format s n f) (global_match r t 0) fs) rs fs ! i = Some f \<Longrightarrow>
   fs ! i = Some f \<or> (\<exists>r. (r, f) \<in> set rs \<and> (\<exists>(s, n) \<in> set (global_match r t 0). s \<le> i \<and> i < s + n))"
proof (induction rs arbitrary: fs)
  case (Cons rf rs)
  obtain r g where rf: "rf = (r, g)" by fastforce
  let ?fs = "fold (\<lambda>(s, n). set_format s n g) (global_match r t 0) fs"
  have "?fs ! i = Some f \<or> (\<exists>r'. (r', f) \<in> set rs \<and> (\<exists>(s, n) \<in> set (global_match r' t 0). s \<le> i \<and> i < s + n))"
    using Cons.IH[of ?fs] Cons.prems rf by simp
  then show ?case using Cons.prems(1) rf by (auto simp: nth_fold_set_format split: if_splits)
qed simp

lemma highlight_number_match:
  assumes "i < length t" "highlight_block t ! i = Some FNumber"
  obtains s n where "(s, n) \<in> set (global_match number_rx t 0)" "s \<le> i" "i < s + n"
proof -
  have "\<exists>r. (r, FNumber) \<in> set highlighting_rules \<and> (\<exists>(s, n) \<in> set (global_match r t 0). s \<le> i \<and> i < s + n)"
    using fold_rules_format[of i "replicate (length t) None" t highlighting_rules FNumber] assms
    by (simp add: highlight_block_def del: global_match.simps)
  then show ?thesis using that by (auto simp: highlighting_rules_def simp del: global_match.simps)
qed

text \<open>The definitions a concrete block is highlighted with.\<close>

lemmas highlight_eval = highlight_block_def highlighting_rules_def string_rx_def number_rx_def
  boolean_rx_def null_rx_def key_rx_def brackets_rx_def colon_rx_def rx_opt_def rx_plus_def rx_lit_def
  rx_ends.simps(5) pos_at_def word_boundary_def pcre_word_def pcre_digit_def pcre_space_def set_format_def

subsection \<open>Properties\<close>

text \<open>
  For a pattern none of whose starred parts can match the empty string, the
  backtracking matcher is exact: the ends it lists are precisely the positions
  the declarative semantics lets a match reach. All seven highlighting patterns
  are of this kind (\<open>highlighting_rules_star_ok\<close>).
\<close>

theorem rx_ends_exact: "star_ok r \<Longrightarrow> set (rx_ends r p) = {q. rx_sem r p q}"
  using rx_ends_sound rx_ends_complete by blast

lemma rx_ends_exact_witness:
  "star_ok number_rx \<and> set (rx_ends number_rx ([], ''12'')) = {q. rx_sem number_rx ([], ''12'') q}"
  using rx_ends_exact[of number_rx "([], ''12'')"]
  by (simp add: number_rx_def rx_opt_def rx_plus_def)

text \<open>
  C21: Every colon of a block is shown in the colon format and every bracket in the
  bracket format, wherever it stands: the two rules run last, so a colon or a
  bracket inside a string literal (a URL, a time) loses the string colour.
\<close>

theorem highlight_colon_brackets:
  assumes "i < length t"
  shows "(t ! i = CHR '':'' \<longrightarrow> highlight_block t ! i = Some FColon) \<and>
         (t ! i \<in> set ''[]{}'' \<longrightarrow> highlight_block t ! i = Some FBrackets)"
  using assms
  by (simp add: highlight_block_last_rules colon_rx_def brackets_rx_def global_match_chr
      nth_fold_set_format_unit del: global_match.simps)

lemma highlight_colon_brackets_witness:
  "highlight_block ''[:]'' ! 1 = Some FColon \<and> highlight_block ''[:]'' ! 0 = Some FBrackets"
  using highlight_colon_brackets[of 1 "''[:]''"] highlight_colon_brackets[of 0 "''[:]''"]
  by simp

text \<open>
  C22: The minus sign of a negative number is never coloured as a number when it
  follows a space, a colon, a bracket or the start of the block: the number pattern
  starts with \<open>\b\<close> before the optional \<open>-\<close>, and \<open>\b\<close> does not hold
  between two non-word characters. Only a minus after an exponent letter inside a
  number (\<open>1e-5\<close>) can take the number format.
\<close>

theorem highlight_minus_not_number:
  assumes "i < length t" "t ! i = CHR ''-''" "i = 0 \<or> \<not> pcre_word (t ! (i - 1))"
  shows "highlight_block t ! i \<noteq> Some FNumber"
proof
  assume "highlight_block t ! i = Some FNumber"
  then obtain s n where m: "(s, n) \<in> set (global_match number_rx t 0)" "s \<le> i" "i < s + n"
    using highlight_number_match assms(1) by blast
  obtain q w where q: "rx_sem number_rx (pos_at t s) q" "drop s t = w @ snd q" "length w = n"
    using global_match_word[OF m(1)] by blast
  obtain w' where w': "snd (pos_at t s) = w' @ snd q" "w' \<noteq> []" "hd w' = CHR ''-'' \<longrightarrow> word_boundary (pos_at t s)"
    "minus_after_exp (Some (hd w')) (tl w')"
    using number_match_minus[OF q(1)] by blast
  have ww: "w' = w" using w'(1) q(2) by (simp add: pos_at_def)
  have sl: "s < length t" using m(2,3) assms(1) by simp
  have nth: "t ! (s + k) = w ! k" if "k < n" for k
  proof -
    have "t ! (s + k) = drop s t ! k" using sl by simp
    also have "\<dots> = w ! k" using q(2,3) that by (simp add: nth_append)
    finally show ?thesis .
  qed
  show False
  proof (cases "i = s")
    case True
    then have "hd w = CHR ''-''" using nth[of 0] m assms(2) ww w'(2) by (simp add: hd_conv_nth)
    then have "word_boundary (pos_at t s)" using w'(3) ww by simp
    moreover have "\<not> pcre_word (hd (drop s t))" using sl assms(2) True by (simp add: hd_drop_conv_nth pcre_word_def)
    ultimately have "take s t \<noteq> [] \<and> pcre_word (last (take s t))"
      using sl by (simp add: word_boundary_def pos_at_def hd_rev)
    then have "0 < s \<and> pcre_word (t ! (s - 1))" using sl by (cases s) (auto simp: take_Suc_conv_app_nth)
    then show False using assms(3) True by auto
  next
    case False
    then have "s < i" using m(2) by simp
    then obtain k where "i = Suc (s + k)" using less_imp_Suc_add by blast
    then have k: "i = s + Suc k" by simp
    have "tl w ! k = CHR ''-''" using nth[of "Suc k"] k m(3) assms(2) ww w'(2) q(3) by (simp add: nth_tl)
    then have "(hd w # tl w) ! k \<in> {CHR ''e'', CHR ''E''}"
      using minus_after_exp_nth[of "hd w" "tl w" k] w'(4) ww k m(3) q(3) by simp
    then have "t ! (i - 1) \<in> {CHR ''e'', CHR ''E''}" using nth[of k] k m(3) ww w'(2) by simp
    then show False using assms(3) k by (auto simp: pcre_word_def)
  qed
qed

lemma highlight_minus_not_number_witness:
  "3 < length ''x: -5'' \<and> ''x: -5'' ! 3 = CHR ''-'' \<and> (3 = (0::nat) \<or> \<not> pcre_word (''x: -5'' ! (3 - 1))) \<and>
   highlight_block ''x: -5'' ! 3 \<noteq> Some FNumber"
proof -
  have h: "3 < length ''x: -5''" "''x: -5'' ! 3 = CHR ''-''" "3 = (0::nat) \<or> \<not> pcre_word (''x: -5'' ! (3 - 1))"
    by (simp_all add: pcre_word_def)
  show ?thesis using h highlight_minus_not_number[OF h] by blast
qed

text \<open>
  On the line \<open>"n": -5, "s": "v 42"\<close> keys take the key format, the minus
  sign of \<open>-5\<close> stays unformatted, and the digits inside the string
  \<open>"v 42"\<close> take the number format, because the number rule runs after the
  string rule.
\<close>

lemma highlight_sample_line:
  "highlight_block ''\"n\": -5, \"s\": \"v 42\"'' =
     [Some FKey, Some FKey, Some FKey, Some FColon, None, None, Some FNumber,
      None, None, Some FKey, Some FKey, Some FKey, Some FColon, None,
      Some FString, Some FString, Some FString, Some FNumber, Some FNumber, Some FString]"
  by (simp add: highlight_eval)

end
