(* ===== verification/SchemaViewer.thy ===== *)
theory SchemaViewer
  imports Window SchemaTree Models
begin

text \<open>
  The schema viewer's own widgets, src/gui.py lines 371-516 and 595-698: the eye
  icons of \<open>EyeIconDelegate\<close> (painting and clicks), the click wiring of
  \<open>JsonSchemaTreeWidget\<close> and \<open>JsonSchemaViewer\<close>, and the details panel
  \<open>show_attribute_details\<close>. Python's \<open>str\<close> and the format specifications
  \<open>:.2f\<close> and \<open>:.1f\<close> are display conversions the model takes as parameters
  (\<open>py_display\<close>); everything else the panel does, including the exceptions
  Python raises on the way, is modelled.
\<close>

subsection \<open>Eye icons\<close>

text \<open>
  The eye icons of the schema tree. \<open>update_schema_tree\<close> stores \<open>False\<close> under
  \<open>UserRole\<close> in column 0 of each item and then, through the model, the item
  itself under the same role and column (lines 533-593), so the second write
  replaces the first: the slot holds either the item (\<open>Item_ref\<close>) or a flag.
\<close>

datatype role_data = Item_ref | Flag bool

text \<open>\<open>x or False\<close> used as a condition: the item object is truthy.\<close>

fun role_truthy :: "role_data \<Rightarrow> bool" where
  "role_truthy Item_ref = True"
| "role_truthy (Flag b) = b"

text \<open>
  \<open>EyeIconDelegate.editorEvent\<close> for a release on a painted eye: the slot after
  the event and whether \<open>eye_clicked\<close> is emitted. Only the item object is a key
  of \<open>eye_rect_map\<close>.
\<close>

fun editor_event :: "role_data \<Rightarrow> role_data \<times> bool" where
  "editor_event Item_ref = (Flag (\<not> role_truthy Item_ref), True)"
| "editor_event (Flag b) = (Flag b, False)"

text \<open>
  \<open>JsonSchemaTreeWidget._handle_eye_clicked\<close>: the tree's own hidden set and the
  \<open>visibility_changed(path, is_visible)\<close> it emits, which the schema viewer
  passes on (line 515) to \<open>toggle_attribute_visibility\<close> (line 1086).
\<close>

definition handle_eye_clicked :: "string list \<Rightarrow> role_data \<Rightarrow> string list set \<Rightarrow> string list set \<times> bool" where
  "handle_eye_clicked path d tree_hidden =
     (let is_hidden = role_truthy d in
      (if is_hidden then insert path tree_hidden else tree_hidden - {path}, \<not> is_hidden))"

text \<open>A click on the eye of item \<open>i\<close>, whose path is \<open>path_of i\<close>.\<close>

definition eye_click :: "(nat \<Rightarrow> string list) \<Rightarrow> nat \<Rightarrow>
    (nat \<Rightarrow> role_data) \<times> string list set \<times> window \<Rightarrow> (nat \<Rightarrow> role_data) \<times> string list set \<times> window" where
  "eye_click path_of i st =
     (let (roles, tree_hidden, w) = st; (d, emitted) = editor_event (roles i) in
      if emitted then
        (let (tree_hidden', is_visible) = handle_eye_clicked (path_of i) d tree_hidden
         in (roles(i := d), tree_hidden', toggle_attribute_visibility (path_of i) is_visible w))
      else (roles(i := d), tree_hidden, w))"

datatype icon = Visible_icon | Hidden_icon

text \<open>
  \<open>EyeIconDelegate.paint\<close>: the icon drawn for an item, by its \<open>UserRole\<close>
  slot. A slot holding \<open>True\<close> would make \<open>tree_item.data\<close> raise
  \<open>AttributeError\<close> on a \<open>bool\<close>.
\<close>

fun paint_eye :: "role_data \<Rightarrow> string + icon option" where
  "paint_eye Item_ref = Inr (Some (if role_truthy Item_ref then Hidden_icon else Visible_icon))"
| "paint_eye (Flag b) = (if b then Inl ''AttributeError'' else Inr None)"

subsection \<open>The details panel\<close>

text \<open>
  The display conversions: \<open>str(v)\<close>, and \<open>format(v, '.nf')\<close>, which raises on a
  value that is not a number.
\<close>

record py_display =
  py_str :: "pyval \<Rightarrow> string"
  py_fixed :: "nat \<Rightarrow> pyval \<Rightarrow> string + string"

type_synonym form_rows = "(string \<times> string) list"

text \<open>Python truthiness of a schema value (\<open>if not schema\<close>).\<close>

fun pv_truthy :: "pyval \<Rightarrow> bool" where
  "pv_truthy PNone = False"
| "pv_truthy (PBool b) = b"
| "pv_truthy (PInt i) = (i \<noteq> 0)"
| "pv_truthy (PFloat r) = (r \<noteq> 0)"
| "pv_truthy (PStr s) = (s \<noteq> [])"
| "pv_truthy (PList vs) = (vs \<noteq> [])"
| "pv_truthy (PTuple vs) = (vs \<noteq> [])"
| "pv_truthy (PDict d) = (d \<noteq> [])"

text \<open>\<open>for x in v\<close>: the elements Python iterates over, or \<open>TypeError\<close>.\<close>

fun py_iter :: "pyval \<Rightarrow> string + pyval list" where
  "py_iter (PList vs) = Inr vs"
| "py_iter (PTuple vs) = Inr vs"
| "py_iter (PDict d) = Inr (map (\<lambda>kv. PStr (fst kv)) d)"
| "py_iter (PStr s) = Inr (map (\<lambda>c. PStr [c]) s)"
| "py_iter _ = Inl ''TypeError''"

text \<open>\<open>d.get(k, default)\<close>: only dictionaries have \<open>get\<close>.\<close>

fun py_get :: "pyval \<Rightarrow> string \<Rightarrow> pyval \<Rightarrow> string + pyval" where
  "py_get (PDict d) k dflt = Inr (case map_of d k of Some v \<Rightarrow> v | None \<Rightarrow> dflt)"
| "py_get _ k dflt = Inl ''AttributeError''"

text \<open>\<open>if len(s) > n: s = s[:n] + "..."\<close>\<close>

definition py_truncate :: "nat \<Rightarrow> string \<Rightarrow> string" where
  "py_truncate n s = (if length s > n then take n s @ ''...'' else s)"

text \<open>
  The panel is filled one \<open>addRow\<close> after another, so an exception keeps the rows
  added before it. A step adds rows or raises; \<open>run_rows\<close> performs the steps
  in order and stops at the first exception.
\<close>

fun run_rows :: "(string + form_rows) list \<Rightarrow> form_rows \<times> string option" where
  "run_rows [] = ([], None)"
| "run_rows (Inl e # _) = ([], Some e)"
| "run_rows (Inr r # rest) = (let (r', e) = run_rows rest in (r @ r', e))"

text \<open>\<open>if key in stats: addRow(label, conv(stats[key]))\<close>\<close>

definition stat_row :: "pyval \<Rightarrow> string \<Rightarrow> string \<Rightarrow> (pyval \<Rightarrow> string + string) \<Rightarrow> string + form_rows" where
  "stat_row stats key label conv =
     (case py_in key stats of
        Inl e \<Rightarrow> Inl e
      | Inr False \<Rightarrow> Inr []
      | Inr True \<Rightarrow>
          (case py_getitem stats key of
             Inl e \<Rightarrow> Inl e
           | Inr v \<Rightarrow> (case conv v of Inl e \<Rightarrow> Inl e | Inr s \<Rightarrow> Inr [(label, s)])))"

text \<open>\<open>for i, example in enumerate(xs): addRow(f"  #{i+1}:", ...)\<close>, value truncated to 50.\<close>

definition example_steps :: "py_display \<Rightarrow> pyval \<Rightarrow> (string + form_rows) list" where
  "example_steps F xs =
     (case py_iter xs of
        Inl e \<Rightarrow> [Inl e]
      | Inr es \<Rightarrow> map (\<lambda>(i, x). Inr [(''  #'' @ show_nat (Suc i) @ '':'', py_truncate 50 (py_str F x))])
                    (enumerate 0 es))"

text \<open>\<open>for i, common in enumerate(xs)\<close> of \<open>most_common\<close> / \<open>least_common\<close>.\<close>

definition common_steps :: "py_display \<Rightarrow> pyval \<Rightarrow> (string + form_rows) list" where
  "common_steps F xs =
     (case py_iter xs of
        Inl e \<Rightarrow> [Inl e]
      | Inr cs \<Rightarrow> map (\<lambda>(i, c).
            case py_getitem c ''value'' of
              Inl e \<Rightarrow> Inl e
            | Inr v \<Rightarrow>
                (let value = (case v of PStr s \<Rightarrow> PStr (py_truncate 30 s) | _ \<Rightarrow> v) in
                 case py_getitem c ''count'' of
                   Inl e \<Rightarrow> Inl e
                 | Inr n \<Rightarrow> Inr [(''  #'' @ show_nat (Suc i) @ '' ('' @ py_str F n @ '' times)'', py_str F value)]))
          (enumerate 0 cs))"

text \<open>A titled list: \<open>if key in d: addRow(title, ""); for ... in d[key]: ...\<close>\<close>

definition list_steps :: "pyval \<Rightarrow> string \<Rightarrow> string \<Rightarrow> (pyval \<Rightarrow> (string + form_rows) list) \<Rightarrow>
    (string + form_rows) list" where
  "list_steps d key title each =
     (case py_in key d of
        Inl e \<Rightarrow> [Inl e]
      | Inr False \<Rightarrow> []
      | Inr True \<Rightarrow>
          (case py_getitem d key of
             Inl e \<Rightarrow> [Inl e]
           | Inr xs \<Rightarrow> Inr [(title, [])] # each xs))"

definition str_conv :: "py_display \<Rightarrow> pyval \<Rightarrow> string + string" where
  "str_conv F v = Inr (py_str F v)"

text \<open>The statistics rows of an array node (lines 620-675).\<close>

definition array_steps :: "py_display \<Rightarrow> (string, pyval) pydict \<Rightarrow> pyval \<Rightarrow> (string + form_rows) list" where
  "array_steps F schema stats =
     [(case py_get stats ''count'' (PInt 0) of Inl e \<Rightarrow> Inl e | Inr c \<Rightarrow> Inr [(''Count:'', py_str F c)]),
      (case py_in ''uniform_type'' stats of
         Inl e \<Rightarrow> Inl e
       | Inr False \<Rightarrow> Inr []
       | Inr True \<Rightarrow>
           (case py_getitem stats ''uniform_type'' of
              Inl e \<Rightarrow> Inl e
            | Inr u \<Rightarrow>
                if pv_truthy u then
                  Inr [(''Element Type:'', py_str F (case map_of schema ''element_type'' of
                                                        Some et \<Rightarrow> et | None \<Rightarrow> PStr ''unknown''))]
                else Inr [])),
      stat_row stats ''min'' ''Min Value:'' (str_conv F),
      stat_row stats ''max'' ''Max Value:'' (str_conv F),
      stat_row stats ''mean'' ''Mean:'' (py_fixed F 2),
      stat_row stats ''median'' ''Median:'' (py_fixed F 2),
      stat_row stats ''stdev'' ''Std Dev:'' (py_fixed F 2),
      stat_row stats ''min_length'' ''Min Length:'' (str_conv F),
      stat_row stats ''max_length'' ''Max Length:'' (str_conv F),
      stat_row stats ''avg_length'' ''Avg Length:'' (py_fixed F 1)] @
     list_steps stats ''examples'' ''Examples:'' (example_steps F) @
     list_steps stats ''most_common'' ''Most Common:'' (common_steps F) @
     list_steps stats ''least_common'' ''Least Common:'' (common_steps F)"

text \<open>The statistics rows of a primitive node (lines 677-689).\<close>

definition primitive_steps :: "py_display \<Rightarrow> pyval \<Rightarrow> (string + form_rows) list" where
  "primitive_steps F stats =
     [stat_row stats ''value'' ''Value:'' (str_conv F),
      stat_row stats ''min'' ''Min Value:'' (str_conv F),
      stat_row stats ''max'' ''Max Value:'' (str_conv F),
      stat_row stats ''length'' ''Length:'' (str_conv F),
      stat_row stats ''preview'' ''Preview:'' (str_conv F)]"

text \<open>The rows of a schema dictionary that has a \<open>type\<close> (lines 614-698).\<close>

definition node_steps :: "py_display \<Rightarrow> (string, pyval) pydict \<Rightarrow> (string + form_rows) list" where
  "node_steps F schema =
     (case map_of schema ''type'' of
        None \<Rightarrow> []
      | Some t \<Rightarrow>
          Inr [(''Type:'', py_str F t)] #
          (if t = PStr ''array'' \<and> ''stats'' \<in> set (map fst schema) then
             array_steps F schema (the (map_of schema ''stats''))
           else if ''stats'' \<in> set (map fst schema) then
             primitive_steps F (the (map_of schema ''stats''))
           else []) @
          list_steps (PDict schema) ''examples'' ''Examples:'' (example_steps F))"

text \<open>
  \<open>show_attribute_details(item, column)\<close> for an item whose path is \<open>path\<close>, on
  the schema \<open>info\<close>: the rows the panel shows afterwards (the old rows are
  removed first) and the exception, if one is raised.
\<close>

definition show_attribute_details :: "py_display \<Rightarrow> (string, pyval) pydict \<Rightarrow> string list \<Rightarrow>
    form_rows \<times> string option" where
  "show_attribute_details F info path =
     (if path = [] then ([], None)
      else case get_schema_at_path info path of
             Inl e \<Rightarrow> ([], Some e)
           | Inr None \<Rightarrow> ([], None)
           | Inr (Some schema) \<Rightarrow>
               if \<not> pv_truthy schema then ([], None)
               else run_rows (Inr [(''Path:'', join '' > '' path)] #
                              (case schema of PDict d \<Rightarrow> node_steps F d | _ \<Rightarrow> [])))"

subsection \<open>The viewer and its click wiring\<close>

text \<open>
  The handlers an \<open>itemClicked\<close> signal can reach: the tree widget's own
  placeholder \<open>_handle_item_clicked\<close> (lines 462-465, \<open>pass\<close>) and the viewer's
  \<open>show_attribute_details\<close>.
\<close>

datatype click_handler = Tree_handle_item_clicked | Viewer_show_attribute_details

text \<open>
  The state of a \<open>JsonSchemaViewer\<close> with its \<open>JsonSchemaTreeWidget\<close>: the
  tree's \<open>_handle_item_clicked\<close> attribute, the slots connected to
  \<open>itemClicked\<close>, the schema, the \<open>UserRole\<close> slot of each tree item, the
  tree's hidden set and the rows of the details panel.
\<close>

record schema_viewer =
  sv_handle_item_clicked :: click_handler
  sv_item_clicked_slots :: "click_handler list"
  sv_schema_info :: "(string, pyval) pydict option"
  sv_roles :: "nat \<Rightarrow> role_data"
  sv_tree_hidden :: "string list set"
  sv_details :: form_rows

text \<open>
  \<open>JsonSchemaTreeWidget.__init__\<close> connects \<open>itemClicked\<close> to the bound method
  \<open>self._handle_item_clicked\<close> as it is at that moment (line 443);
  \<open>JsonSchemaViewer.__init__\<close> then replaces the attribute (line 492), which does
  not change the connection already made.
\<close>

definition init_schema_viewer :: schema_viewer where
  "init_schema_viewer =
     (let handler = Tree_handle_item_clicked;
          slots = [handler];
          handler' = Viewer_show_attribute_details
      in \<lparr>sv_handle_item_clicked = handler', sv_item_clicked_slots = slots, sv_schema_info = None,
          sv_roles = (\<lambda>_. Item_ref), sv_tree_hidden = {}, sv_details = []\<rparr>)"

text \<open>
  \<open>JsonSchemaViewer.set_json_data\<close> (lines 517-521): the schema is recomputed and
  the tree rebuilt, so every item's slot holds the item again; the tree's hidden
  set is kept.
\<close>

definition viewer_set_json_data :: "rng \<Rightarrow> json \<Rightarrow> nat \<Rightarrow> schema_viewer \<Rightarrow> schema_viewer \<times> nat" where
  "viewer_set_json_data rnd v k sv =
     (let (info, k') = analyze_json rnd v k
      in (sv\<lparr>sv_schema_info := Some info, sv_roles := (\<lambda>_. Item_ref)\<rparr>, k'))"

text \<open>One connected slot receiving \<open>itemClicked(item, column)\<close>.\<close>

fun run_click_slot :: "py_display \<Rightarrow> string list \<Rightarrow> click_handler \<Rightarrow>
    schema_viewer \<times> string list \<Rightarrow> schema_viewer \<times> string list" where
  "run_click_slot F path Tree_handle_item_clicked st = st"
| "run_click_slot F path Viewer_show_attribute_details (sv, errs) =
     (let (rows, e) = (case sv_schema_info sv of
                         Some info \<Rightarrow> show_attribute_details F info path
                       | None \<Rightarrow> if path = [] then ([], None) else ([], Some ''TypeError''))
      in (sv\<lparr>sv_details := rows\<rparr>, errs @ (case e of Some x \<Rightarrow> [x] | None \<Rightarrow> [])))"

text \<open>
  A click on the item whose path (\<open>_get_item_path\<close>) is \<open>path\<close>: every slot
  connected to \<open>itemClicked\<close> runs, in connection order; the exceptions they
  raise are reported and dropped by Qt.
\<close>

definition item_clicked :: "py_display \<Rightarrow> string list \<Rightarrow> schema_viewer \<Rightarrow> schema_viewer \<times> string list" where
  "item_clicked F path sv = fold (run_click_slot F path) (sv_item_clicked_slots sv) (sv, [])"

text \<open>An eye click inside the viewer, on the tree's slots and hidden set.\<close>

definition viewer_eye_click :: "(nat \<Rightarrow> string list) \<Rightarrow> nat \<Rightarrow> window \<Rightarrow> schema_viewer \<Rightarrow> schema_viewer \<times> window" where
  "viewer_eye_click path_of i w sv =
     (let (roles, th, w') = eye_click path_of i (sv_roles sv, sv_tree_hidden sv, w)
      in (sv\<lparr>sv_roles := roles, sv_tree_hidden := th\<rparr>, w'))"

text \<open>The viewer states reachable by loading data, clicking items and clicking eyes.\<close>

inductive viewer_reachable :: "py_display \<Rightarrow> schema_viewer \<Rightarrow> bool" where
  init: "viewer_reachable F init_schema_viewer"
| load: "viewer_reachable F sv \<Longrightarrow> viewer_reachable F (fst (viewer_set_json_data rnd v k sv))"
| click: "viewer_reachable F sv \<Longrightarrow> viewer_reachable F (fst (item_clicked F path sv))"
| eye: "viewer_reachable F sv \<Longrightarrow> viewer_reachable F (fst (viewer_eye_click path_of i w sv))"

text \<open>
  The rows the panel can hold: a titled row (its label starts with a letter), an
  example row \<open>  #n:\<close> with a value truncated to 50 characters, or a common-value
  row \<open>  #n (c times)\<close>.
\<close>

definition details_row_shape :: "string \<Rightarrow> string \<Rightarrow> bool" where
  "details_row_shape l v =
     ((l \<noteq> [] \<and> hd l \<noteq> CHR '' '') \<or>
      (\<exists>i x. l = ''  #'' @ show_nat i @ '':'' \<and> v = py_truncate 50 x) \<or>
      (\<exists>i x. l = ''  #'' @ show_nat i @ '' ('' @ x))"

subsection \<open>Lemmas\<close>

text \<open>A click on an eye whose slot still holds the item: the slot becomes \<open>False\<close>
  and the path is shown; once the slot holds a flag, clicks change nothing.\<close>

lemma eye_click_Item_ref:
  "roles i = Item_ref \<Longrightarrow> eye_click path_of i (roles, th, w) =
     (roles(i := Flag False), th - {path_of i}, toggle_attribute_visibility (path_of i) True w)"
  by (simp add: eye_click_def handle_eye_clicked_def)

lemma eye_click_Flag:
  "roles i = Flag b \<Longrightarrow> eye_click path_of i (roles, th, w) = (roles, th, w)"
  by (simp add: eye_click_def fun_upd_idem)

lemma eye_click_again:
  "eye_click path_of i (eye_click path_of i st) = eye_click path_of i st"
proof -
  obtain roles th w where st: "st = (roles, th, w)" by (cases st) auto
  show ?thesis
  proof (cases "roles i")
    case Item_ref
    have again: "eye_click path_of i (roles(i := Flag False), th', w') = (roles(i := Flag False), th', w')"
      for th' w' by (rule eye_click_Flag[where b = False]) simp
    show ?thesis using Item_ref by (simp add: st eye_click_Item_ref again)
  next
    case (Flag b)
    then show ?thesis by (simp add: st eye_click_Flag)
  qed
qed

lemma eye_click_shrinks:
  "hidden_paths (snd (snd (eye_click path_of i st))) \<subseteq> hidden_paths (snd (snd st))"
proof -
  obtain roles th w where st: "st = (roles, th, w)" by (cases st) auto
  show ?thesis
  proof (cases "roles i")
    case Item_ref
    then show ?thesis by (simp add: st eye_click_Item_ref hidden_paths_toggle)
  next
    case (Flag b)
    then show ?thesis by (simp add: st eye_click_Flag)
  qed
qed

declare show_nat.simps [simp del]

lemma item_clicked_placeholder:
  "sv_item_clicked_slots sv = [Tree_handle_item_clicked] \<Longrightarrow> item_clicked F path sv = (sv, [])"
  by (simp add: item_clicked_def)

lemma viewer_reachable_wiring:
  "viewer_reachable F sv \<Longrightarrow> sv_item_clicked_slots sv = [Tree_handle_item_clicked] \<and> sv_details sv = []"
proof (induction rule: viewer_reachable.induct)
  case init
  then show ?case by (simp add: init_schema_viewer_def)
next
  case (load F sv rnd v k)
  then show ?case by (simp add: viewer_set_json_data_def split_beta)
next
  case (click F sv path)
  then show ?case by (simp add: item_clicked_placeholder)
next
  case (eye F sv path_of i w)
  then show ?case by (simp add: viewer_eye_click_def split_beta)
qed

lemma details_intended_rows:
  "show_attribute_details \<lparr>py_str = (\<lambda>_. ''x''), py_fixed = (\<lambda>_ _. Inr ''0'')\<rparr>
     (fst (analyze_json (\<lambda>_. []) (JObj [(''a'', JInt 1)]) 0)) [''a''] =
   ([(''Path:'', ''a''), (''Type:'', ''x''), (''Value:'', ''x''), (''Min Value:'', ''x''), (''Max Value:'', ''x''),
     (''Examples:'', []), (''  #1:'', ''x'')], None)"
  by (simp add: show_attribute_details_def get_schema_at_path_def node_steps_def primitive_steps_def
      stat_row_def str_conv_def list_steps_def example_steps_def analyze_object_def compute_value_stats_def
      is_number_def dict_set_def py_min_def py_max_def py_truncate_def char_of_def bit_iff_odd show_nat.simps)


lemma show_nat_chars: "c \<in> set (show_nat n) \<Longrightarrow> c \<noteq> CHR '':'' \<and> c \<noteq> CHR '' ''"
proof (induction n rule: show_nat.induct)
  case (1 n)
  have digit: "char_of (48 + d) \<noteq> CHR '':'' \<and> char_of (48 + d) \<noteq> CHR '' ''" if "d < 10" for d :: nat
  proof -
    have o: "of_char (char_of (48 + d) :: char) = (48 + d :: nat)" using that by simp
    have "char_of (48 + d) \<noteq> CHR '':''"
    proof
      assume "char_of (48 + d) = CHR '':''"
      then have "of_char (char_of (48 + d) :: char) = (of_char (CHR '':'') :: nat)" by simp
      then show False using o that by simp
    qed
    moreover have "char_of (48 + d) \<noteq> CHR '' ''"
    proof
      assume "char_of (48 + d) = CHR '' ''"
      then have "of_char (char_of (48 + d) :: char) = (of_char (CHR '' '') :: nat)" by simp
      then show False using o by simp
    qed
    ultimately show ?thesis ..
  qed
  from "1.prems" have "c \<in> set (if n < 10 then [char_of (48 + n)]
      else show_nat (n div 10) @ [char_of (48 + n mod 10)])" by (subst (asm) show_nat.simps)
  then show ?case using "1.IH" digit[of n] digit[of "n mod 10"] by (auto split: if_splits)
qed


lemma run_rows_Inr [simp]: "run_rows (Inr r # rest) = (r @ fst (run_rows rest), snd (run_rows rest))"
  by (simp add: split_beta)

declare run_rows.simps(3) [simp del]

lemma run_rows_mem: "(l, v) \<in> set (fst (run_rows steps)) \<Longrightarrow> \<exists>r. Inr r \<in> set steps \<and> (l, v) \<in> set r"
  by (induction steps rule: run_rows.induct) auto

lemma stat_row_shape:
  "stat_row stats key label conv = Inr r \<Longrightarrow> (l, v) \<in> set r \<Longrightarrow> l = label"
  by (auto simp: stat_row_def split: sum.splits bool.splits)

lemma example_steps_shape:
  "Inr r \<in> set (example_steps F xs) \<Longrightarrow> (l, v) \<in> set r \<Longrightarrow> details_row_shape l v"
  by (auto simp: example_steps_def details_row_shape_def split: sum.splits)

lemma common_steps_shape:
  "Inr r \<in> set (common_steps F xs) \<Longrightarrow> (l, v) \<in> set r \<Longrightarrow> details_row_shape l v"
  by (fastforce simp: common_steps_def details_row_shape_def Let_def split: sum.splits)

lemma list_steps_cases:
  "Inr r \<in> set (list_steps d key title each) \<Longrightarrow> r = [(title, [])] \<or> (\<exists>xs. Inr r \<in> set (each xs))"
  by (auto simp: list_steps_def split: sum.splits bool.splits)

lemma list_steps_shape:
  assumes "\<And>xs r l v. Inr r \<in> set (each xs) \<Longrightarrow> (l, v) \<in> set r \<Longrightarrow> details_row_shape l v"
    and "title \<noteq> []" "hd title \<noteq> CHR '' ''"
    and "Inr r \<in> set (list_steps d key title each)" "(l, v) \<in> set r"
  shows "details_row_shape l v"
  using list_steps_cases[OF assms(4)]
proof
  assume "r = [(title, [])]"
  then show ?thesis using assms(2,3,5) by (simp add: details_row_shape_def)
next
  assume "\<exists>xs. Inr r \<in> set (each xs)"
  then show ?thesis using assms(1,5) by blast
qed


lemma stat_row_titled:
  "stat_row stats key label conv = Inr r \<Longrightarrow> (l, v) \<in> set r \<Longrightarrow> label \<noteq> [] \<Longrightarrow> hd label \<noteq> CHR '' '' \<Longrightarrow>
   details_row_shape l v"
  by (drule (1) stat_row_shape) (simp add: details_row_shape_def)

lemma array_steps_shape:
  assumes "Inr r \<in> set (array_steps F schema stats)" "(l, v) \<in> set r"
  shows "details_row_shape l v"
proof -
  let ?fixed = "[(case py_get stats ''count'' (PInt 0) of Inl e \<Rightarrow> Inl e | Inr c \<Rightarrow> Inr [(''Count:'', py_str F c)]),
      (case py_in ''uniform_type'' stats of
         Inl e \<Rightarrow> Inl e
       | Inr False \<Rightarrow> Inr []
       | Inr True \<Rightarrow>
           (case py_getitem stats ''uniform_type'' of
              Inl e \<Rightarrow> Inl e
            | Inr u \<Rightarrow>
                if pv_truthy u then
                  Inr [(''Element Type:'', py_str F (case map_of schema ''element_type'' of
                                                        Some et \<Rightarrow> et | None \<Rightarrow> PStr ''unknown''))]
                else Inr []))]"
  have "Inr r \<in> set ?fixed \<or> (\<exists>key label conv. stat_row stats key label conv = Inr r \<and> label \<noteq> [] \<and> hd label \<noteq> CHR '' '') \<or>
        Inr r \<in> set (list_steps stats ''examples'' ''Examples:'' (example_steps F)) \<or>
        Inr r \<in> set (list_steps stats ''most_common'' ''Most Common:'' (common_steps F)) \<or>
        Inr r \<in> set (list_steps stats ''least_common'' ''Least Common:'' (common_steps F))"
    using assms(1) unfolding array_steps_def by (simp only: set_append set_simps Un_iff insert_iff) force
  then show ?thesis
  proof (elim disjE exE conjE)
    assume "Inr r \<in> set ?fixed"
    then show ?thesis using assms(2)
      by (auto simp: details_row_shape_def split: sum.splits bool.splits if_splits)
  next
    fix key label conv
    assume "stat_row stats key label conv = Inr r" "label \<noteq> []" "hd label \<noteq> CHR '' ''"
    then show ?thesis using stat_row_titled assms(2) by blast
  next
    assume "Inr r \<in> set (list_steps stats ''examples'' ''Examples:'' (example_steps F))"
    then show ?thesis using assms(2) by (intro list_steps_shape[OF example_steps_shape]) simp_all
  next
    assume "Inr r \<in> set (list_steps stats ''most_common'' ''Most Common:'' (common_steps F))"
    then show ?thesis using assms(2) by (intro list_steps_shape[OF common_steps_shape]) simp_all
  next
    assume "Inr r \<in> set (list_steps stats ''least_common'' ''Least Common:'' (common_steps F))"
    then show ?thesis using assms(2) by (intro list_steps_shape[OF common_steps_shape]) simp_all
  qed
qed

lemma primitive_steps_shape:
  "Inr r \<in> set (primitive_steps F stats) \<Longrightarrow> (l, v) \<in> set r \<Longrightarrow> details_row_shape l v"
  unfolding primitive_steps_def by (auto intro: stat_row_titled[OF sym])

lemma node_steps_shape:
  assumes "Inr r \<in> set (node_steps F schema)" "(l, v) \<in> set r"
  shows "details_row_shape l v"
proof -
  have "(\<exists>t. r = [(''Type:'', py_str F t)]) \<or> (\<exists>st. Inr r \<in> set (array_steps F schema st)) \<or>
        (\<exists>st. Inr r \<in> set (primitive_steps F st)) \<or>
        Inr r \<in> set (list_steps (PDict schema) ''examples'' ''Examples:'' (example_steps F))"
    using assms(1) unfolding node_steps_def by (auto split: option.splits if_splits)
  then show ?thesis
  proof (elim disjE exE)
    fix t
    assume "r = [(''Type:'', py_str F t)]"
    then show ?thesis using assms(2) by (simp add: details_row_shape_def)
  next
    assume "Inr r \<in> set (list_steps (PDict schema) ''examples'' ''Examples:'' (example_steps F))"
    then show ?thesis using assms(2) by (intro list_steps_shape[OF example_steps_shape]) simp_all
  qed (use assms(2) array_steps_shape primitive_steps_shape in blast)+
qed

lemma details_shape:
  "(l, v) \<in> set (fst (show_attribute_details F info path)) \<Longrightarrow> details_row_shape l v"
  unfolding show_attribute_details_def
  by (auto split: if_splits sum.splits option.splits pyval.splits dest!: run_rows_mem
      simp: details_row_shape_def[of "''Path:''"] intro: node_steps_shape)


lemma py_truncate_length: "length (py_truncate n s) \<le> n + 3"
  by (simp add: py_truncate_def)

lemma colon_space_labels:
  "\<forall>c \<in> set a. c \<noteq> CHR '':'' \<and> c \<noteq> CHR '' '' \<Longrightarrow> \<forall>c \<in> set b. c \<noteq> CHR '':'' \<and> c \<noteq> CHR '' '' \<Longrightarrow>
   a @ CHR '':'' # u \<noteq> b @ CHR '' '' # w"
proof (induction a arbitrary: b)
  case Nil
  then show ?case by (cases b) auto
next
  case (Cons c a)
  then show ?case by (cases b) auto
qed

lemma editor_event_roles: "d = Item_ref \<or> d = Flag False \<Longrightarrow> fst (editor_event d) = Flag False \<or> fst (editor_event d) = d"
  by (cases d) auto

lemma viewer_reachable_roles:
  "viewer_reachable F sv \<Longrightarrow> sv_roles sv i = Item_ref \<or> sv_roles sv i = Flag False"
proof (induction arbitrary: i rule: viewer_reachable.induct)
  case init
  then show ?case by (simp add: init_schema_viewer_def)
next
  case (load F sv rnd v k)
  then show ?case by (simp add: viewer_set_json_data_def split_beta)
next
  case (click F sv path)
  then show ?case using viewer_reachable_wiring[OF click.hyps] by (simp add: item_clicked_placeholder)
next
  case (eye F sv path_of j w)
  have "sv_roles (fst (viewer_eye_click path_of j w sv)) = (sv_roles sv)(j := fst (editor_event (sv_roles sv j)))"
    by (simp add: viewer_eye_click_def eye_click_def split_beta)
  then show ?case using eye.IH[of i] eye.IH[of j] editor_event_roles[of "sv_roles sv j"] by auto
qed

subsection \<open>Properties\<close>

text \<open>
  C27: Clicking the eye icons of the schema tree never hides anything: whatever
  items are clicked, in whatever order, the window's hidden set only loses
  paths. The item object stored under \<open>UserRole\<close> replaces the flag, so the
  first click reads it as "hidden", emits \<open>is_visible = True\<close> and leaves
  \<open>False\<close> in the slot, after which the delegate no longer finds the item.
\<close>

theorem eye_clicks_never_hide:
  "hidden_paths (snd (snd (fold (eye_click path_of) clicks st))) \<subseteq> hidden_paths (snd (snd st))"
proof (induction clicks arbitrary: st)
  case (Cons i clicks)
  have "hidden_paths (snd (snd (fold (eye_click path_of) clicks (eye_click path_of i st))))
        \<subseteq> hidden_paths (snd (snd (eye_click path_of i st)))" by (rule Cons.IH)
  also have "\<dots> \<subseteq> hidden_paths (snd (snd st))" by (rule eye_click_shrinks)
  finally show ?case by simp
qed simp

text \<open>
  C28: In every state the viewer reaches, the eye of every tree item is drawn as
  the hidden icon or not drawn at all, never as the visible icon, and painting
  never raises: the slot the delegate reads holds the item itself (truthy) until
  the first click, and \<open>False\<close> after it.
\<close>

theorem eye_icons_never_visible:
  "viewer_reachable F sv \<Longrightarrow> paint_eye (sv_roles sv i) \<in> {Inr (Some Hidden_icon), Inr None}"
  using viewer_reachable_roles[of F sv i] by auto

lemma eye_icons_never_visible_witness:
  "paint_eye (sv_roles (fst (viewer_eye_click (\<lambda>_. [''a'']) 0 init_window init_schema_viewer)) 0) \<in>
     {Inr (Some Hidden_icon), Inr None}"
proof -
  have r: "viewer_reachable \<lparr>py_str = (\<lambda>_. []), py_fixed = (\<lambda>_ _. Inr [])\<rparr>
      (fst (viewer_eye_click (\<lambda>_. [''a'']) 0 init_window init_schema_viewer))"
    by (rule viewer_reachable.eye[OF viewer_reachable.init])
  show ?thesis using eye_icons_never_visible[OF r, of 0] by simp
qed

text \<open>
  C29: Clicking a tree item never fills the details panel: \<open>itemClicked\<close> stays
  connected to the tree's placeholder \<open>_handle_item_clicked\<close>, bound before the
  viewer replaces the attribute with \<open>show_attribute_details\<close>, so in every
  reachable state a click leaves the panel empty.
\<close>

theorem details_never_shown: "viewer_reachable F sv \<Longrightarrow> sv_details (fst (item_clicked F path sv)) = []"
  using viewer_reachable_wiring[of F sv] by (simp add: item_clicked_placeholder)

lemma details_never_shown_witness:
  "sv_details (fst (item_clicked \<lparr>py_str = (\<lambda>_. ''x''), py_fixed = (\<lambda>_ _. Inr ''0'')\<rparr> [''a'']
     (fst (viewer_set_json_data (\<lambda>_. []) (JObj [(''a'', JInt 1)]) 0 init_schema_viewer)))) = []"
  using details_never_shown[OF viewer_reachable.load[OF viewer_reachable.init]] by simp

text \<open>
  C30: Were \<open>show_attribute_details\<close> called, every example row \<open>  #n:\<close> it adds
  would show at most 53 characters (50 and an ellipsis), whatever the schema,
  the path and the display conversions: no other row of the panel has a label of
  that form.
\<close>

theorem details_example_rows_bounded:
  "(''  #'' @ show_nat i @ '':'', v) \<in> set (fst (show_attribute_details F info path)) \<Longrightarrow> length v \<le> 53"
proof -
  assume "(''  #'' @ show_nat i @ '':'', v) \<in> set (fst (show_attribute_details F info path))"
  then have shape: "details_row_shape (''  #'' @ show_nat i @ '':'') v" by (rule details_shape)
  have not_common: "''  #'' @ show_nat i @ '':'' \<noteq> ''  #'' @ show_nat j @ '' ('' @ x" for j x
    using colon_space_labels[of "show_nat i" "show_nat j"] show_nat_chars by fastforce
  from shape show "length v \<le> 53"
    unfolding details_row_shape_def using not_common py_truncate_length[of 50] by auto
qed

lemma details_example_rows_bounded_witness:
  "(''  #1:'', ''x'') \<in> set (fst (show_attribute_details \<lparr>py_str = (\<lambda>_. ''x''), py_fixed = (\<lambda>_ _. Inr ''0'')\<rparr>
     (fst (analyze_json (\<lambda>_. []) (JObj [(''a'', JInt 1)]) 0)) [''a''])) \<and> length ''x'' \<le> 53"
  using details_example_rows_bounded[of 1 "''x''" "\<lparr>py_str = (\<lambda>_. ''x''), py_fixed = (\<lambda>_ _. Inr ''0'')\<rparr>"
      "fst (analyze_json (\<lambda>_. []) (JObj [(''a'', JInt 1)]) 0)" "[''a'']"] details_intended_rows
  by (simp add: show_nat.simps char_of_def bit_iff_odd)


end
