(* ===== verification/PathAddressing.thy ===== *)
theory PathAddressing
  imports SchemaTyping SchemaTree
begin

text \<open>
  Path addressing between the schema tree and the schema (gui.py 467-478, 523-593,
  700-730). The tree builder \<open>_add_schema_item\<close> labels each item with its key and its
  \<open>type\<close>, inserting an \<open>elements\<close> item under an array; \<open>_get_item_path\<close>
  reads an item's path back by dropping the labels \<open>[Root]\<close> and \<open>elements\<close>
  (\<open>path_label\<close>), and \<open>_get_schema_at_path\<close> walks the schema along it.
  \<open>item_typed_chains\<close> lists, for every item of a tree, the labels from the root
  down to it with the item's type. \<open>addr_node\<close> / \<open>addr_schema\<close> is the shape
  of analyzer output whose keys avoid the labels the code gives a meaning
  (\<open>reserved_labels\<close>), and \<open>keys_ok\<close> the documents whose keys do. The
  theorem: for an object document whose keys avoid them, every tree item other
  than an \<open>elements\<close> marker addresses, through \<open>_get_item_path\<close> and
  \<open>_get_schema_at_path\<close>, a schema node of the type the item displays.
\<close>

subsection \<open>Definitions\<close>

definition reserved_labels :: "string list" where
  "reserved_labels = [''type'', ''properties'', ''element_type'', ''stats'', ''value'', ''examples'',
                      ''__array_stats'', ''elements'', ''[Root]'']"

fun keys_ok :: "json \<Rightarrow> bool" where
  "keys_ok (JObj kvs) = list_all (\<lambda>kv. fst kv \<notin> set reserved_labels \<and> keys_ok (snd kv)) kvs"
| "keys_ok (JArr vs) = list_all keys_ok vs"
| "keys_ok _ = True"

inductive addr_node :: "pyval \<Rightarrow> bool" and addr_schema :: "(string, pyval) pydict \<Rightarrow> bool" where
  addr_Nil: "addr_schema []"
| addr_Cons: "addr_node n \<Longrightarrow> addr_schema d \<Longrightarrow> k \<notin> set reserved_labels \<Longrightarrow> k \<notin> set (map fst d) \<Longrightarrow>
    addr_schema ((k, n) # d)"
| addr_object: "addr_schema ps \<Longrightarrow> addr_node (PDict [(''type'', PStr ''object''), (''properties'', PDict ps)])"
| addr_array: "addr_node (PDict [(''type'', PStr ''array''), (''element_type'', et), (''stats'', st)])"
| addr_array_props: "addr_schema ps \<Longrightarrow>
    addr_node (PDict [(''type'', PStr ''array''), (''element_type'', et), (''stats'', st), (''properties'', PDict ps)])"
| addr_scalar: "t \<noteq> PStr ''object'' \<Longrightarrow> t \<noteq> PStr ''array'' \<Longrightarrow>
    addr_node (PDict [(''type'', t), (''value'', v), (''stats'', s), (''examples'', e)])"

fun item_typed_chains :: "tree_item \<Rightarrow> (string list \<times> pyval) list"
and items_typed_chains :: "tree_item list \<Rightarrow> (string list \<times> pyval) list" where
  "item_typed_chains (TItem label ty children) =
     ([label], ty) # map (\<lambda>(c, t). (label # c, t)) (items_typed_chains children)"
| "items_typed_chains [] = []"
| "items_typed_chains (t # ts) = item_typed_chains t @ items_typed_chains ts"

definition path_label :: "string \<Rightarrow> bool" where
  "path_label t = (t \<noteq> ''[Root]'' \<and> t \<noteq> ''elements'')"

subsection \<open>Lemmas\<close>

inductive_cases addr_ConsE: "addr_schema ((k, n) # d)"

lemma item_typed_chains_labels:
  "map fst (item_typed_chains t) = item_chains t" "map fst (items_typed_chains ts) = items_chains ts"
proof (induction t and ts rule: item_typed_chains_items_typed_chains.induct)
  case (1 label ty children)
  have "map fst (map (\<lambda>(c, t). (label # c, t)) (items_typed_chains children)) =
        map ((#) label) (map fst (items_typed_chains children))" by (simp add: split_beta)
  then show ?case using 1 by simp
qed simp_all

lemma addr_schema_dict_set:
  "addr_schema d \<Longrightarrow> addr_node n \<Longrightarrow> k \<notin> set reserved_labels \<Longrightarrow> addr_schema (dict_set d k n)"
proof (induction d)
  case Nil
  then show ?case by (simp add: dict_set_def addr_node_addr_schema.intros)
next
  case (Cons kv d)
  obtain k' n' where kv: "kv = (k', n')" by fastforce
  from Cons.prems(1) have n': "addr_node n'" and d: "addr_schema d" and k': "k' \<notin> set reserved_labels"
    and f: "k' \<notin> set (map fst d)" unfolding kv by (auto elim: addr_ConsE)
  show ?case
  proof (cases "k = k'")
    case True
    then show ?thesis using Cons.prems d k' f kv by (simp add: dict_set_def addr_node_addr_schema.intros)
  next
    case False
    have "addr_schema (dict_set d k n)" using Cons.IH d Cons.prems(2,3) by simp
    moreover have "k' \<notin> set (map fst (dict_set d k n))" using f False by simp
    ultimately show ?thesis using False kv n' k' by (simp add: dict_set_def addr_node_addr_schema.intros)
  qed
qed


lemma type_name_not_container: "PStr (type_name t) \<noteq> PStr ''object''" "PStr (type_name t) \<noteq> PStr ''array''"
  by (cases t; simp)+

lemma analyze_addr:
  "keys_ok v \<Longrightarrow> addr_node (fst (analyze_value rnd p key v k))"
  "addr_schema s \<Longrightarrow> list_all (\<lambda>kv. fst kv \<notin> set reserved_labels \<and> keys_ok (snd kv)) items \<Longrightarrow>
   addr_schema (fst (analyze_entries rnd p items s k))"
proof (induction rnd p key v k and rnd p items s k rule: analyze_value_analyze_entries.induct)
  case (1 rnd parent key ob k)
  then show ?case by (auto simp: split_beta intro!: addr_object addr_Nil)
next
  case (2 rnd parent key vs k)
  show ?case
  proof (cases "\<exists>ob xs. vs = JObj ob # xs")
    case True
    then obtain ob xs where vs: "vs = JObj ob # xs" by blast
    have "addr_schema (fst (analyze_entries rnd ob ob [] (snd (compute_array_stats rnd k vs))))"
      using "2.IH"[OF refl refl, of "fst (compute_array_stats rnd k vs)" "snd (compute_array_stats rnd k vs)"
          _ "JObj ob" xs ob] "2.prems" vs by (simp add: addr_Nil)
    then show ?thesis using vs by (simp add: split_beta dict_set_def addr_array_props)
  next
    case False
    then have "(case vs of JObj ob # _ \<Rightarrow> X ob | _ \<Rightarrow> Y) = Y" for X :: "_ \<Rightarrow> pyval \<times> nat" and Y
      by (auto split: list.split json.split)
    then show ?thesis by (simp add: split_beta Let_def addr_array)
  qed
qed (auto simp: split_beta type_name_not_container addr_schema_dict_set intro!: addr_scalar)



lemma reserved_path_label: "k \<notin> set reserved_labels \<Longrightarrow> path_label k"
  by (simp add: reserved_labels_def path_label_def)

lemma walk_object:
  "k \<notin> set reserved_labels \<Longrightarrow> map_of ps k = Some m \<Longrightarrow>
   schema_walk False (PDict [(''type'', PStr ''object''), (''properties'', PDict ps)]) (k # rest) = schema_walk False m rest"
proof -
  assume r: "k \<notin> set reserved_labels" and m: "map_of ps k = Some m"
  then have "k \<in> fst ` set ps" by (force dest: map_of_SomeD)
  then show ?thesis using r m by (simp add: reserved_labels_def)
qed

lemma walk_array:
  "k \<notin> set reserved_labels \<Longrightarrow> map_of ps k = Some m \<Longrightarrow>
   schema_walk False (PDict [(''type'', PStr ''array''), (''element_type'', et), (''stats'', st), (''properties'', PDict ps)])
     (k # rest) = schema_walk False m rest"
proof -
  assume r: "k \<notin> set reserved_labels" and m: "map_of ps k = Some m"
  then have "k \<in> fst ` set ps" by (force dest: map_of_SomeD)
  then show ?thesis using r m by (simp add: reserved_labels_def)
qed


lemma item_chain_cases:
  "(c, ty) \<in> set (item_typed_chains (TItem label t ch)) \<Longrightarrow>
   (c = [label] \<and> ty = t) \<or> (\<exists>c''. c = label # c'' \<and> (c'', ty) \<in> set (items_typed_chains ch))"
  by auto

lemma item_chains_nonempty: "(c, ty) \<in> set (item_typed_chains t) \<Longrightarrow> c \<noteq> []"
  by (cases t) auto

lemma items_chains_nonempty: "(c, ty) \<in> set (items_typed_chains ts) \<Longrightarrow> c \<noteq> []"
  by (induction ts) (auto dest: item_chains_nonempty)

lemma chain_tail_label: "(c, ty) \<in> set (items_typed_chains ts) \<Longrightarrow> path_label (last (x # c)) \<Longrightarrow> path_label (last c)"
  using items_chains_nonempty by fastforce

lemma walk_items_chain:
  assumes IH: "\<forall>c ty. (c, ty) \<in> set (items_typed_chains (add_items ps)) \<longrightarrow> path_label (last c) \<longrightarrow>
     (\<exists>k m c'. c = k # c' \<and> map_of ps k = Some m \<and> k \<notin> set reserved_labels \<and>
        (\<exists>d. schema_walk False m (filter path_label c') = Inr (Some (PDict d)) \<and> map_of d ''type'' = Some ty))"
    and walk: "\<And>k m rest. k \<notin> set reserved_labels \<Longrightarrow> map_of ps k = Some m \<Longrightarrow>
                 schema_walk b N (k # rest) = schema_walk False m rest"
    and c: "(c, ty) \<in> set (items_typed_chains (add_items ps))" "path_label (last c)"
  shows "\<exists>d. schema_walk b N (filter path_label c) = Inr (Some (PDict d)) \<and> map_of d ''type'' = Some ty"
proof -
  obtain k m c' where k: "c = k # c'" "map_of ps k = Some m" "k \<notin> set reserved_labels"
    and w: "\<exists>d. schema_walk False m (filter path_label c') = Inr (Some (PDict d)) \<and> map_of d ''type'' = Some ty"
    using IH c by blast
  have "schema_walk b N (filter path_label c) = schema_walk False m (filter path_label c')"
    unfolding k(1) using reserved_path_label[OF k(3)] walk[OF k(3) k(2)] by (simp del: schema_walk.simps)
  then show ?thesis using w by simp
qed

lemma addr_tree_paths:
  "addr_node n \<Longrightarrow> \<forall>key c ty. (c, ty) \<in> set (item_typed_chains (add_schema_item key n)) \<longrightarrow> path_label (last c) \<longrightarrow>
     (\<exists>c'. c = key # c' \<and> (\<exists>d. schema_walk False n (filter path_label c') = Inr (Some (PDict d)) \<and>
                                map_of d ''type'' = Some ty))"
  "addr_schema ps \<Longrightarrow> \<forall>c ty. (c, ty) \<in> set (items_typed_chains (add_items ps)) \<longrightarrow> path_label (last c) \<longrightarrow>
     (\<exists>k m c'. c = k # c' \<and> map_of ps k = Some m \<and> k \<notin> set reserved_labels \<and>
        (\<exists>d. schema_walk False m (filter path_label c') = Inr (Some (PDict d)) \<and> map_of d ''type'' = Some ty))"
proof (induction rule: addr_node_addr_schema.inducts)
  case (addr_Cons n d k)
  show ?case
  proof (intro allI impI)
    fix c ty
    assume c: "(c, ty) \<in> set (items_typed_chains (add_items ((k, n) # d)))" and l: "path_label (last c)"
    then consider "(c, ty) \<in> set (item_typed_chains (add_schema_item k n))"
      | "(c, ty) \<in> set (items_typed_chains (add_items d))" by auto
    then show "\<exists>k' m c'. c = k' # c' \<and> map_of ((k, n) # d) k' = Some m \<and> k' \<notin> set reserved_labels \<and>
        (\<exists>d'. schema_walk False m (filter path_label c') = Inr (Some (PDict d')) \<and> map_of d' ''type'' = Some ty)"
    proof cases
      case 1
      then show ?thesis using addr_Cons.IH(1) l addr_Cons.hyps(3) by fastforce
    next
      case 2
      then obtain k' m c' where "c = k' # c'" "map_of d k' = Some m" "k' \<notin> set reserved_labels"
        "\<exists>d'. schema_walk False m (filter path_label c') = Inr (Some (PDict d')) \<and> map_of d' ''type'' = Some ty"
        using addr_Cons.IH(2) l by blast
      moreover have "k' \<noteq> k" using \<open>map_of d k' = Some m\<close> addr_Cons.hyps(4) by (force dest: map_of_SomeD)
      ultimately show ?thesis by auto
    qed
  qed
next
  case (addr_object ps)
  show ?case
  proof (intro allI impI)
    fix key c ty
    assume c: "(c, ty) \<in> set (item_typed_chains (add_schema_item key
                  (PDict [(''type'', PStr ''object''), (''properties'', PDict ps)])))" and l: "path_label (last c)"
    from c consider "c = [key] \<and> ty = PStr ''object''"
      | c'' where "c = key # c''" "(c'', ty) \<in> set (items_typed_chains (add_items ps))" by auto
    then show "\<exists>c'. c = key # c' \<and>
        (\<exists>d. schema_walk False (PDict [(''type'', PStr ''object''), (''properties'', PDict ps)]) (filter path_label c') =
          Inr (Some (PDict d)) \<and> map_of d ''type'' = Some ty)"
    proof cases
      case 2
      show ?thesis
        using walk_items_chain[OF addr_object.IH walk_object 2(2) chain_tail_label[OF 2(2) l[unfolded 2(1)]]] 2(1)
        by blast
    qed simp
  qed
next
  case (addr_array_props ps et st)
  show ?case
  proof (intro allI impI)
    fix key c ty
    assume c: "(c, ty) \<in> set (item_typed_chains (add_schema_item key (PDict [(''type'', PStr ''array''),
                  (''element_type'', et), (''stats'', st), (''properties'', PDict ps)])))" and l: "path_label (last c)"
    from c consider "c = [key] \<and> ty = PStr ''array''" | "c = [key, ''elements''] \<and> ty = et"
      | c3 where "c = key # ''elements'' # c3" "(c3, ty) \<in> set (items_typed_chains (add_items ps))" by auto
    then show "\<exists>c'. c = key # c' \<and> (\<exists>d. schema_walk False (PDict [(''type'', PStr ''array''),
        (''element_type'', et), (''stats'', st), (''properties'', PDict ps)]) (filter path_label c') =
          Inr (Some (PDict d)) \<and> map_of d ''type'' = Some ty)"
    proof cases
      case 3
      have "path_label (last c3)" using chain_tail_label[OF 3(2)] l 3(1) items_chains_nonempty[OF 3(2)] by simp
      then show ?thesis
        using walk_items_chain[OF addr_array_props.IH walk_array 3(2)] 3(1) by (simp add: path_label_def)
    qed (use l in \<open>simp_all add: path_label_def\<close>)
  qed
qed (auto simp: path_label_def)

lemma addr_schema_keys: "addr_schema d \<Longrightarrow> k \<in> set (map fst d) \<Longrightarrow> k \<notin> set reserved_labels"
  by (induction d) (auto elim: addr_ConsE)

lemma walk_root:
  "''__array_stats'' \<notin> set (map fst info) \<Longrightarrow> map_of info k = Some m \<Longrightarrow>
   schema_walk True (PDict info) (k # rest) = schema_walk False m rest"
proof -
  assume a: "''__array_stats'' \<notin> set (map fst info)" and m: "map_of info k = Some m"
  then have "k \<in> fst ` set info" by (force dest: map_of_SomeD)
  then show ?thesis using a m by simp
qed

lemma analyze_object_addr: "keys_ok (JObj ob) \<Longrightarrow> addr_schema (fst (analyze_json rnd (JObj ob) n))"
  by (simp add: analyze_object_def analyze_addr(2) addr_Nil)

lemma object_tree_root:
  "''__array_stats'' \<notin> set (map fst info) \<Longrightarrow> update_schema_tree info = Some tr \<Longrightarrow>
   tr = TItem ''[Root]'' (PStr ''object'') (add_items info)"
  unfolding update_schema_tree_def by (cases "info = []") simp_all

lemma root_array_keys:
  assumes "vs \<noteq> []"
  shows "set (map fst (fst (analyze_json rnd (JArr vs) n))) =
         insert ''__array_stats'' (set (concat (map obj_keys (take 10 vs))))"
proof -
  obtain comb k1 where ck: "combine_items rnd (take 10 vs) [] n = (comb, k1)" by fastforce
  obtain st k2 where sk: "compute_array_stats rnd k1 vs = (st, k2)" by fastforce
  have "map fst comb = first_occ (concat (map obj_keys (take 10 vs)))"
    using combine_items_keys[of "[]" rnd "take 10 vs" n] ck by simp
  then show ?thesis using assms ck sk by auto
qed

lemma keys_ok_obj_keys: "keys_ok (JArr vs) \<Longrightarrow> k \<in> set (concat (map obj_keys vs)) \<Longrightarrow> k \<notin> set reserved_labels"
proof (induction vs)
  case (Cons v vs)
  then show ?case by (cases v) (auto simp: list_all_iff)
qed simp

lemma root_array_child_label:
  assumes "keys_ok (JArr vs)" "vs \<noteq> []" "update_schema_tree (fst (analyze_json rnd (JArr vs) n)) = Some t"
    and "[''[Root]'', k] \<in> set (item_chains t)"
  shows "k = ''Count'' \<or> k \<notin> set reserved_labels"
proof -
  obtain info where info: "info = fst (analyze_json rnd (JArr vs) n)" by blast
  have keys: "set (map fst info) = insert ''__array_stats'' (set (concat (map obj_keys (take 10 vs))))"
    using root_array_keys[OF assms(2)] info by simp
  then have "info \<noteq> []" by auto
  then obtain c where "t = TItem ''[Root]'' (PStr ''array'')
      (TItem ''Count'' c [] # add_items (filter (\<lambda>kv. fst kv \<noteq> ''__array_stats'') info))"
    using keys assms(3) info by (auto simp: update_schema_tree_def Let_def)
  then have "k = ''Count'' \<or> [k] \<in> set (items_chains (add_items (filter (\<lambda>kv. fst kv \<noteq> ''__array_stats'') info)))"
    using assms(4) by auto
  then have "k = ''Count'' \<or> k \<in> set (map fst (filter (\<lambda>kv. fst kv \<noteq> ''__array_stats'') info))"
    using items_chains_singleton by blast
  moreover have "k \<notin> set reserved_labels" if "k \<in> set (map fst (filter (\<lambda>kv. fst kv \<noteq> ''__array_stats'') info))"
  proof -
    have "k \<in> set (concat (map obj_keys (take 10 vs)))" using that keys by auto
    then have "k \<in> set (concat (map obj_keys vs))" by (auto dest: in_set_takeD)
    then show ?thesis by (rule keys_ok_obj_keys[OF assms(1)])
  qed
  ultimately show ?thesis by blast
qed

subsection \<open>Properties\<close>

text \<open>
  C10: Round trip between the schema tree and the schema for object documents whose
  keys avoid the labels the code reserves: every item of the tree built by
  \<open>update_schema_tree\<close>, other than an \<open>elements\<close> marker, has a path (read by
  \<open>_get_item_path\<close>) at which \<open>_get_schema_at_path\<close> finds a schema node whose
  \<open>type\<close> is the type the item displays.
\<close>

theorem object_item_paths_resolve:
  assumes "keys_ok (JObj ob)" "update_schema_tree (fst (analyze_json rnd (JObj ob) n)) = Some tr"
    and "(c, ty) \<in> set (item_typed_chains tr)" "path_label (last c)"
  shows "\<exists>d. get_schema_at_path (fst (analyze_json rnd (JObj ob) n)) (get_item_path (rev c) []) = Inr (Some (PDict d)) \<and>
             map_of d ''type'' = Some ty"
proof -
  obtain info where info: "info = fst (analyze_json rnd (JObj ob) n)" by blast
  have addr: "addr_schema info" unfolding info by (rule analyze_object_addr[OF assms(1)])
  have ns: "''__array_stats'' \<notin> set (map fst info)"
    using addr_schema_keys[OF addr, of "''__array_stats''"] by (auto simp: reserved_labels_def)
  have root: "tr = TItem ''[Root]'' (PStr ''object'') (add_items info)"
    using object_tree_root[OF ns] assms(2) unfolding info by blast
  from item_chain_cases[OF assms(3)[unfolded root]] obtain c'' where
    c: "c = ''[Root]'' # c''" and c'': "(c'', ty) \<in> set (items_typed_chains (add_items info))"
    using assms(4) by (auto simp: path_label_def)
  have l: "path_label (last c'')" using chain_tail_label[OF c''] assms(4) c by simp
  obtain d where d: "schema_walk True (PDict info) (filter path_label c'') = Inr (Some (PDict d))"
    "map_of d ''type'' = Some ty"
    using walk_items_chain[OF addr_tree_paths(2)[OF addr] walk_root[OF ns] c'' l] by blast
  have "get_item_path (rev c) [] = filter path_label c''"
    using c by (simp add: get_item_path_filter path_label_def[abs_def])
  then show ?thesis using d info by (auto simp: get_schema_at_path_def)
qed


lemma object_item_paths_resolve_witness:
  "keys_ok (JObj [(''a'', JObj [(''b'', JInt 1)])]) \<and>
   update_schema_tree (fst (analyze_json (\<lambda>_. []) (JObj [(''a'', JObj [(''b'', JInt 1)])]) 0)) =
     Some (TItem ''[Root]'' (PStr ''object'') [TItem ''a'' (PStr ''object'') [TItem ''b'' (PStr ''int'') []]]) \<and>
   ([''[Root]'', ''a'', ''b''], PStr ''int'') \<in> set (item_typed_chains
     (TItem ''[Root]'' (PStr ''object'') [TItem ''a'' (PStr ''object'') [TItem ''b'' (PStr ''int'') []]])) \<and>
   path_label (last [''[Root]'', ''a'', ''b'']) \<and>
   (\<exists>d. get_schema_at_path (fst (analyze_json (\<lambda>_. []) (JObj [(''a'', JObj [(''b'', JInt 1)])]) 0))
      (get_item_path (rev [''[Root]'', ''a'', ''b'']) []) = Inr (Some (PDict d)) \<and> map_of d ''type'' = Some (PStr ''int''))"
proof -
  have t: "update_schema_tree (fst (analyze_json (\<lambda>_. []) (JObj [(''a'', JObj [(''b'', JInt 1)])]) 0)) =
     Some (TItem ''[Root]'' (PStr ''object'') [TItem ''a'' (PStr ''object'') [TItem ''b'' (PStr ''int'') []]])"
    by (simp add: update_schema_tree_def analyze_object_def dict_set_def)
  have k: "keys_ok (JObj [(''a'', JObj [(''b'', JInt 1)])])" by (simp add: reserved_labels_def)
  show ?thesis
    using object_item_paths_resolve[OF k t, of "[''[Root]'', ''a'', ''b'']" "PStr ''int''"] k t
    by (simp add: path_label_def)
qed

end
