(* ===== verification/Spec2Isabelle.thy ===== *)
theory Spec2Isabelle
  imports Visibility Analyzer History Chat Window Cli SchemaTree Models SchemaTyping Highlight SchemaViewer PathAddressing
begin

text \<open>
  A verification development for askjson: src/askjson.py, a command-line tool, and
  src/gui.py, a desktop JSON viewer. Both turn a free-form question into a jq filter
  through a text-generation model and run jq on a JSON file. The viewer also infers
  a schema with statistics from the loaded document, shows it as a tree whose items
  can be hidden by path, keeps a history of queries, and lets an assistant chat
  produce queries.

  \<^bold>\<open>How the parts interact.\<close> A file is loaded into the main window, parsed,
  shown with syntax highlighting, and analysed into a schema, which the schema
  viewer turns into a tree. Clicking an eye in the tree toggles a path in the
  window's hidden set, and the document is shown again through the visibility
  filter; clicking an item is meant to show its details. A query typed in the query
  line, or produced by the chat assistant and delivered through Qt signals, is run
  by jq; its output is shown filtered and handed to the schema viewer.

  \<^bold>\<open>Theories, definitions and the code they model.\<close>
  \<^item> \<open>Prelude\<close>: the Python built-ins the code calls (\<open>str.strip\<close>,
    \<open>startswith\<close>, \<open>in\<close>, \<open>replace\<close>, \<open>split\<close>, \<open>lower\<close>, negative
    indices, the regular-expression classes \<open>\s\<close> and \<open>\w\<close> on Latin-1) and
    the insertion-ordered \<open>dict\<close> as \<open>AList.update\<close>, with shared list lemmas.
  \<^item> \<open>Json\<close>: the parsed value (\<open>json\<close>), Python's type tests and truthiness,
    the schema values (\<open>pyval\<close>), and the invariant \<open>wf_json\<close> (distinct keys).
  \<^item> \<open>Visibility\<close>: \<open>filter_json_by_visibility\<close> and \<open>_filter_recursive\<close>
    (gui.py 1124-1153) as the mutual functions \<open>filter_recursive\<close> /
    \<open>filter_items\<close>, and the sub-tree order \<open>prunes\<close> as an inductive relation.
  \<^item> \<open>Stats\<close>: \<open>_compute_value_stats\<close>, \<open>_get_examples\<close> and
    \<open>_compute_array_stats\<close> (gui.py 240-369), with \<open>Counter\<close>,
    \<open>most_common\<close>, \<open>statistics.mean/median/stdev\<close> (floats as exact reals).
    \<open>random.sample\<close> is an explicit draw source \<open>rnd\<close> with a counter \<open>k\<close> of
    draws made so far, threaded through every call.
  \<^item> \<open>Analyzer\<close>: \<open>analyze_json\<close> and \<open>_analyze_object\<close> (gui.py 168-237) as
    \<open>analyze_json\<close>, \<open>analyze_value\<close> / \<open>analyze_entries\<close>, \<open>merge_new\<close>
    and \<open>combine_items\<close>.
  \<^item> \<open>SchemaTree\<close>: \<open>update_schema_tree\<close>, \<open>_add_schema_item\<close>,
    \<open>_get_item_path\<close> and \<open>_get_schema_at_path\<close> (gui.py 467-478, 523-593,
    700-730), with Python's \<open>in\<close> and \<open>[]\<close> and their exceptions.
  \<^item> \<open>History\<close>: the query line \<open>JqQueryInput\<close> (gui.py 95-163) as a record
    \<open>query_input\<close>, its \<open>keyPressEvent\<close> as \<open>key_press\<close> returning the calls
    on the window, and its reachable states as an inductive predicate.
  \<^item> \<open>PathAddressing\<close>: how the tree's item paths address the schema:
    \<open>path_label\<close> is the test \<open>_get_item_path\<close> applies to each label, and
    \<open>item_typed_chains\<close> the label chains of a tree with each item's type.
  \<^item> \<open>SchemaTyping\<close>: the shape of the analyzer's schema as a typing judgment
    (\<open>node_typed\<close> / \<open>schema_typed\<close>, an inductive predicate with
    \<open>code_pred\<close>).
  \<^item> \<open>Chat\<close>: \<open>send_message\<close>, \<open>get_response\<close>, \<open>_fix_jq_syntax\<close> and
    \<open>ChatInputTextEdit.keyPressEvent\<close> (gui.py 857-1028); the model calls are
    parameters returning an exception or the value \<open>response\<close> holds
    (\<open>py_response\<close>: a \<open>str\<close> from ollama, or the \<open>llm\<close> library's
    \<open>Response\<close> object, which has no \<open>split\<close> and whose formatting may raise),
    after which both branches run the same code; the emitted signals are a list of
    \<open>chat_event\<close>s, the four regular expressions are anchored matchers and
    \<open>re.search\<close> the leftmost match.
  \<^item> \<open>Models\<close>: \<open>load_models\<close> and \<open>_add_ollama_models\<close> (gui.py 794-855)
    over a combo-box record.
  \<^item> \<open>Window\<close>: \<open>JsonViewerWindow\<close> (gui.py 1030-1243) as the record
    \<open>window\<close>, which contains the query line of \<open>History\<close>; one function per
    handler over an environment of the external calls (file read,
    \<open>json.loads\<close>, jq), effects for jq runs and message boxes; the signal
    connections of lines 780, 1070 and 1071 as \<open>deliver\<close>; reachable states under
    every user action (drag and drop included) as the inductive
    \<open>win_reachable\<close>.
  \<^item> \<open>SchemaViewer\<close>: the widgets of the schema viewer (gui.py 371-521,
    595-698). A click on an eye icon (\<open>EyeIconDelegate.editorEvent\<close>,
    \<open>_handle_eye_clicked\<close>, the viewer's re-emit and the connection of line 1086)
    is \<open>eye_click\<close>, over the \<open>UserRole\<close> slot of each tree item
    (\<open>role_data\<close>), and \<open>paint_eye\<close> the icon drawn; the viewer's state is
    the record \<open>schema_viewer\<close>, whose \<open>itemClicked\<close> connections are kept as
    the handlers bound when they were made; \<open>show_attribute_details\<close> is the
    list of rows the details panel receives, step by step, with the exceptions of
    \<open>in\<close>, \<open>[]\<close>, \<open>get\<close> and iteration, and \<open>str\<close> and the float
    formats as parameters.
  \<^item> \<open>Highlight\<close>: \<open>JsonSyntaxHighlighter\<close> (gui.py 27-84). The seven
    patterns are backtracking regular expressions whose matcher \<open>rx_ends\<close> lists
    match ends in PCRE2's order; \<open>globalMatch\<close>, \<open>setFormat\<close> and the
    format table are modelled as written.
  \<^item> \<open>Cli\<close>: src/askjson.py. \<open>ask_ollama\<close>, \<open>run_jq\<close>, \<open>interactive_mode\<close>
    and \<open>main\<close>; printed lines are outputs, typed lines (and Ctrl-C) inputs; after
    the last input \<open>input()\<close> raises \<open>EOFError\<close>.

  \<^bold>\<open>What the lemmas show.\<close> The visibility filter keeps exactly the key paths
  without a hidden prefix, preserves well-formedness, is idempotent, composes by
  union and is monotone. The analyzer keeps every object's keys, merges a root
  array's object elements first-wins, describes a nested array by its first
  element only, and is deterministic except for the sampled examples. The
  statistics equal their reference definitions (\<open>Counter\<close> counts, stable
  ranking, bounds of min/max/mean/median). The query line keeps at most 50
  entries with no empty entry and no repetition in a row, and browsing round-trips.
  The window keeps file, text and parsed value consistent in every reachable
  state. Every node the analyzer builds is well typed (its \<open>type\<close> tag matches
  its shape and its value). For an object document whose keys avoid the labels
  the code reserves, every tree item other than an \<open>elements\<close> marker resolves,
  through \<open>_get_item_path\<close> and \<open>_get_schema_at_path\<close>, to a schema node of the
  type it displays; under a root array the first segment of every path is skipped,
  so every item directly under the root would show only its path in the details
  panel. Eye clicks can only remove paths from the hidden set,
  and the eyes are never drawn as visible, because the tree stores each item over
  its own hidden flag; a click on an item never reaches the details panel, which
  would otherwise show truncated examples and, for every key of an object
  document, the key's path and the type the analyzer gives its value first. The
  highlighter's matcher is exact with respect to the declarative semantics of its
  patterns (the minus-sign property builds on its soundness half), the punctuation rules
  override the string format, and a minus sign after a non-word character is never
  coloured as a number. Escape does not end history browsing; the query repair only
  rewrites queries with the literal single-space forms; every prose line with a dot
  is taken as the query; the \<open>llm\<close> models never yield a query; the default model
  \<open>ollama:mistral\<close> is never selected when the ollama ids carry tags; and the
  command-line clean-up deletes every \<open>jq\<close> inside the filter. Several lemmas pin
  down behaviour the code has and its comments or the
  spec do not intend; they are listed as findings in PROJECT.json.

  \<^bold>\<open>Loops, fuel and bounds.\<close> Every recursive function is structural or has a
  measure (the \<open>str.replace\<close> scan, the whitespace split, the tree builder on the
  size of the schema), so all of them terminate. The interactive loop of
  askjson.py may not terminate, so it is a \<open>partial_function (option)\<close>:
  None is "never returns"; it returns whenever a Ctrl-C is among the inputs, and
  never returns when no input can end it. The regular-expression matcher recurses
  on the pattern and, for \<open>*\<close>, on the length of the remaining text, and
  \<open>globalMatch\<close> on the distance to the end of the block. The query history
  bound of 50, the ten sampled root elements and the truncation lengths 50 and 30
  of the details panel are the code's own constants.

  \<^bold>\<open>Not modelled.\<close> Widget construction and layout (\<open>init_ui\<close>, splitters,
  fonts, \<open>JsonTextEdit\<close>), the drawing itself (colours reach the model as names,
  the eye-icon geometry of \<open>EyeIconDelegate\<close>: a click is assumed to land on a
  painted eye), Python's \<open>str\<close> of floats and the \<open>:.2f\<close> formats (parameters
  of the details panel), the fixed text of the prompts sent to the models,
  \<open>json.dumps\<close> (a shown value is kept as the value), and the external
  programs and libraries themselves (jq, ollama, the \<open>llm\<close> library, the file
  system, \<open>json.loads\<close>), which are inputs of the model.
\<close>

subsection \<open>Properties across components\<close>

lemma analyze_value_type_tag:
  "\<exists>d. fst (analyze_value rnd p key v j) = PDict d \<and>
       map_of d ''type'' = Some (PStr (case v of JObj _ \<Rightarrow> ''object'' | JArr _ \<Rightarrow> ''array''
                                               | _ \<Rightarrow> type_name (py_type_of v)))"
  by (cases v) (auto simp: split_beta Let_def dict_set_def split: list.split json.split)

text \<open>
  C39: Path addressing fails under a root array: for a root-array document whose keys
  avoid the labels the code reserves, clicking any item directly under the root (the
  \<open>Count\<close> item or a key) would show only its path. \<open>_get_schema_at_path\<close>
  skips the first segment whenever the schema has \<open>__array_stats\<close>, so the path
  resolves to the whole root schema, which has no \<open>type\<close>; the spec requires it to
  resolve to the item's own node.
\<close>

theorem root_array_children_show_only_path:
  assumes "keys_ok (JArr vs)" "vs \<noteq> []" "update_schema_tree (fst (analyze_json rnd (JArr vs) n)) = Some t"
    and "[''[Root]'', k] \<in> set (item_chains t)"
  shows "show_attribute_details F (fst (analyze_json rnd (JArr vs) n)) (get_item_path (rev [''[Root]'', k]) []) =
         ([(''Path:'', k)], None)"
proof -
  let ?info = "fst (analyze_json rnd (JArr vs) n)"
  have keys: "set (map fst ?info) = insert ''__array_stats'' (set (concat (map obj_keys (take 10 vs))))"
    by (rule root_array_keys[OF assms(2)])
  have "''type'' \<notin> set (map fst ?info)"
    using keys keys_ok_obj_keys[OF assms(1)] in_set_takeD by (fastforce simp: reserved_labels_def)
  then have nt: "map_of ?info ''type'' = None" by (simp add: map_of_eq_None_iff)
  have ne: "?info \<noteq> []" using keys by auto
  have p: "get_item_path (rev [''[Root]'', k]) [] = [k]"
    using root_array_child_label[OF assms] by (auto simp: reserved_labels_def)
  have "get_schema_at_path ?info [k] = Inr (Some (PDict ?info))"
    using keys by (simp add: get_schema_at_path_def del: analyze_json.simps)
  then show ?thesis using p nt ne
    by (simp add: show_attribute_details_def node_steps_def del: analyze_json.simps)
qed


lemma root_array_children_show_only_path_witness:
  "keys_ok (JArr [JObj [(''x'', JInt 1)]]) \<and> [JObj [(''x'', JInt 1)]] \<noteq> [] \<and>
   update_schema_tree (fst (analyze_json (\<lambda>_. []) (JArr [JObj [(''x'', JInt 1)]]) 0)) =
     Some (the (update_schema_tree (fst (analyze_json (\<lambda>_. []) (JArr [JObj [(''x'', JInt 1)]]) 0)))) \<and>
   [''[Root]'', ''x''] \<in> set (item_chains (the (update_schema_tree (fst (analyze_json (\<lambda>_. []) (JArr [JObj [(''x'', JInt 1)]]) 0))))) \<and>
   show_attribute_details \<lparr>py_str = (\<lambda>_. ''?''), py_fixed = (\<lambda>_ _. Inr ''0'')\<rparr>
     (fst (analyze_json (\<lambda>_. []) (JArr [JObj [(''x'', JInt 1)]]) 0)) (get_item_path (rev [''[Root]'', ''x'']) []) =
     ([(''Path:'', ''x'')], None)"
proof -
  let ?info = "fst (analyze_json (\<lambda>_. []) (JArr [JObj [(''x'', JInt 1)]]) 0)"
  have k: "keys_ok (JArr [JObj [(''x'', JInt 1)]])" by (simp add: reserved_labels_def)
  have a: "''__array_stats'' \<in> set (map fst ?info)"
    by (simp add: analyze_object_def dict_set_def split: prod.split)
  have ne: "?info \<noteq> []" using a by (metis empty_iff list.set(1) list.simps(8))
  have t: "update_schema_tree ?info = Some (the (update_schema_tree ?info))"
    unfolding update_schema_tree_def using a ne by (simp only: if_False if_True option.sel) simp
  have c: "[''[Root]'', ''x''] \<in> set (item_chains (the (update_schema_tree ?info)))"
    by (simp add: analyze_object_def dict_set_def update_schema_tree_def Let_def compute_array_stats_def
                  is_number_def split: prod.split)
  show ?thesis
    using root_array_children_show_only_path[OF k _ t c, of "\<lparr>py_str = (\<lambda>_. ''?''), py_fixed = (\<lambda>_ _. Inr ''0'')\<rparr>"]
      k t c by simp
qed

text \<open>
  C40: Loading, analysis, path lookup and the details panel fit together: for every
  key \<open>k\<close> of a loaded object document (other than the reserved \<open>__array_stats\<close>)
  with value \<open>v\<close>, the details of the item of that key would start with the path
  \<open>k\<close> and the type the analyzer gives \<open>v\<close> (\<open>object\<close>, \<open>array\<close> or the
  Python type name), whatever \<open>random.sample\<close> draws.
\<close>

theorem details_of_object_key:
  assumes "wf_json (JObj ob)" "''__array_stats'' \<notin> set (map fst ob)" "map_of ob k = Some v"
  shows "\<exists>rest. fst (show_attribute_details F (fst (analyze_json rnd (JObj ob) n)) [k]) =
           (''Path:'', k) # (''Type:'', py_str F (PStr (case v of JObj _ \<Rightarrow> ''object'' | JArr _ \<Rightarrow> ''array''
                                                              | _ \<Rightarrow> type_name (py_type_of v)))) # rest"
proof -
  let ?info = "fst (analyze_json rnd (JObj ob) n)"
  have "distinct (map fst ob)" using assms(1) by simp
  then obtain j where "map_of ?info k = Some (fst (analyze_value rnd ob k v j))"
    using analyze_entries_lookup[of ob k v rnd ob "[]" n] assms(3) by (auto simp: analyze_object_def)
  moreover obtain d where d: "fst (analyze_value rnd ob k v j) = PDict d"
    and t: "map_of d ''type'' = Some (PStr (case v of JObj _ \<Rightarrow> ''object'' | JArr _ \<Rightarrow> ''array''
                                                   | _ \<Rightarrow> type_name (py_type_of v)))"
    using analyze_value_type_tag by blast
  ultimately have "map_of ?info k = Some (PDict d)" by simp
  moreover have "''__array_stats'' \<notin> set (map fst ?info)" using assms(2) by (simp add: analyze_object_keys)
  ultimately have "get_schema_at_path ?info [k] = Inr (Some (PDict d))"
    by (intro get_schema_at_path_object_key)
  moreover have "d \<noteq> []" using t by auto
  ultimately show ?thesis using t
    by (simp add: show_attribute_details_def node_steps_def del: analyze_json.simps)
qed

lemma details_of_object_key_witness:
  "wf_json (JObj [(''a'', JInt 1)]) \<and> ''__array_stats'' \<notin> set (map fst [(''a'', JInt 1)]) \<and>
   map_of [(''a'', JInt 1)] ''a'' = Some (JInt 1) \<and>
   (\<exists>rest. fst (show_attribute_details \<lparr>py_str = (\<lambda>v. case v of PStr s \<Rightarrow> s | _ \<Rightarrow> ''?''), py_fixed = (\<lambda>_ _. Inr ''0'')\<rparr>
      (fst (analyze_json (\<lambda>_. []) (JObj [(''a'', JInt 1)]) 0)) [''a'']) =
      (''Path:'', ''a'') # (''Type:'', ''int'') # rest)"
  using details_of_object_key[of "[(''a'', JInt 1)]" "''a''" "JInt 1"
      "\<lparr>py_str = (\<lambda>v. case v of PStr s \<Rightarrow> s | _ \<Rightarrow> ''?''), py_fixed = (\<lambda>_ _. Inr ''0'')\<rparr>" "\<lambda>_. []" 0]
  by simp

end
